(* ===== verification/Prelude.thy ===== *)
theory Prelude
  imports Main "HOL-Library.Word" "HOL-Library.Monad_Syntax" "HOL-Library.Sublist"
begin

text \<open>
  Shared vocabulary of the development: the machine integer types of the crate, the parts of
  Rust's standard library that the sources use on strings and vectors (decimal display and
  parsing, \<open>split\<close>, \<open>split_whitespace\<close>, \<open>lines\<close>, \<open>trim\<close>, \<open>dedup_by\<close>, \<open>join\<close>), and the
  generic lemmas on lists and sums that the component theories rest on.
\<close>

section \<open>Machine integers\<close>

type_synonym u8 = "8 word"
type_synonym u16 = "16 word"
type_synonym u32 = "32 word"
type_synonym u64 = "64 word"
type_synonym i32 = "32 word" \<comment> \<open>read with \<open>sint\<close>\<close>
type_synonym i64 = "64 word" \<comment> \<open>read with \<open>sint\<close>\<close>

section \<open>Collections of rewrite rules\<close>

named_theorems str_simps \<comment> \<open>equations of the string functions\<close>
named_theorems trace_simps \<comment> \<open>what one kernel call adds to the history\<close>

section \<open>Results\<close>

text \<open>\<open>Result<T, E>\<close> is the sum \<open>'e + 't\<close>: \<open>Inl\<close> is \<open>Err\<close> and \<open>Inr\<close> is \<open>Ok\<close>.\<close>

abbreviation is_ok :: "'e + 'a \<Rightarrow> bool" where
  "is_ok r \<equiv> \<not> isl r"

lemma isl_case_simps [simp]:
  "isl (Inl e)" "\<not> isl (Inr x)"
  by simp_all

lemma is_ok_iff: "is_ok r \<longleftrightarrow> (\<exists>x. r = Inr x)"
  by (cases r) auto

lemma not_Inl_unit [simp]: "(\<forall>e. (x :: 'e + unit) \<noteq> Inl e) \<longleftrightarrow> x = Inr ()"
  by (cases x) auto

named_theorems case_eqs \<comment> \<open>a case expression equal to a value, as a disjunction\<close>

lemma case_sum_eq_iff [case_eqs]:
  "(case r of Inl e \<Rightarrow> f e | Inr x \<Rightarrow> g x) = y \<longleftrightarrow> (\<exists>e. r = Inl e \<and> f e = y) \<or> (\<exists>x. r = Inr x \<and> g x = y)"
  by (cases r) auto

lemma case_option_eq_iff [case_eqs]:
  "(case r of None \<Rightarrow> a | Some x \<Rightarrow> g x) = y \<longleftrightarrow> (r = None \<and> a = y) \<or> (\<exists>x. r = Some x \<and> g x = y)"
  by (cases r) auto

lemma case_prod_eq_iff [case_eqs]: "(case r of (a, b) \<Rightarrow> f a b) = y \<longleftrightarrow> (\<exists>a b. r = (a, b) \<and> f a b = y)"
  by (cases r) auto

section \<open>Vectors\<close>

text \<open>\<open>Vec::dedup_by\<close>: of each run of consecutive equivalent elements the first is kept.\<close>

fun dedup_by :: "('a \<Rightarrow> 'a \<Rightarrow> bool) \<Rightarrow> 'a list \<Rightarrow> 'a list" where
  "dedup_by same [] = []"
| "dedup_by same [x] = [x]"
| "dedup_by same (x # y # zs) =
     (if same y x then dedup_by same (x # zs) else x # dedup_by same (y # zs))"

lemma set_dedup_by_subset: "set (dedup_by same xs) \<subseteq> set xs"
  by (induction same xs rule: dedup_by.induct) auto

lemma length_dedup_by_le: "length (dedup_by same xs) \<le> length xs"
  by (induction same xs rule: dedup_by.induct) auto

lemma dedup_by_Nil_iff [simp]: "dedup_by same xs = [] \<longleftrightarrow> xs = []"
  by (induction same xs rule: dedup_by.induct) auto

text \<open>On a list that is descending in a key, \<open>dedup_by\<close> with equality of keys leaves a strictly
  descending list with the same keys, and each kept element is the first of its key.\<close>

lemma key_dedup_by: "f ` set (dedup_by (\<lambda>a b. f a = f b) xs) = f ` set xs"
  by (induction "\<lambda>a b. f a = f b" xs rule: dedup_by.induct) auto

lemma hd_dedup_by: "xs \<noteq> [] \<Longrightarrow> hd (dedup_by (\<lambda>a b. f a = f b) xs) = hd xs"
  by (induction "\<lambda>a b. f a = f b" xs rule: dedup_by.induct) auto

lemma dedup_by_strict:
  fixes f :: "'a \<Rightarrow> 'b::linorder"
  assumes "sorted_wrt (\<lambda>a b. f a \<ge> f b) xs"
  shows "sorted_wrt (\<lambda>a b. f a > f b) (dedup_by (\<lambda>a b. f a = f b) xs)"
  using assms
proof (induction "\<lambda>a b. f a = f b" xs rule: dedup_by.induct)
  case (3 x y zs)
  show ?case
  proof (cases "f y = f x")
    case True
    with 3 show ?thesis by auto
  next
    case False
    with 3 have IH: "sorted_wrt (\<lambda>a b. f a > f b) (dedup_by (\<lambda>a b. f a = f b) (y # zs))"
      by auto
    have "f x > f z" if "z \<in> set (dedup_by (\<lambda>a b. f a = f b) (y # zs))" for z
      using that set_dedup_by_subset [of "\<lambda>a b. f a = f b" "y # zs"] 3(3) False
      by fastforce
    with IH False show ?thesis by simp
  qed
qed auto

lemma find_dedup_by:
  fixes f :: "'a \<Rightarrow> 'b::linorder"
  assumes "sorted_wrt (\<lambda>a b. f a \<ge> f b) xs"
  shows "find (\<lambda>a. f a = key) (dedup_by (\<lambda>a b. f a = f b) xs) = find (\<lambda>a. f a = key) xs"
  using assms
proof (induction "\<lambda>a b. f a = f b" xs rule: dedup_by.induct)
  case (3 x y zs)
  then show ?case by (cases "f y = f x") auto
qed auto

section \<open>Strings\<close>

text \<open>Decimal display of an unsigned integer, and \<open>str::parse\<close> for unsigned integers: an
  optional \<open>+\<close>, at least one digit, and a value below the bound of the type.\<close>

definition digit_char :: "nat \<Rightarrow> char" where
  "digit_char d = char_of (48 + d)"

definition is_digit :: "char \<Rightarrow> bool" where
  "is_digit c \<longleftrightarrow> 48 \<le> (of_char c :: nat) \<and> (of_char c :: nat) \<le> 57"

definition digit_val :: "char \<Rightarrow> nat" where
  "digit_val c = of_char c - 48"

fun show_nat :: "nat \<Rightarrow> string" where
  "show_nat n = (if n < 10 then [digit_char n] else show_nat (n div 10) @ [digit_char (n mod 10)])"

declare show_nat.simps [simp del]

definition show_int :: "int \<Rightarrow> string" where
  "show_int i = (if i < 0 then CHR ''-'' # show_nat (nat (- i)) else show_nat (nat i))"

definition digits_val :: "string \<Rightarrow> nat" where
  "digits_val s = foldl (\<lambda>acc c. acc * 10 + digit_val c) 0 s"

definition parse_unsigned :: "nat \<Rightarrow> string \<Rightarrow> nat option" where
  "parse_unsigned bound s =
     (let ds = (case s of c # cs \<Rightarrow> if c = CHR ''+'' then cs else s | [] \<Rightarrow> [])
      in if ds \<noteq> [] \<and> list_all is_digit ds \<and> digits_val ds < bound then Some (digits_val ds) else None)"

lemma is_digit_digit_char [simp]: "d < 10 \<Longrightarrow> is_digit (digit_char d)"
  by (simp add: is_digit_def digit_char_def)

lemma digit_val_digit_char [simp]: "d < 10 \<Longrightarrow> digit_val (digit_char d) = d"
  by (simp add: digit_val_def digit_char_def)

lemma show_nat_digits: "list_all is_digit (show_nat n) \<and> show_nat n \<noteq> []"
proof (induction n rule: show_nat.induct)
  case (1 n)
  then show ?case by (cases "n < 10") (auto simp: show_nat.simps [of n])
qed

lemma digits_val_show_nat [simp]: "digits_val (show_nat n) = n"
proof (induction n rule: show_nat.induct)
  case (1 n)
  then show ?case
    by (cases "n < 10") (auto simp: show_nat.simps [of n] digits_val_def)
qed

lemma plus_not_digit: "\<not> is_digit (CHR ''+'')"
  by (simp add: is_digit_def)

lemma parse_show_nat: "n < bound \<Longrightarrow> parse_unsigned bound (show_nat n) = Some n"
proof -
  assume "n < bound"
  obtain c cs where s: "show_nat n = c # cs" and d: "is_digit c"
    using show_nat_digits [of n] by (cases "show_nat n") auto
  have "c \<noteq> CHR ''+''" using d plus_not_digit by metis
  with s have "(case show_nat n of x # xs \<Rightarrow> if x = CHR ''+'' then xs else show_nat n | [] \<Rightarrow> []) = show_nat n"
    by simp
  with \<open>n < bound\<close> show ?thesis
    using show_nat_digits [of n] by (simp only: parse_unsigned_def Let_def) simp
qed

lemma parse_unsigned_bound: "parse_unsigned bound s = Some n \<Longrightarrow> n < bound"
  by (auto simp: parse_unsigned_def Let_def split: if_splits)

text \<open>ASCII white space as \<open>char::is_whitespace\<close> sees it in one-byte characters.\<close>

definition is_ws :: "char \<Rightarrow> bool" where
  "is_ws c \<longleftrightarrow> (of_char c :: nat) \<in> {9, 10, 11, 12, 13, 32}"

definition trim :: "string \<Rightarrow> string" where
  "trim s = rev (dropWhile is_ws (rev (dropWhile is_ws s)))"

text \<open>\<open>str::split(c)\<close>: the pieces between the separators, empty ones included.\<close>

fun split_on :: "char \<Rightarrow> string \<Rightarrow> string list" where
  "split_on c [] = [[]]"
| "split_on c (x # xs) =
     (if x = c then [] # split_on c xs
      else case split_on c xs of p # ps \<Rightarrow> (x # p) # ps | [] \<Rightarrow> [[x]])"

lemma split_on_not_Nil [simp]: "split_on c s \<noteq> []"
  by (induction c s rule: split_on.induct) (auto split: list.splits)

lemma hd_split_on: "hd (split_on c s) = takeWhile (\<lambda>x. x \<noteq> c) s"
  by (induction c s rule: split_on.induct) (auto split: list.splits)

lemma split_on_no_sep: "c \<notin> set s \<Longrightarrow> split_on c s = [s]"
  by (induction c s rule: split_on.induct) (auto split: list.splits)

text \<open>\<open>str::split_whitespace\<close>: the maximal runs of non-white characters.\<close>

function split_whitespace :: "string \<Rightarrow> string list" where
  "split_whitespace s =
     (case dropWhile is_ws s of
        [] \<Rightarrow> []
      | c # cs \<Rightarrow> (c # takeWhile (Not \<circ> is_ws) cs) # split_whitespace (dropWhile (Not \<circ> is_ws) cs))"
  by pat_completeness auto
termination
proof (relation "measure length", simp, goal_cases)
  case (1 s c cs)
  have "length (dropWhile (Not \<circ> is_ws) cs) \<le> length cs" by (rule length_dropWhile_le)
  moreover have "length (c # cs) \<le> length s"
    using length_dropWhile_le [of is_ws s] 1 by simp
  ultimately show ?case by simp
qed

declare split_whitespace.simps [simp del]

text \<open>\<open>str::lines\<close>: split at \<open>\n\<close>, dropping a final empty piece and a trailing \<open>\r\<close> of each
  piece.\<close>

definition strip_cr :: "string \<Rightarrow> string" where
  "strip_cr l = (if l \<noteq> [] \<and> last l = CHR 0x0D then butlast l else l)"

definition str_lines :: "string \<Rightarrow> string list" where
  "str_lines s =
     (let ps = split_on (CHR 0x0A) s
      in map strip_cr (if last ps = [] then butlast ps else ps))"

definition starts_with :: "string \<Rightarrow> string \<Rightarrow> bool" where
  "starts_with p s \<longleftrightarrow> take (length p) s = p"

definition ends_with :: "string \<Rightarrow> string \<Rightarrow> bool" where
  "ends_with p s \<longleftrightarrow> length p \<le> length s \<and> drop (length s - length p) s = p"

lemma starts_with_iff: "starts_with p s \<longleftrightarrow> (\<exists>r. s = p @ r)"
  by (auto simp: starts_with_def) (metis append_take_drop_id)

lemma ends_with_iff: "ends_with p s \<longleftrightarrow> (\<exists>l. s = l @ p)"
  by (auto simp: ends_with_def) (metis append_take_drop_id)

definition strip_prefix :: "string \<Rightarrow> string \<Rightarrow> string option" where
  "strip_prefix p s = (if starts_with p s then Some (drop (length p) s) else None)"

lemma strip_prefix_Some_iff: "strip_prefix p s = Some r \<longleftrightarrow> s = p @ r"
  by (auto simp: strip_prefix_def starts_with_iff)

text \<open>\<open>str::trim_start_matches(p)\<close> for a non-empty pattern removes the prefix repeatedly.\<close>

function trim_start_matches :: "string \<Rightarrow> string \<Rightarrow> string" where
  "trim_start_matches p s =
     (if p \<noteq> [] \<and> starts_with p s then trim_start_matches p (drop (length p) s) else s)"
  by pat_completeness auto
termination
  by (relation "measure (\<lambda>(p, s). length s)") (auto simp: starts_with_iff)

declare trim_start_matches.simps [simp del]

text \<open>\<open>[S]::join(sep)\<close>.\<close>

fun join :: "string \<Rightarrow> string list \<Rightarrow> string" where
  "join sep [] = []"
| "join sep [x] = x"
| "join sep (x # y # zs) = x @ sep @ join sep (y # zs)"

text \<open>ASCII lower-casing, the effect of \<open>str::to_lowercase\<close> on one-byte characters.\<close>

definition lower_char :: "char \<Rightarrow> char" where
  "lower_char c = (if 65 \<le> (of_char c :: nat) \<and> (of_char c :: nat) \<le> 90
                   then char_of ((of_char c :: nat) + 32) else c)"

definition to_lowercase :: "string \<Rightarrow> string" where
  "to_lowercase = map lower_char"

lemma lower_char_idem [simp]: "lower_char (lower_char c) = lower_char c"
proof (cases "65 \<le> (of_char c :: nat) \<and> (of_char c :: nat) \<le> 90")
  case True
  then have "(of_char (char_of ((of_char c :: nat) + 32) :: char) :: nat) = of_char c + 32"
    by simp
  with True show ?thesis by (simp add: lower_char_def)
qed (auto simp: lower_char_def)

lemma to_lowercase_idem [simp]: "to_lowercase (to_lowercase s) = to_lowercase s"
  by (simp add: to_lowercase_def)

text \<open>\<open>str::as_bytes\<close>; a string is the list of its UTF-8 bytes.\<close>

definition as_bytes :: "string \<Rightarrow> u8 list" where
  "as_bytes s = map of_char s"

end
