(* ===== verification/Paths.thy ===== *)
theory Paths
  imports Prelude
begin

text \<open>
  The part of \<open>std::path\<close> the sources use, on byte strings: \<open>components\<close>, \<open>has_root\<close>, \<open>join\<close>,
  \<open>parent\<close>, \<open>starts_with\<close> and equality of paths. As in the standard library, repeated separators
  and interior \<open>.\<close> components do not count, and a leading \<open>.\<close> of a relative path does.
\<close>

section \<open>Components\<close>

datatype Component = RootDir | CurDir | ParentDir | Normal string

definition has_root :: "string \<Rightarrow> bool" where
  "has_root s \<longleftrightarrow> (\<exists>cs. s = CHR ''/'' # cs)"

lemma has_root_code [code, simp]: "has_root [] = False" "has_root (c # cs) = (c = CHR ''/'')"
  by (simp_all add: has_root_def)

abbreviation junk_piece :: "string \<Rightarrow> bool" where
  "junk_piece p \<equiv> p = [] \<or> p = ''.''"

definition piece_component :: "string \<Rightarrow> Component" where
  "piece_component p = (if p = ''..'' then ParentDir else Normal p)"

definition components :: "string \<Rightarrow> Component list" where
  "components s =
     (let ps = split_on (CHR ''/'') s
      in (if has_root s then [RootDir] else if hd ps = ''.'' then [CurDir] else [])
         @ map piece_component (filter (\<lambda>p. \<not> junk_piece p) ps))"

definition path_eq :: "string \<Rightarrow> string \<Rightarrow> bool" where
  "path_eq a b \<longleftrightarrow> components a = components b"

definition path_starts_with :: "string \<Rightarrow> string \<Rightarrow> bool" where
  "path_starts_with s base \<longleftrightarrow> take (length (components base)) (components s) = components base"

section \<open>Joining\<close>

definition path_join :: "string \<Rightarrow> string \<Rightarrow> string" where
  "path_join base rel =
     (if has_root rel then rel
      else if base \<noteq> [] \<and> last base \<noteq> CHR ''/'' then base @ ''/'' @ rel
      else base @ rel)"

section \<open>Parent\<close>

text \<open>Trailing separators and \<open>.\<close> components are not part of the last component; \<open>keep_dot\<close> is the
  leading \<open>.\<close> of a relative path.\<close>

fun drop_junk :: "bool \<Rightarrow> string list \<Rightarrow> string list" where
  "drop_junk keep_dot [] = []"
| "drop_junk keep_dot (p # ps) =
     (if p = [] \<or> (p = ''.'' \<and> (ps \<noteq> [] \<or> \<not> keep_dot)) then drop_junk keep_dot ps else p # ps)"

definition trim_tail :: "bool \<Rightarrow> string list \<Rightarrow> string list" where
  "trim_tail keep_dot ps = rev (drop_junk keep_dot (rev ps))"

definition path_parent :: "string \<Rightarrow> string option" where
  "path_parent s =
     (let abs = has_root s;
          ps = (if abs then split_on (CHR ''/'') (tl s) else split_on (CHR ''/'') s);
          qs = trim_tail (\<not> abs) ps
      in if qs = [] then None
         else let up = join ''/'' (trim_tail (\<not> abs) (butlast qs))
              in Some (if abs then CHR ''/'' # up else up))"

section \<open>Lemmas\<close>

lemma join_Cons: "join sep (x # xs) = x @ (if xs = [] then [] else sep @ join sep xs)"
  by (cases xs) simp_all

lemma join_split_on: "join [c] (split_on c s) = s"
proof (induction c s rule: split_on.induct)
  case (2 c x xs)
  then show ?case
    by (cases "split_on c xs") (auto simp: join_Cons)
qed simp

lemma join_append:
  "join sep (xs @ ys) = join sep xs @ (if xs = [] \<or> ys = [] then [] else sep) @ join sep ys"
  by (induction xs) (auto simp: join_Cons)

lemma drop_junk_suffix: "suffix (drop_junk k ps) ps"
  by (induction k ps rule: drop_junk.induct) (auto simp: suffix_ConsI)

lemma drop_junk_hd: "drop_junk k ps = p # qs \<Longrightarrow> p \<noteq> []"
  by (induction k ps rule: drop_junk.induct) (auto split: if_splits)

lemma trim_tail_prefix: "prefix (trim_tail k ps) ps"
  using drop_junk_suffix [of k "rev ps"] by (simp add: trim_tail_def suffix_to_prefix)

lemma trim_tail_last: "trim_tail k ps \<noteq> [] \<Longrightarrow> last (trim_tail k ps) \<noteq> []"
proof -
  assume "trim_tail k ps \<noteq> []"
  then obtain p qs where "drop_junk k (rev ps) = p # qs"
    by (cases "drop_junk k (rev ps)") (auto simp: trim_tail_def)
  then show ?thesis using drop_junk_hd [of k "rev ps" p qs] by (simp add: trim_tail_def)
qed

lemma join_prefix_length: "prefix xs ys \<Longrightarrow> length (join sep xs) \<le> length (join sep ys)"
  by (auto simp: prefix_def join_append)

lemma join_butlast_length:
  assumes "qs \<noteq> []" "last qs \<noteq> []"
  shows "length (join ''/'' (butlast qs)) < length (join ''/'' qs)"
proof -
  have "join ''/'' qs = join ''/'' (butlast qs @ [last qs])" using assms by simp
  then show ?thesis using assms(2) by (simp only: join_append) simp
qed

lemma path_parent_shorter: "path_parent s = Some p \<Longrightarrow> length p < length s"
proof -
  assume p: "path_parent s = Some p"
  define body where "body = (if has_root s then tl s else s)"
  define qs where "qs = trim_tail (\<not> has_root s) (split_on (CHR ''/'') body)"
  define up where "up = join ''/'' (trim_tail (\<not> has_root s) (butlast qs))"
  have qs: "qs \<noteq> []" and pe: "p = (if has_root s then CHR ''/'' # up else up)"
    using p by (auto simp: path_parent_def Let_def qs_def up_def body_def split: if_splits)
  have "length up \<le> length (join ''/'' (butlast qs))"
    unfolding up_def by (rule join_prefix_length [OF trim_tail_prefix])
  also have "\<dots> < length (join ''/'' qs)"
    using qs trim_tail_last unfolding qs_def by (intro join_butlast_length) blast+
  also have "\<dots> \<le> length (join ''/'' (split_on (CHR ''/'') body))"
    unfolding qs_def by (rule join_prefix_length [OF trim_tail_prefix])
  also have "\<dots> = length body" by (simp add: join_split_on)
  finally show ?thesis using pe by (cases s) (auto simp: body_def)
qed

lemma split_on_append: "split_on c (a @ c # b) = split_on c a @ split_on c b"
  by (induction c a rule: split_on.induct) (auto split: list.splits)

lemma split_on_pieces: "p \<in> set (split_on c s) \<Longrightarrow> c \<notin> set p"
  by (induction c s arbitrary: p rule: split_on.induct) (auto split: list.splits if_splits)

lemma split_on_join:
  "ps \<noteq> [] \<Longrightarrow> list_all (\<lambda>p. c \<notin> set p) ps \<Longrightarrow> split_on c (join [c] ps) = ps"
proof (induction ps rule: induct_list012)
  case (3 x y zs)
  then show ?case by (simp add: split_on_append split_on_no_sep)
qed (simp_all add: split_on_no_sep)

lemma filter_not_dropWhile: "filter (\<lambda>x. \<not> P x) (dropWhile P xs) = filter (\<lambda>x. \<not> P x) xs"
  by (induction xs) auto

lemma filter_drop_junk: "filter (\<lambda>p. \<not> junk_piece p) (drop_junk False ps) = filter (\<lambda>p. \<not> junk_piece p) ps"
  by (induction "False" ps rule: drop_junk.induct) auto

lemma filter_trim_tail: "filter (\<lambda>p. \<not> junk_piece p) (trim_tail False ps) = filter (\<lambda>p. \<not> junk_piece p) ps"
proof -
  have "filter (\<lambda>p. \<not> junk_piece p) (rev (drop_junk False (rev ps))) = rev (filter (\<lambda>p. \<not> junk_piece p) (drop_junk False (rev ps)))"
    by (simp add: rev_filter)
  then show ?thesis by (simp only: trim_tail_def filter_drop_junk) (simp add: rev_filter)
qed

lemma components_rooted:
  "components (CHR ''/'' # s) = RootDir # map piece_component (filter (\<lambda>p. \<not> junk_piece p) (split_on (CHR ''/'') s))"
  by (simp add: components_def Let_def)

lemma components_append:
  assumes "a \<noteq> []"
  shows "components (a @ CHR ''/'' # s) = components a @ map piece_component (filter (\<lambda>p. \<not> junk_piece p) (split_on (CHR ''/'') s))"
proof -
  have "has_root (a @ CHR ''/'' # s) = has_root a" using assms by (cases a) simp_all
  then show ?thesis by (simp add: components_def Let_def split_on_append)
qed

lemma components_snoc_slash: "a \<noteq> [] \<Longrightarrow> components (a @ ''/'') = components a"
  using components_append [of a "[]"] by simp

lemma components_path_join:
  assumes "base \<noteq> []" "\<not> has_root rel"
  shows "components (path_join base rel)
       = components base @ map piece_component (filter (\<lambda>p. \<not> junk_piece p) (split_on (CHR ''/'') rel))"
proof (cases "last base = CHR ''/''")
  case True
  then obtain b where b: "base = b @ ''/''" using assms(1) by (metis append_butlast_last_id)
  show ?thesis
  proof (cases "b = []")
    case True
    then show ?thesis using assms b by (simp add: path_join_def components_rooted)
  next
    case False
    then show ?thesis using assms b by (simp add: path_join_def components_append components_snoc_slash)
  qed
next
  case False
  then show ?thesis using assms by (simp add: path_join_def components_append)
qed

end
