(* ===== verification/Errors.thy ===== *)
theory Errors
  imports Prelude
begin

text \<open>
  The crate's error type (\<open>src/error.rs\<close>): \<open>ErrorKind\<close> with its display words, the spawn stages
  \<open>ChildStage\<close> with the one-byte tag that crosses the error pipe, \<open>SandboxError\<close> with its display,
  the conversions from IO and NUL errors, and the per-kind constructors.
\<close>

section \<open>Kinds\<close>

datatype ErrorKind =
    Platform | Namespace | Mount | Cgroup | Seccomp | Landlock | Resource | Network | Exec
  | Timeout | Config | Io | ChildGone | WouldDeadlock | Other

fun ErrorKind_fmt :: "ErrorKind \<Rightarrow> string" where
  "ErrorKind_fmt ErrorKind.Platform = ''platform''"
| "ErrorKind_fmt ErrorKind.Namespace = ''namespace''"
| "ErrorKind_fmt ErrorKind.Mount = ''mount''"
| "ErrorKind_fmt ErrorKind.Cgroup = ''cgroup''"
| "ErrorKind_fmt ErrorKind.Seccomp = ''seccomp''"
| "ErrorKind_fmt ErrorKind.Landlock = ''landlock''"
| "ErrorKind_fmt ErrorKind.Resource = ''resource''"
| "ErrorKind_fmt ErrorKind.Network = ''network''"
| "ErrorKind_fmt ErrorKind.Exec = ''exec''"
| "ErrorKind_fmt ErrorKind.Timeout = ''timeout''"
| "ErrorKind_fmt ErrorKind.Config = ''config''"
| "ErrorKind_fmt ErrorKind.Io = ''io''"
| "ErrorKind_fmt ErrorKind.ChildGone = ''child-gone''"
| "ErrorKind_fmt ErrorKind.WouldDeadlock = ''would-deadlock''"
| "ErrorKind_fmt ErrorKind.Other = ''other''"

section \<open>Spawn stages and their wire tag\<close>

datatype ChildStage =
  Startup | Fd | Dup2 | Sethostname | Mount | Chdir | Rlimit | Seccomp | Hook | Exec

text \<open>The \<open>#[repr(u8)]\<close> discriminant, written as \<open>stage as u8\<close> in the sources.\<close>

fun stage_tag :: "ChildStage \<Rightarrow> u8" where
  "stage_tag ChildStage.Startup = 0"
| "stage_tag ChildStage.Fd = 1"
| "stage_tag ChildStage.Dup2 = 2"
| "stage_tag ChildStage.Sethostname = 3"
| "stage_tag ChildStage.Mount = 4"
| "stage_tag ChildStage.Chdir = 5"
| "stage_tag ChildStage.Rlimit = 6"
| "stage_tag ChildStage.Seccomp = 7"
| "stage_tag ChildStage.Hook = 8"
| "stage_tag ChildStage.Exec = 9"

definition from_tag :: "u8 \<Rightarrow> ChildStage" where
  "from_tag tag =
     (if tag = stage_tag ChildStage.Fd then ChildStage.Fd
      else if tag = stage_tag ChildStage.Dup2 then ChildStage.Dup2
      else if tag = stage_tag ChildStage.Sethostname then ChildStage.Sethostname
      else if tag = stage_tag ChildStage.Mount then ChildStage.Mount
      else if tag = stage_tag ChildStage.Chdir then ChildStage.Chdir
      else if tag = stage_tag ChildStage.Rlimit then ChildStage.Rlimit
      else if tag = stage_tag ChildStage.Seccomp then ChildStage.Seccomp
      else if tag = stage_tag ChildStage.Hook then ChildStage.Hook
      else if tag = stage_tag ChildStage.Exec then ChildStage.Exec
      else ChildStage.Startup)"

fun ChildStage_fmt :: "ChildStage \<Rightarrow> string" where
  "ChildStage_fmt ChildStage.Startup = ''startup''"
| "ChildStage_fmt ChildStage.Fd = ''fd-setup''"
| "ChildStage_fmt ChildStage.Dup2 = ''dup2''"
| "ChildStage_fmt ChildStage.Sethostname = ''sethostname''"
| "ChildStage_fmt ChildStage.Mount = ''mount''"
| "ChildStage_fmt ChildStage.Chdir = ''chdir''"
| "ChildStage_fmt ChildStage.Rlimit = ''rlimit''"
| "ChildStage_fmt ChildStage.Seccomp = ''seccomp''"
| "ChildStage_fmt ChildStage.Hook = ''child-hook''"
| "ChildStage_fmt ChildStage.Exec = ''exec''"

lemma from_tag_stage_tag [simp]: "from_tag (stage_tag s) = s"
  by (cases s) (simp_all add: from_tag_def)

lemma from_tag_unknown: "9 < tag \<Longrightarrow> from_tag tag = ChildStage.Startup"
  by (auto simp: from_tag_def)

section \<open>The error type\<close>

record SandboxError =
  kind :: ErrorKind
  err_context :: string

type_synonym 'a result = "SandboxError + 'a"

definition SandboxError_new :: "ErrorKind \<Rightarrow> string \<Rightarrow> SandboxError" where
  "SandboxError_new knd ctx = \<lparr>kind = knd, err_context = ctx\<rparr>"

lemma SandboxError_new_simps [simp]:
  "kind (SandboxError_new knd ctx) = knd"
  "err_context (SandboxError_new knd ctx) = ctx"
  by (simp_all add: SandboxError_new_def)

text \<open>The derived display \<open>"{kind}: {context}"\<close>.\<close>

definition SandboxError_fmt :: "SandboxError \<Rightarrow> string" where
  "SandboxError_fmt e = ErrorKind_fmt (kind e) @ '': '' @ err_context e"

text \<open>\<open>From<io::Error>\<close> and \<open>From<NulError>\<close> keep the display of the converted error.\<close>

definition from_io_error :: "string \<Rightarrow> SandboxError" where
  "from_io_error display = SandboxError_new ErrorKind.Io display"

definition from_nul_error :: "string \<Rightarrow> SandboxError" where
  "from_nul_error display = SandboxError_new ErrorKind.Config display"

definition resource :: "string \<Rightarrow> string \<Rightarrow> SandboxError" where
  "resource limit reason =
     SandboxError_new ErrorKind.Resource
       (''limit '' @ [CHR 0x27] @ limit @ [CHR 0x27] @ '' cannot be enforced: '' @ reason)"

definition config :: "string \<Rightarrow> SandboxError" where
  "config msg = SandboxError_new ErrorKind.Config msg"

lemma error_kinds [simp]:
  "kind (from_io_error d) = ErrorKind.Io"
  "kind (from_nul_error d) = ErrorKind.Config"
  "kind (resource l r) = ErrorKind.Resource"
  "kind (config m) = ErrorKind.Config"
  by (simp_all add: from_io_error_def from_nul_error_def resource_def config_def)

text \<open>The display determines the kind: no display word is a prefix of another before the colon.\<close>

lemma ErrorKind_fmt_no_colon: "CHR '':'' \<notin> set (ErrorKind_fmt knd)"
  by (cases knd) simp_all

lemma ErrorKind_fmt_inj: "ErrorKind_fmt a = ErrorKind_fmt b \<Longrightarrow> a = b"
  by (cases a; cases b) simp_all

lemma SandboxError_fmt_inject:
  "SandboxError_fmt a = SandboxError_fmt b \<longleftrightarrow> kind a = kind b \<and> err_context a = err_context b"
proof
  assume eq: "SandboxError_fmt a = SandboxError_fmt b"
  have word: "takeWhile (\<lambda>c. c \<noteq> CHR '':'') (SandboxError_fmt e) = ErrorKind_fmt (kind e)" for e
    using ErrorKind_fmt_no_colon [of "kind e"]
    by (subst SandboxError_fmt_def, subst takeWhile_append2) auto
  have "ErrorKind_fmt (kind a) = ErrorKind_fmt (kind b)"
    using word [of a] word [of b] eq by simp
  then have "kind a = kind b" by (rule ErrorKind_fmt_inj)
  with eq show "kind a = kind b \<and> err_context a = err_context b"
    by (simp add: SandboxError_fmt_def)
qed (simp add: SandboxError_fmt_def)

end
