(* ===== verification/Seccomp_Bpf.thy ===== *)
theory Seccomp_Bpf
  imports Errors
begin

text \<open>
  The seccomp core: \<open>SeccompAction\<close> and \<open>Rule\<close> (\<open>src/seccomp/mod.rs\<close>), the classic-BPF compiler
  (\<open>src/seccomp/bpf.rs\<close>: \<open>compile_bpf\<close>, \<open>emit_sorted_jump_table\<close>, \<open>emit_table_node\<close>,
  \<open>patch_jump_offsets\<close>, \<open>patch_jump_node\<close>) and what the compiled program does on any machine that
  obeys the documented meaning of the five instructions it uses (locale \<open>cbpf_machine\<close>).
\<close>

unbundle bit_operations_syntax

section \<open>Constants of the kernel interface\<close>

text \<open>The values of the \<open>libc\<close> constants the compiler uses.\<close>

definition SECCOMP_RET_KILL_PROCESS :: u32 where "SECCOMP_RET_KILL_PROCESS = 0x80000000"
definition SECCOMP_RET_KILL_THREAD :: u32 where "SECCOMP_RET_KILL_THREAD = 0"
definition SECCOMP_RET_TRAP :: u32 where "SECCOMP_RET_TRAP = 0x00030000"
definition SECCOMP_RET_ERRNO :: u32 where "SECCOMP_RET_ERRNO = 0x00050000"
definition SECCOMP_RET_LOG :: u32 where "SECCOMP_RET_LOG = 0x7ffc0000"
definition SECCOMP_RET_ALLOW :: u32 where "SECCOMP_RET_ALLOW = 0x7fff0000"

lemmas seccomp_ret_defs =
  SECCOMP_RET_KILL_PROCESS_def SECCOMP_RET_KILL_THREAD_def SECCOMP_RET_TRAP_def
  SECCOMP_RET_ERRNO_def SECCOMP_RET_LOG_def SECCOMP_RET_ALLOW_def

text \<open>Opcodes: \<open>BPF_LD | BPF_W | BPF_ABS\<close>, \<open>BPF_JMP | BPF_JEQ | BPF_K\<close>, \<open>BPF_JMP\<close> (that is
  \<open>BPF_JMP | BPF_JA\<close>) and \<open>BPF_RET\<close>.\<close>

definition OP_LD_ABS :: u16 where "OP_LD_ABS = 0x00 OR 0x00 OR 0x20"
definition OP_JEQ_K :: u16 where "OP_JEQ_K = 0x05 OR 0x10 OR 0x00"
definition OP_JA :: u16 where "OP_JA = 0x05"
definition OP_RET :: u16 where "OP_RET = 0x06"
definition BPF_MAXINSNS :: nat where "BPF_MAXINSNS = 4096"

lemmas opcode_defs = OP_LD_ABS_def OP_JEQ_K_def OP_JA_def OP_RET_def

section \<open>Actions and rules\<close>

datatype SeccompAction = KillProcess | KillThread | Trap | Errno u16 | Log | Allow

fun to_bpf_ret :: "SeccompAction \<Rightarrow> u32" where
  "to_bpf_ret KillProcess = SECCOMP_RET_KILL_PROCESS"
| "to_bpf_ret KillThread = SECCOMP_RET_KILL_THREAD"
| "to_bpf_ret Trap = SECCOMP_RET_TRAP"
| "to_bpf_ret (Errno e) = SECCOMP_RET_ERRNO OR ucast e"
| "to_bpf_ret Log = SECCOMP_RET_LOG"
| "to_bpf_ret Allow = SECCOMP_RET_ALLOW"

record Rule =
  syscall_nr :: i32
  action :: u32

section \<open>The compiler\<close>

record sock_filter =
  bpf_code :: u16
  bpf_jt :: u8
  bpf_jf :: u8
  bpf_k :: u32

definition BPF_STMT :: "u16 \<Rightarrow> u32 \<Rightarrow> sock_filter" where
  "BPF_STMT c v = \<lparr>bpf_code = c, bpf_jt = 0, bpf_jf = 0, bpf_k = v\<rparr>"

definition BPF_JUMP :: "u16 \<Rightarrow> u32 \<Rightarrow> u8 \<Rightarrow> u8 \<Rightarrow> sock_filter" where
  "BPF_JUMP c v t f = \<lparr>bpf_code = c, bpf_jt = t, bpf_jf = f, bpf_k = v\<rparr>"

text \<open>Jump-table nodes in in-order traversal; \<open>jt\<close> is a placeholder.\<close>

function emit_table_node :: "sock_filter list \<Rightarrow> Rule list \<Rightarrow> nat \<Rightarrow> nat \<Rightarrow> sock_filter list" where
  "emit_table_node prog rules lo hi =
     (if lo \<ge> hi then prog
      else
        let mid = lo + (hi - lo) div 2;
            nr = syscall_nr (rules ! mid);
            prog = emit_table_node prog rules lo mid;
            prog = prog @ [BPF_JUMP OP_JEQ_K nr 0 0]
        in emit_table_node prog rules (mid + 1) hi)"
  by pat_completeness auto
termination
  by (relation "measure (\<lambda>(_, _, lo, hi). hi - lo)") auto

declare emit_table_node.simps [simp del]

text \<open>Second traversal: fill in \<open>jt\<close>. The node counter is threaded as in the source; an offset
  that does not fit in a byte is an error.\<close>

function patch_jump_node ::
  "sock_filter list \<Rightarrow> nat \<Rightarrow> nat \<Rightarrow> Rule list \<Rightarrow> nat \<Rightarrow> nat \<Rightarrow> nat \<Rightarrow> (sock_filter list \<times> nat) result" where
  "patch_jump_node prog table_start ret_start rules lo hi node_idx =
     (if lo \<ge> hi then Inr (prog, node_idx)
      else
        let mid = lo + (hi - lo) div 2
        in case patch_jump_node prog table_start ret_start rules lo mid node_idx of
             Inl e \<Rightarrow> Inl e
           | Inr (prog, node_idx) \<Rightarrow>
               let jump_abs = table_start + node_idx;
                   ret_abs = ret_start + mid;
                   jt = ret_abs - jump_abs - 1
               in if jt > 255
                  then Inl (SandboxError_new ErrorKind.Seccomp
                         (''filter build failed: BPF jump offset overflow: '' @ show_nat jt @ '' > 255 (''
                            @ show_nat (length rules) @ '' rules) '' @ [CHR 0xE2, CHR 0x80, CHR 0x94] @ '' reduce the number of syscall rules''))
                  else
                    let prog = prog [jump_abs := (prog ! jump_abs)\<lparr>bpf_jt := of_nat jt\<rparr>]
                    in patch_jump_node prog table_start ret_start rules (mid + 1) hi (node_idx + 1))"
  by pat_completeness auto
termination
  by (relation "measure (\<lambda>(_, _, _, _, lo, hi, _). hi - lo)") auto

declare patch_jump_node.simps [simp del]

definition patch_jump_offsets ::
  "sock_filter list \<Rightarrow> nat \<Rightarrow> nat \<Rightarrow> Rule list \<Rightarrow> sock_filter list result" where
  "patch_jump_offsets prog table_start ret_start rules =
     map_sum id fst (patch_jump_node prog table_start ret_start rules 0 (length rules) 0)"

definition emit_sorted_jump_table ::
  "sock_filter list \<Rightarrow> Rule list \<Rightarrow> u32 \<Rightarrow> sock_filter list result" where
  "emit_sorted_jump_table prog rules default_ret =
     (let n = length rules;
          table_start = length prog;
          prog = emit_table_node prog rules 0 n;
          ja_idx = length prog;
          prog = prog @ [BPF_STMT OP_JA 0];
          ret_start = length prog;
          prog = foldl (\<lambda>prog rule. prog @ [BPF_STMT OP_RET (action rule)]) prog rules;
          default_idx = length prog;
          prog = prog @ [BPF_STMT OP_RET default_ret];
          prog = prog [ja_idx := (prog ! ja_idx)\<lparr>bpf_k := of_nat (default_idx - ja_idx - 1)\<rparr>]
      in patch_jump_offsets prog table_start ret_start rules)"

text \<open>\<open>AUDIT_ARCH\<close> is chosen by the target architecture at compile time.\<close>

datatype arch = X86_64 | Aarch64

fun AUDIT_ARCH :: "arch \<Rightarrow> u32" where
  "AUDIT_ARCH X86_64 = 0xC000003E"
| "AUDIT_ARCH Aarch64 = 0xC00000B7"

definition compile_bpf :: "arch \<Rightarrow> SeccompAction \<Rightarrow> Rule list \<Rightarrow> sock_filter list result" where
  "compile_bpf target default_action sorted_rules =
     (let default_ret = to_bpf_ret default_action;
          kill_ret = to_bpf_ret KillProcess;
          prog = [];
          prog = prog @ [BPF_STMT OP_LD_ABS 4];
          prog = prog @ [BPF_JUMP OP_JEQ_K (AUDIT_ARCH target) 1 0];
          prog = prog @ [BPF_STMT OP_RET kill_ret];
          prog = prog @ [BPF_STMT OP_LD_ABS 0]
      in case (if sorted_rules \<noteq> [] then emit_sorted_jump_table prog sorted_rules default_ret
               else Inr (prog @ [BPF_STMT OP_RET default_ret])) of
           Inl e \<Rightarrow> Inl e
         | Inr prog \<Rightarrow>
             if length prog > BPF_MAXINSNS
             then Inl (SandboxError_new ErrorKind.Seccomp
                    (''filter build failed: BPF program too large: '' @ show_nat (length prog)
                       @ '' instructions (kernel limit: '' @ show_nat BPF_MAXINSNS @ '')''))
             else Inr prog)"


section \<open>The compiled filter\<close>

text \<open>\<open>SeccompFilter\<close> and its field-by-field equality (\<open>src/seccomp/filter.rs\<close>).\<close>

record SeccompFilter =
  f_default_action :: SeccompAction
  f_program :: "sock_filter list"
  f_rule_count :: nat

definition SeccompFilter_eq :: "SeccompFilter \<Rightarrow> SeccompFilter \<Rightarrow> bool" where
  "SeccompFilter_eq f g \<longleftrightarrow>
     f_default_action f = f_default_action g \<and> f_rule_count f = f_rule_count g
     \<and> length (f_program f) = length (f_program g)
     \<and> list_all (\<lambda>(a, b). bpf_code a = bpf_code b \<and> bpf_jt a = bpf_jt b \<and> bpf_jf a = bpf_jf b
                          \<and> bpf_k a = bpf_k b)
         (zip (f_program f) (f_program g))"

definition program_len :: "SeccompFilter \<Rightarrow> nat" where
  "program_len f = length (f_program f)"

section \<open>Closed forms\<close>

text \<open>What the two traversals amount to: the nodes come out in index order, and every jump gets the
  same offset, the number of rules.\<close>

abbreviation jeq_node :: "Rule \<Rightarrow> u8 \<Rightarrow> sock_filter" where
  "jeq_node r t \<equiv> BPF_JUMP OP_JEQ_K (syscall_nr r) t 0"

lemma upt_split_at: "lo \<le> mid \<Longrightarrow> mid < hi \<Longrightarrow> [lo..<hi] = [lo..<mid] @ mid # [mid + 1..<hi]"
  by (metis Suc_eq_plus1 le_Suc_ex less_imp_le_nat upt_add_eq_append upt_conv_Cons)

lemma emit_table_node_eq:
  "emit_table_node prog rules lo hi = prog @ map (\<lambda>i. jeq_node (rules ! i) 0) [lo..<hi]"
proof (induction prog rules lo hi rule: emit_table_node.induct)
  case (1 prog rules lo hi)
  show ?case
  proof (cases "lo \<ge> hi")
    case True
    then show ?thesis by (simp add: emit_table_node.simps)
  next
    case False
    define mid where "mid = lo + (hi - lo) div 2"
    have range: "lo \<le> mid" "mid < hi" using False by (auto simp: mid_def)
    show ?thesis
      using 1 [OF False mid_def refl] False
      by (subst emit_table_node.simps) (simp add: Let_def upt_split_at [OF range] flip: mid_def)
  qed
qed

definition set_jts :: "u8 \<Rightarrow> nat \<Rightarrow> nat \<Rightarrow> sock_filter list \<Rightarrow> sock_filter list" where
  "set_jts d a b prog =
     map (\<lambda>i. if a \<le> i \<and> i < b then (prog ! i)\<lparr>bpf_jt := d\<rparr> else prog ! i) [0..<length prog]"

lemma length_set_jts [simp]: "length (set_jts d a b prog) = length prog"
  by (simp add: set_jts_def)

lemma nth_set_jts:
  "i < length prog \<Longrightarrow>
   set_jts d a b prog ! i = (if a \<le> i \<and> i < b then (prog ! i)\<lparr>bpf_jt := d\<rparr> else prog ! i)"
  by (simp add: set_jts_def)

lemma set_jts_empty [simp]: "b \<le> a \<Longrightarrow> set_jts d a b prog = prog"
  by (rule nth_equalityI) (auto simp: nth_set_jts)

lemma set_jts_step:
  assumes "a \<le> m" "m < b" "b \<le> length prog"
  shows "set_jts d (Suc m) b ((set_jts d a m prog) [m := (set_jts d a m prog ! m)\<lparr>bpf_jt := d\<rparr>])
         = set_jts d a b prog"
  using assms by (intro nth_equalityI) (auto simp: nth_set_jts nth_list_update)

abbreviation overflow_error :: "nat \<Rightarrow> nat \<Rightarrow> SandboxError" where
  "overflow_error jt n \<equiv>
     SandboxError_new ErrorKind.Seccomp
       (''filter build failed: BPF jump offset overflow: '' @ show_nat jt @ '' > 255 (''
          @ show_nat n @ '' rules) '' @ [CHR 0xE2, CHR 0x80, CHR 0x94] @ '' reduce the number of syscall rules'')"

lemma patch_jump_node_eq:
  assumes "table_start < ret_start" "table_start + hi \<le> length prog" "lo \<le> hi" "node_idx = lo"
    and d: "d = ret_start - table_start - 1"
  shows "patch_jump_node prog table_start ret_start rules lo hi node_idx =
     (if lo \<ge> hi then Inr (prog, lo)
      else if d > 255 then Inl (overflow_error d (length rules))
      else Inr (set_jts (of_nat d) (table_start + lo) (table_start + hi) prog, hi))"
  using assms
proof (induction prog table_start ret_start rules lo hi node_idx rule: patch_jump_node.induct)
  case (1 prog ts rs rules lo hi node_idx)
  show ?case
  proof (cases "lo \<ge> hi")
    case True
    with 1 show ?thesis by (simp add: patch_jump_node.simps)
  next
    case False
    define mid where "mid = lo + (hi - lo) div 2"
    have range: "lo \<le> mid" "mid < hi" using False by (auto simp: mid_def)
    have jt: "rs + mid - (ts + mid) - 1 = d" using "1.prems" by simp
    have left: "patch_jump_node prog ts rs rules lo mid lo =
       (if lo \<ge> mid then Inr (prog, lo)
        else if d > 255 then Inl (overflow_error d (length rules))
        else Inr (set_jts (of_nat d) (ts + lo) (ts + mid) prog, mid))"
      using "1.IH"(1) [OF False mid_def] "1.prems" range by simp
    show ?thesis
    proof (cases "d > 255")
      case True
      then show ?thesis
        using False left jt range "1.prems"(4)
        by (subst patch_jump_node.simps) (auto simp: Let_def simp flip: mid_def)
    next
      case small: False
      let ?p = "set_jts (of_nat d) (ts + lo) (ts + mid) prog"
      let ?q = "?p [ts + mid := (?p ! (ts + mid))\<lparr>bpf_jt := of_nat d\<rparr>]"
      have l: "patch_jump_node prog ts rs rules lo mid lo = Inr (?p, mid)"
        using left small range by (cases "lo = mid") simp_all
      have l': "patch_jump_node prog ts rs rules lo mid node_idx = Inr (?p, mid)"
        using l "1.prems"(4) by simp
      have jt': "\<not> 255 < rs + mid - (ts + mid) - 1" using jt small by simp
      have right: "patch_jump_node ?q ts rs rules (mid + 1) hi (mid + 1) =
         (if mid + 1 \<ge> hi then Inr (?q, mid + 1)
          else Inr (set_jts (of_nat d) (ts + (mid + 1)) (ts + hi) ?q, hi))"
        using "1.IH"(2) [OF False mid_def l' refl refl refl refl jt' refl]
          "1.prems" range small jt by (simp add: mid_def)
      have "set_jts (of_nat d) (ts + (mid + 1)) (ts + hi) ?q = set_jts (of_nat d) (ts + lo) (ts + hi) prog"
        using set_jts_step [of "ts + lo" "ts + mid" "ts + hi" prog] range "1.prems" by simp
      moreover have "mid + 1 = hi" if "mid + 1 \<ge> hi" using that range by simp
      ultimately have "patch_jump_node ?q ts rs rules (mid + 1) hi (mid + 1) =
         Inr (set_jts (of_nat d) (ts + lo) (ts + hi) prog, hi)"
        using right by (cases "mid + 1 = hi") auto
      then show ?thesis
        using False l jt small "1.prems"(4)
        by (subst patch_jump_node.simps) (simp add: Let_def flip: mid_def)
    qed
  qed
qed

text \<open>The program as one list: the four header instructions, one test per rule with the number of
  rules as jump distance, the jump over the returns, the returns, the default.\<close>

definition bpf_header :: "arch \<Rightarrow> sock_filter list" where
  "bpf_header target =
     [BPF_STMT OP_LD_ABS 4, BPF_JUMP OP_JEQ_K (AUDIT_ARCH target) 1 0,
      BPF_STMT OP_RET (to_bpf_ret KillProcess), BPF_STMT OP_LD_ABS 0]"

definition bpf_program :: "arch \<Rightarrow> SeccompAction \<Rightarrow> Rule list \<Rightarrow> sock_filter list" where
  "bpf_program target default_action rules =
     bpf_header target @
     (if rules = [] then []
      else map (\<lambda>r. jeq_node r (of_nat (length rules))) rules
           @ [BPF_STMT OP_JA (of_nat (length rules))]
           @ map (\<lambda>r. BPF_STMT OP_RET (action r)) rules)
     @ [BPF_STMT OP_RET (to_bpf_ret default_action)]"

lemma length_bpf_header [simp]: "length (bpf_header target) = 4"
  by (simp add: bpf_header_def)

lemma length_bpf_program:
  "length (bpf_program target da rules) = (if rules = [] then 5 else 2 * length rules + 6)"
  by (simp add: bpf_program_def)

lemma foldl_snoc_map: "foldl (\<lambda>p r. p @ [f r]) p rs = p @ map f rs"
  by (induction rs arbitrary: p) simp_all

lemma set_jts_middle:
  assumes "\<And>r. r \<in> set rs \<Longrightarrow> (g r)\<lparr>bpf_jt := d\<rparr> = f r"
  shows "set_jts d (length pre) (length pre + length rs) (pre @ map g rs @ post)
         = pre @ map f rs @ post"
  using assms by (intro nth_equalityI) (auto simp: nth_set_jts nth_append)

lemma emit_sorted_jump_table_eq:
  assumes "rules \<noteq> []"
  shows "emit_sorted_jump_table prog rules default_ret =
     (if length rules > 255 then Inl (overflow_error (length rules) (length rules))
      else Inr (prog @ map (\<lambda>r. jeq_node r (of_nat (length rules))) rules
                @ [BPF_STMT OP_JA (of_nat (length rules))]
                @ map (\<lambda>r. BPF_STMT OP_RET (action r)) rules @ [BPF_STMT OP_RET default_ret]))"
proof -
  let ?n = "length rules"
  let ?tail = "BPF_STMT OP_JA (of_nat ?n) # map (\<lambda>r. BPF_STMT OP_RET (action r)) rules @ [BPF_STMT OP_RET default_ret]"
  let ?full = "prog @ map (\<lambda>r. jeq_node r 0) rules @ ?tail"
  have nodes: "map (\<lambda>i. jeq_node (rules ! i) 0) [0..<?n] = map (\<lambda>r. jeq_node r 0) rules"
    by (rule nth_equalityI) simp_all
  have "emit_sorted_jump_table prog rules default_ret =
     patch_jump_offsets ?full (length prog) (length prog + ?n + 1) rules"
    by (simp add: emit_sorted_jump_table_def emit_table_node_eq foldl_snoc_map nodes Let_def
        list_update_append nth_append BPF_STMT_def)
  also have "\<dots> = map_sum id fst (if ?n > 255 then Inl (overflow_error ?n ?n)
     else Inr (set_jts (of_nat ?n) (length prog) (length prog + ?n) ?full, ?n))"
    using assms unfolding patch_jump_offsets_def
    by (subst patch_jump_node_eq [where d = ?n]) simp_all
  also have "set_jts (of_nat ?n) (length prog) (length prog + ?n) ?full =
     prog @ map (\<lambda>r. jeq_node r (of_nat ?n)) rules @ ?tail"
    by (rule set_jts_middle) (simp add: BPF_JUMP_def)
  finally show ?thesis by simp
qed

lemma compile_bpf_eq:
  "compile_bpf target da rules =
     (if length rules > 255 then Inl (overflow_error (length rules) (length rules))
      else Inr (bpf_program target da rules))"
  using length_bpf_program [of target da rules]
  by (auto simp: compile_bpf_def emit_sorted_jump_table_eq Let_def bpf_program_def bpf_header_def
      BPF_MAXINSNS_def)

section \<open>What the program computes\<close>

text \<open>The two fields of \<open>struct seccomp_data\<close> that the program reads.\<close>

record seccomp_data =
  sd_nr :: u32
  sd_arch :: u32

text \<open>
  The kernel's classic-BPF machine is not part of the crate. The compiler relies on the documented
  meaning of its instructions: \<open>exec p d pc a\<close> is the value returned by program \<open>p\<close> on the system
  call \<open>d\<close> when instruction \<open>pc\<close> is next and the accumulator holds \<open>a\<close>.
\<close>

locale cbpf_machine =
  fixes exec :: "sock_filter list \<Rightarrow> seccomp_data \<Rightarrow> nat \<Rightarrow> u32 \<Rightarrow> u32 option"
  assumes ld_nr: "pc < length p \<Longrightarrow> bpf_code (p ! pc) = OP_LD_ABS \<Longrightarrow> bpf_k (p ! pc) = 0 \<Longrightarrow>
      exec p d pc a = exec p d (pc + 1) (sd_nr d)"
    and ld_arch: "pc < length p \<Longrightarrow> bpf_code (p ! pc) = OP_LD_ABS \<Longrightarrow> bpf_k (p ! pc) = 4 \<Longrightarrow>
      exec p d pc a = exec p d (pc + 1) (sd_arch d)"
    and jeq: "pc < length p \<Longrightarrow> bpf_code (p ! pc) = OP_JEQ_K \<Longrightarrow>
      exec p d pc a = exec p d (pc + 1 + unat (if a = bpf_k (p ! pc) then bpf_jt (p ! pc) else bpf_jf (p ! pc))) a"
    and ja: "pc < length p \<Longrightarrow> bpf_code (p ! pc) = OP_JA \<Longrightarrow>
      exec p d pc a = exec p d (pc + 1 + unat (bpf_k (p ! pc))) a"
    and ret: "pc < length p \<Longrightarrow> bpf_code (p ! pc) = OP_RET \<Longrightarrow> exec p d pc a = Some (bpf_k (p ! pc))"
begin

text \<open>Scanning the jump table from rule \<open>i\<close> on: the first rule with the number in the
  accumulator decides, and without one the default does.\<close>

lemma exec_table:
  assumes n: "length rules \<le> 255" and p: "p = bpf_program target da rules" and "i \<le> length rules" and "rules \<noteq> []"
  shows "exec p d (4 + i) a =
     Some (case find (\<lambda>r. syscall_nr r = a) (drop i rules) of
             Some r \<Rightarrow> action r | None \<Rightarrow> to_bpf_ret da)"
  using \<open>i \<le> length rules\<close>
proof (induction "length rules - i" arbitrary: i)
  case 0
  then have i: "i = length rules" by simp
  have un: "unat (of_nat (length rules) :: u32) = length rules"
    using n by (simp add: unat_of_nat take_bit_eq_mod)
  have "p ! (4 + i) = BPF_STMT OP_JA (of_nat (length rules))"
    using \<open>rules \<noteq> []\<close> by (simp add: p i bpf_program_def nth_append)
  moreover have "p ! (4 + i + 1 + length rules) = BPF_STMT OP_RET (to_bpf_ret da)"
    using \<open>rules \<noteq> []\<close> by (simp add: p i bpf_program_def nth_append)
  moreover have "4 + i + 1 + length rules < length p" "4 + i < length p"
    using \<open>rules \<noteq> []\<close> by (simp_all add: p i length_bpf_program)
  ultimately show ?case
    using ja [of "4 + i" p d a] ret [of "4 + i + 1 + length rules" p d a]
    by (simp add: i BPF_STMT_def un)
next
  case (Suc x)
  then have i: "i < length rules" and x: "x = length rules - (i + 1)" by simp_all
  have un: "unat (of_nat (length rules) :: u8) = length rules"
    using n by (simp add: unat_of_nat take_bit_eq_mod)
  have node: "p ! (4 + i) = jeq_node (rules ! i) (of_nat (length rules))"
    using \<open>rules \<noteq> []\<close> i by (simp add: p bpf_program_def nth_append)
  have "length p = 2 * length rules + 6"
    using \<open>rules \<noteq> []\<close> by (simp add: p length_bpf_program)
  then have len: "4 + i < length p" "4 + i + 1 + length rules < length p"
    using i by simp_all
  have rt: "p ! (4 + i + 1 + length rules) = BPF_STMT OP_RET (action (rules ! i))"
    using \<open>rules \<noteq> []\<close> i by (simp add: p bpf_program_def nth_append)
  show ?case
  proof (cases "syscall_nr (rules ! i) = a")
    case True
    then show ?thesis
      using jeq [OF len(1), of d a] ret [OF len(2), of d a] node rt i
      by (simp add: BPF_JUMP_def BPF_STMT_def un flip: Cons_nth_drop_Suc)
  next
    case False
    then show ?thesis
      using jeq [OF len(1), of d a] node i Suc.hyps(1) [OF x] False
      by (simp add: BPF_JUMP_def flip: Cons_nth_drop_Suc)
  qed
qed

lemma exec_program:
  assumes "length rules \<le> 255"
  shows "exec (bpf_program target da rules) d 0 a =
     Some (if sd_arch d = AUDIT_ARCH target
           then case find (\<lambda>r. syscall_nr r = sd_nr d) rules of
                  Some r \<Rightarrow> action r | None \<Rightarrow> to_bpf_ret da
           else to_bpf_ret KillProcess)"
proof -
  let ?p = "bpf_program target da rules"
  have len: "4 < length ?p" "?p \<noteq> []" by (simp_all add: length_bpf_program bpf_program_def)
  have hdr: "?p ! 0 = BPF_STMT OP_LD_ABS 4" "?p ! Suc 0 = BPF_JUMP OP_JEQ_K (AUDIT_ARCH target) 1 0"
    "?p ! 2 = BPF_STMT OP_RET (to_bpf_ret KillProcess)" "?p ! 3 = BPF_STMT OP_LD_ABS 0"
    by (simp_all add: bpf_program_def bpf_header_def numeral_2_eq_2 numeral_3_eq_3)
  have body: "exec ?p d 4 (sd_nr d) =
     Some (case find (\<lambda>r. syscall_nr r = sd_nr d) rules of
             Some r \<Rightarrow> action r | None \<Rightarrow> to_bpf_ret da)"
  proof (cases "rules = []")
    case True
    then show ?thesis
      using ret [of 4 ?p d "sd_nr d"] len
      by (simp add: bpf_program_def nth_append BPF_STMT_def)
  next
    case False
    then show ?thesis using exec_table [OF assms refl, of 0 target da d "sd_nr d"] by simp
  qed
  show ?thesis
    using ld_arch [of 0 ?p d a] jeq [of "Suc 0" ?p d "sd_arch d"] ret [of 2 ?p d "sd_arch d"]
      ld_nr [of 3 ?p d "sd_arch d"] len body hdr
    by (cases "sd_arch d = AUDIT_ARCH target") (simp_all add: BPF_STMT_def BPF_JUMP_def eval_nat_numeral)
qed

end

section \<open>A concrete machine\<close>

text \<open>The seccomp subset of the classic-BPF interpreter: absolute loads at the two offsets of
  \<open>seccomp_data\<close> the compiler uses, equality tests, forward jumps and returns. Any other
  instruction, and running off the end, has no result.\<close>

function cbpf_exec :: "sock_filter list \<Rightarrow> seccomp_data \<Rightarrow> nat \<Rightarrow> u32 \<Rightarrow> u32 option" where
  "cbpf_exec p d pc a =
     (if pc \<ge> length p then None
      else let i = p ! pc in
        if bpf_code i = OP_LD_ABS then
          (if bpf_k i = 0 then cbpf_exec p d (pc + 1) (sd_nr d)
           else if bpf_k i = 4 then cbpf_exec p d (pc + 1) (sd_arch d) else None)
        else if bpf_code i = OP_JEQ_K then
          cbpf_exec p d (pc + 1 + unat (if a = bpf_k i then bpf_jt i else bpf_jf i)) a
        else if bpf_code i = OP_JA then cbpf_exec p d (pc + 1 + unat (bpf_k i)) a
        else if bpf_code i = OP_RET then Some (bpf_k i) else None)"
  by pat_completeness auto
termination
  by (relation "measure (\<lambda>(p, d, pc, a). length p - pc)") auto

declare cbpf_exec.simps [simp del]

interpretation linux: cbpf_machine cbpf_exec
  by unfold_locales
    (subst cbpf_exec.simps; simp add: opcode_defs Let_def)+

section \<open>Shape of the program\<close>

text \<open>Every jump of a program lands inside it, which the kernel's checker demands before it
  accepts a filter; there is no backward jump in classic BPF.\<close>

definition jumps_in_bounds :: "sock_filter list \<Rightarrow> bool" where
  "jumps_in_bounds p \<longleftrightarrow>
     (\<forall>pc \<in> set [0..<length p].
        (bpf_code (p ! pc) = OP_JEQ_K \<longrightarrow>
           pc + 1 + unat (bpf_jt (p ! pc)) < length p \<and> pc + 1 + unat (bpf_jf (p ! pc)) < length p) \<and>
        (bpf_code (p ! pc) = OP_JA \<longrightarrow> pc + 1 + unat (bpf_k (p ! pc)) < length p))"

definition ends_in_ret :: "sock_filter list \<Rightarrow> bool" where
  "ends_in_ret p \<longleftrightarrow> p \<noteq> [] \<and> bpf_code (last p) = OP_RET"

lemma jeq_in_program:
  assumes "rules \<noteq> []" "i < length rules"
  shows "bpf_program target da rules ! (4 + i) = jeq_node (rules ! i) (of_nat (length rules))"
  using assms by (simp add: bpf_program_def nth_append)

lemma program_at:
  assumes "pc < length (bpf_program target da rules)"
  shows "pc < 4 \<and> bpf_program target da rules ! pc = bpf_header target ! pc
    \<or> (\<exists>i < length rules. pc = 4 + i
          \<and> bpf_program target da rules ! pc = jeq_node (rules ! i) (of_nat (length rules)))
    \<or> (rules \<noteq> [] \<and> pc = 4 + length rules
          \<and> bpf_program target da rules ! pc = BPF_STMT OP_JA (of_nat (length rules)))
    \<or> bpf_code (bpf_program target da rules ! pc) = OP_RET"
proof (cases "rules = []")
  case True
  with assms show ?thesis
    by (auto simp: bpf_program_def nth_append BPF_STMT_def not_less)
next
  case False
  then have len: "pc < 2 * length rules + 6" using assms by (simp add: length_bpf_program)
  have "pc < 4 \<or> (pc - 4 < length rules \<and> pc = 4 + (pc - 4)) \<or> pc = 4 + length rules
    \<or> (pc - (5 + length rules) < length rules \<and> pc = 5 + length rules + (pc - (5 + length rules)))
    \<or> pc = 5 + 2 * length rules"
    using len by arith
  then consider "pc < 4" | i where "i < length rules" "pc = 4 + i" | "pc = 4 + length rules"
    | i where "i < length rules" "pc = 5 + length rules + i" | "pc = 5 + 2 * length rules"
    by blast
  then show ?thesis
    using False by cases (auto simp: bpf_program_def nth_append BPF_STMT_def)
qed

lemma header_jumps:
  assumes "pc < 4"
  shows "bpf_header target ! pc \<in> {BPF_STMT OP_LD_ABS 4, BPF_STMT OP_LD_ABS 0, BPF_STMT OP_RET (to_bpf_ret KillProcess)}
    \<or> pc = 1 \<and> bpf_header target ! pc = BPF_JUMP OP_JEQ_K (AUDIT_ARCH target) 1 0"
proof -
  have "pc \<in> {0, 1, 2, 3}" using assms by auto
  then show ?thesis by (auto simp: bpf_header_def)
qed

lemma bpf_program_jumps:
  assumes n: "length rules \<le> 255"
  shows "jumps_in_bounds (bpf_program target da rules)"
proof -
  let ?p = "bpf_program target da rules" and ?n = "length rules"
  have un: "unat (of_nat ?n :: u8) = ?n" "unat (of_nat ?n :: u32) = ?n"
    using n by (simp_all add: unat_of_nat take_bit_eq_mod)
  have "(bpf_code (?p ! pc) = OP_JEQ_K \<longrightarrow>
           pc + 1 + unat (bpf_jt (?p ! pc)) < length ?p \<and> pc + 1 + unat (bpf_jf (?p ! pc)) < length ?p) \<and>
        (bpf_code (?p ! pc) = OP_JA \<longrightarrow> pc + 1 + unat (bpf_k (?p ! pc)) < length ?p)"
    if "pc < length ?p" for pc
    using program_at [OF that] length_bpf_program [of target da rules]
  proof (elim disjE)
    assume "pc < 4 \<and> ?p ! pc = bpf_header target ! pc"
    then show ?thesis
      using header_jumps [of pc target] length_bpf_program [of target da rules]
      by (auto simp: BPF_STMT_def BPF_JUMP_def opcode_defs split: if_splits)
  qed (auto simp: BPF_STMT_def BPF_JUMP_def opcode_defs un split: if_splits)
  then show ?thesis by (simp add: jumps_in_bounds_def)
qed

lemma bpf_program_ends_in_ret: "ends_in_ret (bpf_program target da rules)"
  by (simp add: ends_in_ret_def bpf_program_def BPF_STMT_def)

text \<open>Different actions have different return values: the action word survives \<open>to_bpf_ret\<close>.\<close>

lemma errno_ret_high: "drop_bit 16 (SECCOMP_RET_ERRNO OR ucast (e :: u16)) = (5 :: u32)"
proof -
  have "drop_bit 16 (ucast e :: u32) = 0"
    by (rule bit_eqI) (auto simp: bit_simps dest: bit_imp_le_length)
  then show ?thesis by (simp add: SECCOMP_RET_ERRNO_def drop_bit_or)
qed

lemma errno_ret_low: "ucast (SECCOMP_RET_ERRNO OR ucast (e :: u16) :: u32) = e"
proof -
  have "ucast (ucast e :: u32) = e" by (rule bit_word_eqI) (simp add: bit_simps)
  moreover have "ucast SECCOMP_RET_ERRNO = (0 :: u16)"
    by (simp add: SECCOMP_RET_ERRNO_def)
  ultimately show ?thesis by (simp only: unsigned_or_eq or.left_neutral)
qed

lemma to_bpf_ret_high:
  "drop_bit 16 (to_bpf_ret a) =
     (case a of KillProcess \<Rightarrow> 0x8000 | KillThread \<Rightarrow> 0 | Trap \<Rightarrow> 3 | Errno _ \<Rightarrow> 5
      | Log \<Rightarrow> 0x7ffc | Allow \<Rightarrow> 0x7fff)"
proof (cases a)
  case (Errno e)
  then show ?thesis using errno_ret_high [of e] by (simp only: to_bpf_ret.simps) simp
qed (simp_all add: seccomp_ret_defs)

lemma to_bpf_ret_inj: "to_bpf_ret a = to_bpf_ret b \<longleftrightarrow> a = b"
proof
  assume eq: "to_bpf_ret a = to_bpf_ret b"
  have high: "drop_bit 16 (to_bpf_ret a) = drop_bit 16 (to_bpf_ret b)" by (simp only: eq)
  show "a = b"
  proof (cases "\<exists>e e'. a = Errno e \<and> b = Errno e'")
    case True
    then show ?thesis using eq errno_ret_low by (metis to_bpf_ret.simps(4))
  next
    case False
    with high show ?thesis unfolding to_bpf_ret_high by (auto split: SeccompAction.splits)
  qed
qed simp

text \<open>The hand-written equality of filters is equality.\<close>

lemma list_all_zip_eq:
  "length xs = length ys \<Longrightarrow> list_all (\<lambda>(a, b). a = b) (zip xs ys) \<longleftrightarrow> xs = ys"
  by (induction xs ys rule: list_induct2) auto

lemma SeccompFilter_eq_iff: "SeccompFilter_eq f g \<longleftrightarrow> f = g"
proof -
  have fields: "bpf_code a = bpf_code b \<and> bpf_jt a = bpf_jt b \<and> bpf_jf a = bpf_jf b \<and> bpf_k a = bpf_k b
      \<longleftrightarrow> a = b" for a b :: sock_filter
    by (cases a; cases b) simp
  show ?thesis
    unfolding SeccompFilter_eq_def fields
    using list_all_zip_eq [of "f_program f" "f_program g"] by (cases f; cases g) auto
qed

end
