(* ===== verification/Kernel.thy ===== *)
theory Kernel
  imports Paths Seccomp_Bpf "HOL-Library.State_Monad"
begin

text \<open>
  The operating system as the crate sees it. Its answers are a parameter: a record \<open>kernel\<close> of
  response functions that may depend on everything that happened before. The state of the calling
  process is the trace of its calls with their outcomes, plus the crate's process-wide statics.
  Code that calls the system is a state-monad program over that state, so that the theorems can
  speak of what was called, in which order, and with which result, for every kernel.
\<close>

section \<open>Calls, outcomes and the state\<close>

text \<open>\<open>io::Error\<close>: the kind as far as the sources match on it, and the display.\<close>

datatype io_kind = AlreadyExists | NotFound | OtherKind

record io_error =
  io_kind :: io_kind
  io_display :: string

type_synonym 'a io = "io_error + 'a"

text \<open>Calls whose answer is a number: a non-negative result, or the negated errno.\<close>

datatype rawcall =
    PrSetNoNewPrivs
  | SeccompSetModeFilter "sock_filter list"
  | PrSetSeccomp "sock_filter list"
  | MountCall "string option" string "string option" u64 "string option"
  | Umount2 string u64
  | PivotRoot string string
  | ChrootTo string
  | ChdirTo string
  | CreateFile string
  | CloseFd int
  | Dup2 int int
  | Setpgid
  | Sethostname string
  | Setrlimit nat u64
  | WriteFd int "u8 list"
  | Execvpe "string list" "string list"
  | CloneChild u64
  | PidfdOpen i32
  | PidfdSendSignal int i32
  | OpenFile string
  | FcntlGetFl int
  | FcntlSetFl int int
  | DupFdCloexec int
  | ForkHelper
  | Setns int u64
  | OpenTree int string u64
  | MoveMount int string u64
  | Mkdirat int string nat
  | Unshare u64
  | OpenWriteOnly string
  | SetFdCloexec int
  | LandlockRestrictSelf int

text \<open>Requests to the \<open>landlock\<close> crate, with the access rights as bits.\<close>

datatype landlock_request =
    HandleAccess u64
  | CreateRuleset u64
  | OpenPathFd string
  | AddRule int string u64
  | CloneRuleset int

definition SIGKILL :: i32 where "SIGKILL = 9"

text \<open>What \<open>waitpid\<close> reports about a child.\<close>

datatype wait_status = Exited i32 | Signaled i32 | StillAlive | OtherStatus string \<comment> \<open>with its debug display\<close>

datatype event =
    ReadFile string "string io"
  | WriteFile string string "unit io"
  | OpenForWrite string bool
  | CreateDir string "unit io"
  | CreateDirAll string "unit io"
  | RemoveDir string "unit io"
  | PathExists string bool
  | PathIsDir string bool
  | KillPid i32 i32 bool
  | SleepMs nat
  | Raw rawcall int
  | ReadFd int nat "int + u8 list" \<comment> \<open>the errno, or the bytes read\<close>
  | WaitPid i32 bool "int + wait_status" \<comment> \<open>the flag is \<open>WNOHANG\<close>\<close>
  | MakePipe bool "int + int \<times> int" \<comment> \<open>the flag is \<open>O_CLOEXEC\<close>; read end and write end\<close>
  | Clock nat \<comment> \<open>\<open>Instant::now\<close>, in nanoseconds\<close>
  | ProxyStart nat \<comment> \<open>the HTTP proxy runs on this port\<close>
  | ProxyStop nat \<comment> \<open>it was told to shut down\<close>
  | LandlockCrate landlock_request "string + int" \<comment> \<open>the display of the error, or a handle\<close>

text \<open>How cgroup v2 is accessed (\<open>src/cgroup/strategy.rs\<close>); cached in the static \<open>CGROUP_STRATEGY\<close>.\<close>

datatype CgroupStrategy = Root string | Delegated string | CgUnavailable

record world =
  trace :: "event list"
  CGROUP_STRATEGY :: "CgroupStrategy option"
  PROBE_COUNTER :: u64
  SANDBOX_COUNTER :: u64
  LANDLOCK_SUPPORT :: "(string + unit) option" \<comment> \<open>the static \<open>SUPPORT\<close> of \<open>src/landlock/mod.rs\<close>\<close>

record kernel =
  k_read_file :: "event list \<Rightarrow> string \<Rightarrow> string io"
  k_write_file :: "event list \<Rightarrow> string \<Rightarrow> string \<Rightarrow> unit io"
  k_open_write :: "event list \<Rightarrow> string \<Rightarrow> bool"
  k_create_dir :: "event list \<Rightarrow> string \<Rightarrow> unit io"
  k_create_dir_all :: "event list \<Rightarrow> string \<Rightarrow> unit io"
  k_remove_dir :: "event list \<Rightarrow> string \<Rightarrow> unit io"
  k_exists :: "event list \<Rightarrow> string \<Rightarrow> bool"
  k_is_dir :: "event list \<Rightarrow> string \<Rightarrow> bool"
  k_kill :: "event list \<Rightarrow> i32 \<Rightarrow> i32 \<Rightarrow> bool"
  k_raw :: "event list \<Rightarrow> rawcall \<Rightarrow> int"
  k_read_fd :: "event list \<Rightarrow> int \<Rightarrow> nat \<Rightarrow> int + u8 list"
  k_waitpid :: "event list \<Rightarrow> i32 \<Rightarrow> bool \<Rightarrow> int + wait_status"
  k_pipe :: "event list \<Rightarrow> bool \<Rightarrow> int + int \<times> int"
  k_now :: "event list \<Rightarrow> nat"
  k_strerror :: "int \<Rightarrow> string" \<comment> \<open>display of an OS error by the standard library\<close>
  k_nix_errno :: "int \<Rightarrow> string" \<comment> \<open>display of an errno by the \<open>nix\<close> crate\<close>
  k_geteuid :: u32
  k_getuid :: u32
  k_getgid :: u32
  k_getpid :: u32
  k_now_secs :: "event list \<Rightarrow> u64"

type_synonym 'a prog = "(world, 'a) state"

definition log_event :: "event \<Rightarrow> world \<Rightarrow> world" where
  "log_event e w = w\<lparr>trace := trace w @ [e]\<rparr>"

lemma log_event_simps [simp]:
  "trace (log_event e w) = trace w @ [e]"
  "CGROUP_STRATEGY (log_event e w) = CGROUP_STRATEGY w"
  "PROBE_COUNTER (log_event e w) = PROBE_COUNTER w"
  "SANDBOX_COUNTER (log_event e w) = SANDBOX_COUNTER w"
  "LANDLOCK_SUPPORT (log_event e w) = LANDLOCK_SUPPORT w"
  by (simp_all add: log_event_def)

text \<open>A call: the kernel answers from the history, and call and answer are recorded.\<close>

definition syscall :: "(event list \<Rightarrow> 'r) \<Rightarrow> ('r \<Rightarrow> event) \<Rightarrow> 'r prog" where
  "syscall ans ev = State (\<lambda>w. let r = ans (trace w) in (r, log_event (ev r) w))"

definition read_to_string :: "kernel \<Rightarrow> string \<Rightarrow> string io prog" where
  "read_to_string k p = syscall (\<lambda>h. k_read_file k h p) (ReadFile p)"

definition fs_write :: "kernel \<Rightarrow> string \<Rightarrow> string \<Rightarrow> unit io prog" where
  "fs_write k p v = syscall (\<lambda>h. k_write_file k h p v) (WriteFile p v)"

definition open_write :: "kernel \<Rightarrow> string \<Rightarrow> bool prog" where
  "open_write k p = syscall (\<lambda>h. k_open_write k h p) (OpenForWrite p)"

definition create_dir :: "kernel \<Rightarrow> string \<Rightarrow> unit io prog" where
  "create_dir k p = syscall (\<lambda>h. k_create_dir k h p) (CreateDir p)"

definition create_dir_all :: "kernel \<Rightarrow> string \<Rightarrow> unit io prog" where
  "create_dir_all k p = syscall (\<lambda>h. k_create_dir_all k h p) (CreateDirAll p)"

definition remove_dir :: "kernel \<Rightarrow> string \<Rightarrow> unit io prog" where
  "remove_dir k p = syscall (\<lambda>h. k_remove_dir k h p) (RemoveDir p)"

definition path_exists :: "kernel \<Rightarrow> string \<Rightarrow> bool prog" where
  "path_exists k p = syscall (\<lambda>h. k_exists k h p) (PathExists p)"

definition path_is_dir :: "kernel \<Rightarrow> string \<Rightarrow> bool prog" where
  "path_is_dir k p = syscall (\<lambda>h. k_is_dir k h p) (PathIsDir p)"

definition kill :: "kernel \<Rightarrow> i32 \<Rightarrow> i32 \<Rightarrow> bool prog" where
  "kill k pid sig = syscall (\<lambda>h. k_kill k h pid sig) (KillPid pid sig)"

definition sleep_ms :: "nat \<Rightarrow> unit prog" where
  "sleep_ms n = syscall (\<lambda>h. ()) (\<lambda>_. SleepMs n)"

definition raw_call :: "kernel \<Rightarrow> rawcall \<Rightarrow> int prog" where
  "raw_call k c = syscall (\<lambda>h. k_raw k h c) (Raw c)"

definition read_fd :: "kernel \<Rightarrow> int \<Rightarrow> nat \<Rightarrow> (int + u8 list) prog" where
  "read_fd k fd n = syscall (\<lambda>h. k_read_fd k h fd n) (ReadFd fd n)"

definition waitpid :: "kernel \<Rightarrow> i32 \<Rightarrow> bool \<Rightarrow> (int + wait_status) prog" where
  "waitpid k pid nohang = syscall (\<lambda>h. k_waitpid k h pid nohang) (WaitPid pid nohang)"

definition make_pipe :: "kernel \<Rightarrow> bool \<Rightarrow> (int + int \<times> int) prog" where
  "make_pipe k cloexec = syscall (\<lambda>h. k_pipe k h cloexec) (MakePipe cloexec)"

definition now :: "kernel \<Rightarrow> nat prog" where
  "now k = syscall (\<lambda>h. k_now k h) Clock"

text \<open>A loop over a list that runs a body for each element.\<close>

primrec for_each :: "('a \<Rightarrow> unit prog) \<Rightarrow> 'a list \<Rightarrow> unit prog" where
  "for_each f [] = State_Monad.return ()"
| "for_each f (x # xs) = f x \<bind> (\<lambda>_. for_each f xs)"

text \<open>Sequencing of fallible steps, the \<open>?\<close> operator.\<close>

definition and_then :: "('e + unit) prog \<Rightarrow> ('e + 'a) prog \<Rightarrow> ('e + 'a) prog" where
  "and_then m n = m \<bind> (\<lambda>r. case r of Inl e \<Rightarrow> State_Monad.return (Inl e) | Inr _ \<Rightarrow> n)"

definition proceed :: "('e + unit) prog" where
  "proceed = State_Monad.return (Inr ())"

primrec try_each :: "('a \<Rightarrow> ('e + unit) prog) \<Rightarrow> 'a list \<Rightarrow> ('e + unit) prog" where
  "try_each f [] = proceed"
| "try_each f (x # xs) = and_then (f x) (try_each f xs)"

section \<open>Weakest preconditions\<close>

definition wp :: "'a prog \<Rightarrow> ('a \<Rightarrow> world \<Rightarrow> bool) \<Rightarrow> world \<Rightarrow> bool" where
  "wp m Q w = (case run_state m w of (r, w') \<Rightarrow> Q r w')"

named_theorems wp_simps

lemma wp_return [wp_simps]: "wp (State_Monad.return x) Q w = Q x w"
  by (simp add: wp_def)

lemma wp_bind [wp_simps]: "wp (m \<bind> f) Q w = wp m (\<lambda>r. wp (f r) Q) w"
  by (simp add: wp_def split: prod.splits)

lemma wp_if [wp_simps]: "wp (if b then m else n) Q w = (if b then wp m Q w else wp n Q w)"
  by simp

lemma wp_case_sum [wp_simps]:
  "wp (case r of Inl e \<Rightarrow> f e | Inr x \<Rightarrow> g x) Q w = (case r of Inl e \<Rightarrow> wp (f e) Q w | Inr x \<Rightarrow> wp (g x) Q w)"
  by (cases r) simp_all

lemma wp_case_option [wp_simps]:
  "wp (case r of None \<Rightarrow> f | Some x \<Rightarrow> g x) Q w = (case r of None \<Rightarrow> wp f Q w | Some x \<Rightarrow> wp (g x) Q w)"
  by (cases r) simp_all

lemma wp_get [wp_simps]: "wp State_Monad.get Q w = Q w w"
  by (simp add: wp_def)

lemma wp_State [wp_simps]: "wp (State f) Q w = (case f w of (r, w') \<Rightarrow> Q r w')"
  by (simp add: wp_def)

lemma wp_mono: "wp m P w \<Longrightarrow> (\<And>r w'. P r w' \<Longrightarrow> Q r w') \<Longrightarrow> wp m Q w"
  by (auto simp: wp_def split: prod.splits)

lemma wp_conj: "wp m P w \<Longrightarrow> wp m Q w \<Longrightarrow> wp m (\<lambda>r w'. P r w' \<and> Q r w') w"
  by (auto simp: wp_def split: prod.splits)

lemma wp_run: "wp m Q w \<Longrightarrow> run_state m w = (r, w') \<Longrightarrow> Q r w'"
  by (simp add: wp_def)

lemma wpI: "(\<And>r w'. run_state m w = (r, w') \<Longrightarrow> Q r w') \<Longrightarrow> wp m Q w"
  by (auto simp: wp_def split: prod.splits)

lemma wp_syscall [wp_simps]: "wp (syscall ans ev) Q w = (let r = ans (trace w) in Q r (log_event (ev r) w))"
  by (simp add: wp_def syscall_def Let_def)

lemmas call_defs =
  read_to_string_def fs_write_def open_write_def create_dir_def create_dir_all_def remove_dir_def
  path_exists_def path_is_dir_def kill_def sleep_ms_def raw_call_def read_fd_def
  waitpid_def make_pipe_def now_def

section \<open>What a program adds to the trace\<close>

definition new_events :: "world \<Rightarrow> world \<Rightarrow> event list" where
  "new_events w w' = drop (length (trace w)) (trace w')"

text \<open>\<open>emits P m\<close>: the program only appends to the trace, and only events that satisfy \<open>P\<close>.\<close>

definition emits :: "(event \<Rightarrow> bool) \<Rightarrow> 'a prog \<Rightarrow> bool" where
  "emits P m \<longleftrightarrow> (\<forall>w. \<exists>es. trace (snd (run_state m w)) = trace w @ es \<and> list_all P es)"

named_theorems emits_intros

lemma emits_return [emits_intros]: "emits P (State_Monad.return x)"
  by (simp add: emits_def)

lemma emits_bind [emits_intros]:
  assumes "emits P m" "\<And>r. emits P (f r)"
  shows "emits P (m \<bind> f)"
  unfolding emits_def
proof
  fix w
  obtain r w' where m: "run_state m w = (r, w')" by force
  obtain es where "trace w' = trace w @ es" "list_all P es"
    using assms(1) m by (metis emits_def snd_conv)
  moreover obtain fs where "trace (snd (run_state (f r) w')) = trace w' @ fs" "list_all P fs"
    using assms(2) by (metis emits_def)
  ultimately show "\<exists>es. trace (snd (run_state (m \<bind> f) w)) = trace w @ es \<and> list_all P es"
    using m by (intro exI [of _ "es @ fs"]) simp
qed

lemma emits_syscall [emits_intros]: "(\<And>r. P (ev r)) \<Longrightarrow> emits P (syscall ans ev)"
  by (auto simp: emits_def syscall_def Let_def)

lemma emits_if [emits_intros]: "emits P m \<Longrightarrow> emits P n \<Longrightarrow> emits P (if b then m else n)"
  by simp

lemma emits_case_sum [emits_intros]:
  "(\<And>e. emits P (f e)) \<Longrightarrow> (\<And>x. emits P (g x)) \<Longrightarrow> emits P (case r of Inl e \<Rightarrow> f e | Inr x \<Rightarrow> g x)"
  by (cases r) simp_all

lemma emits_case_option [emits_intros]:
  "emits P m \<Longrightarrow> (\<And>x. emits P (g x)) \<Longrightarrow> emits P (case r of None \<Rightarrow> m | Some x \<Rightarrow> g x)"
  by (cases r) simp_all

lemma emits_case_prod [emits_intros]: "(\<And>a b. emits P (f a b)) \<Longrightarrow> emits P (case r of (a, b) \<Rightarrow> f a b)"
  by (cases r) simp

lemma emits_for_each [emits_intros]: "(\<And>x. emits P (f x)) \<Longrightarrow> emits P (for_each f xs)"
  by (induction xs) (simp_all add: emits_return emits_bind)

lemma emits_weaken: "emits P m \<Longrightarrow> (\<And>e. P e \<Longrightarrow> Q e) \<Longrightarrow> emits Q m"
  by (metis (mono_tags, lifting) emits_def list.pred_mono_strong)

lemma emits_wp: "emits P m \<Longrightarrow> wp m (\<lambda>r w'. \<exists>es. trace w' = trace w @ es \<and> list_all P es) w"
  by (metis (mono_tags, lifting) emits_def snd_conv wpI)

lemma emits_run:
  "emits P m \<Longrightarrow> run_state m w = (r, w') \<Longrightarrow> \<exists>es. trace w' = trace w @ es \<and> list_all P es"
  by (metis emits_def snd_conv)

text \<open>Programs that only append.\<close>

abbreviation appends :: "'a prog \<Rightarrow> bool" where
  "appends \<equiv> emits (\<lambda>_. True)"

lemma appends_run: "appends m \<Longrightarrow> run_state m w = (r, w') \<Longrightarrow> \<exists>es. trace w' = trace w @ es"
  by (drule emits_run) auto

text \<open>The same for a property of the whole list of added events that is closed under
  concatenation.\<close>

definition adds :: "(event list \<Rightarrow> bool) \<Rightarrow> 'a prog \<Rightarrow> bool" where
  "adds G m \<longleftrightarrow> (\<forall>w. \<exists>es. trace (snd (run_state m w)) = trace w @ es \<and> G es)"

lemma adds_bind_with:
  assumes "\<And>w r w'. run_state m w = (r, w') \<Longrightarrow> \<exists>es. trace w' = trace w @ es \<and> adds (\<lambda>fs. G (es @ fs)) (f r)"
  shows "adds G (m \<bind> f)"
  unfolding adds_def
proof
  fix w
  obtain r w' where m: "run_state m w = (r, w')" by force
  then obtain es where es: "trace w' = trace w @ es" "adds (\<lambda>fs. G (es @ fs)) (f r)" using assms by blast
  then obtain fs where "trace (snd (run_state (f r) w')) = trace w' @ fs" "G (es @ fs)"
    unfolding adds_def by blast
  then show "\<exists>es. trace (snd (run_state (m \<bind> f) w)) = trace w @ es \<and> G es"
    using m es by (intro exI [of _ "es @ fs"]) simp
qed

lemma adds_mono: "adds G m \<Longrightarrow> (\<And>es. G es \<Longrightarrow> H es) \<Longrightarrow> adds H m"
  unfolding adds_def by blast

locale event_monoid =
  fixes G :: "event list \<Rightarrow> bool"
  assumes G_Nil: "G []"
    and G_append: "G es \<Longrightarrow> G fs \<Longrightarrow> G (es @ fs)"
begin

lemma adds_return: "adds G (State_Monad.return x)"
  by (simp add: adds_def G_Nil)

lemma adds_bind:
  assumes "adds G m" "\<And>r. adds G (f r)"
  shows "adds G (m \<bind> f)"
  unfolding adds_def
proof
  fix w
  obtain r w' where m: "run_state m w = (r, w')" by force
  obtain es where "trace w' = trace w @ es" "G es"
    using assms(1) m by (metis adds_def snd_conv)
  moreover obtain fs where "trace (snd (run_state (f r) w')) = trace w' @ fs" "G fs"
    using assms(2) by (metis adds_def)
  ultimately show "\<exists>es. trace (snd (run_state (m \<bind> f) w)) = trace w @ es \<and> G es"
    using m G_append by (intro exI [of _ "es @ fs"]) simp
qed

lemma adds_syscall: "(\<And>r. G [ev r]) \<Longrightarrow> adds G (syscall ans ev)"
  by (auto simp: adds_def syscall_def Let_def)

lemma adds_if: "adds G m \<Longrightarrow> adds G n \<Longrightarrow> adds G (if b then m else n)"
  by simp

lemma adds_events:
  assumes "adds G m"
  shows "G (new_events w (snd (run_state m w)))"
  using assms by (auto simp: adds_def new_events_def) (metis append_eq_conv_conj)

lemmas adds_intros = adds_return adds_bind adds_syscall adds_if

end

section \<open>Runs\<close>

text \<open>A run of a composed program splits into runs of its parts.\<close>

named_theorems run_simps

lemma run_bind_iff [run_simps]:
  "run_state (m \<bind> f) w = (r, w'') \<longleftrightarrow> (\<exists>x w'. run_state m w = (x, w') \<and> run_state (f x) w' = (r, w''))"
  by (auto split: prod.splits)

declare run_state_bind [simp del]

lemma run_return_iff [run_simps]: "run_state (State_Monad.return x) w = (r, w') \<longleftrightarrow> r = x \<and> w' = w"
  by auto

lemma run_syscall_iff [run_simps]:
  "run_state (syscall ans ev) w = (r, w') \<longleftrightarrow> r = ans (trace w) \<and> w' = log_event (ev r) w"
  by (auto simp: syscall_def Let_def)

lemma run_case_sum_iff [run_simps]:
  "run_state (case r of Inl e \<Rightarrow> f e | Inr x \<Rightarrow> g x) w = z \<longleftrightarrow>
     (\<exists>e. r = Inl e \<and> run_state (f e) w = z) \<or> (\<exists>x. r = Inr x \<and> run_state (g x) w = z)"
  by (cases r) auto

lemma run_case_option_iff [run_simps]:
  "run_state (case r of None \<Rightarrow> m | Some x \<Rightarrow> g x) w = z \<longleftrightarrow>
     (r = None \<and> run_state m w = z) \<or> (\<exists>x. r = Some x \<and> run_state (g x) w = z)"
  by (cases r) auto

lemma run_case_prod_iff [run_simps]:
  "run_state (case r of (a, b) \<Rightarrow> f a b) w = z \<longleftrightarrow> (\<exists>a b. r = (a, b) \<and> run_state (f a b) w = z)"
  by (cases r) auto

lemma new_events_append: "trace w' = trace w @ es \<Longrightarrow> new_events w w' = es"
  by (simp add: new_events_def)

lemma appends_new_events: "appends m \<Longrightarrow> run_state m w = (r, w') \<Longrightarrow> trace w' = trace w @ new_events w w'"
  by (drule (1) appends_run) (auto simp: new_events_def)

section \<open>A kernel that grants everything\<close>

text \<open>Used to show that hypotheses can hold: every call succeeds, every file is empty except the
  list of cgroup controllers, and the caller is root.\<close>

definition granting_kernel :: kernel where
  "granting_kernel =
     \<lparr>k_read_file = (\<lambda>h p. if ends_with ''cgroup.controllers'' p then Inr ''cpu memory pids'' else Inr []),
      k_write_file = (\<lambda>h p v. Inr ()), k_open_write = (\<lambda>h p. True), k_create_dir = (\<lambda>h p. Inr ()),
      k_create_dir_all = (\<lambda>h p. Inr ()), k_remove_dir = (\<lambda>h p. Inr ()), k_exists = (\<lambda>h p. True),
      k_is_dir = (\<lambda>h p. True), k_kill = (\<lambda>h p s. True), k_raw = (\<lambda>h c. 0),
      k_read_fd = (\<lambda>h fd n. Inr [0]),
      k_waitpid = (\<lambda>h p f. Inr (Exited 0)), k_pipe = (\<lambda>h f. Inr (3, 4)), k_now = (\<lambda>h. length h),
      k_strerror = (\<lambda>e. ''os error '' @ show_int e),
      k_nix_errno = (\<lambda>e. ''E'' @ show_int e), k_geteuid = 0, k_getuid = 0, k_getgid = 0, k_getpid = 42,
      k_now_secs = (\<lambda>h. 0)\<rparr>"

definition initial_world :: world where
  "initial_world = \<lparr>trace = [], CGROUP_STRATEGY = None, PROBE_COUNTER = 0, SANDBOX_COUNTER = 0, LANDLOCK_SUPPORT = None\<rparr>"

end
