(* ===== verification/Config.thy ===== *)
theory Config
  imports Seccomp_Bpf
begin

text \<open>
  The configuration records and their builders (\<open>src/config/\<close>): resources, filesystem, namespaces,
  network, security and environment. A builder of the crate is a struct with the single field
  \<open>config\<close>; here it is the configuration itself, and a builder method is a function on it.
\<close>

section \<open>Standard-library values\<close>

text \<open>\<open>std::time::Duration\<close>: whole seconds and the nanoseconds below a second.\<close>

record Duration =
  as_secs :: u64
  subsec_nanos :: u32

definition is_zero :: "Duration \<Rightarrow> bool" where
  "is_zero d \<longleftrightarrow> as_secs d = 0 \<and> subsec_nanos d = 0"

definition Duration_ZERO :: Duration where
  "Duration_ZERO = \<lparr>as_secs = 0, subsec_nanos = 0\<rparr>"

text \<open>An \<open>f64\<close> by its IEEE-754 bits, with the one comparison the sources make: \<open>x <= 0.0\<close> holds for
  both zeros and for the negative numbers, and for no NaN.\<close>

datatype f64 = F64 (f64_bits: u64)

definition f64_magnitude :: "f64 \<Rightarrow> u64" where
  "f64_magnitude x = f64_bits x AND 0x7FFFFFFFFFFFFFFF"

definition f64_is_nan :: "f64 \<Rightarrow> bool" where
  "f64_is_nan x \<longleftrightarrow> f64_magnitude x > 0x7FF0000000000000"

definition f64_le_zero :: "f64 \<Rightarrow> bool" where
  "f64_le_zero x \<longleftrightarrow> \<not> f64_is_nan x \<and> (f64_magnitude x = 0 \<or> bit (f64_bits x) 63)"

section \<open>Resources\<close>

datatype ResourceEnforcement = Strict | BestEffort

record CgroupLimitRequests =
  req_memory :: bool
  req_cpu :: bool
  req_pids :: bool

record ExecutionPolicy =
  policy_enforcement :: ResourceEnforcement
  policy_requests :: CgroupLimitRequests

record ResourceConfig =
  memory_limit :: "u64 option"
  cpu_limit :: "f64 option"
  max_pids :: "u32 option"
  wall_time_limit :: "Duration option"
  cpu_time_limit :: "Duration option"
  max_file_size :: "u64 option"
  max_open_files :: "u32 option"
  resource_enforcement :: ResourceEnforcement
  cgroup_limit_requests :: CgroupLimitRequests

definition ResourceConfig_default :: ResourceConfig where
  "ResourceConfig_default =
     \<lparr>memory_limit = None, cpu_limit = None, max_pids = Some 64, wall_time_limit = None,
      cpu_time_limit = None, max_file_size = None, max_open_files = None,
      resource_enforcement = Strict,
      cgroup_limit_requests = \<lparr>req_memory = False, req_cpu = False, req_pids = False\<rparr>\<rparr>"

definition to_execution_policy :: "ResourceConfig \<Rightarrow> ExecutionPolicy" where
  "to_execution_policy c =
     \<lparr>policy_enforcement = resource_enforcement c, policy_requests = cgroup_limit_requests c\<rparr>"

definition needs_cgroup :: "ResourceConfig \<Rightarrow> bool" where
  "needs_cgroup c \<longleftrightarrow> memory_limit c \<noteq> None \<or> cpu_limit c \<noteq> None \<or> max_pids c \<noteq> None"

definition ResourceBuilder_new :: ResourceConfig where
  "ResourceBuilder_new = ResourceConfig_default"

definition ResourceBuilder_memory_limit :: "u64 \<Rightarrow> ResourceConfig \<Rightarrow> ResourceConfig" where
  "ResourceBuilder_memory_limit bytes c =
     c\<lparr>memory_limit := Some bytes, cgroup_limit_requests := (cgroup_limit_requests c)\<lparr>req_memory := True\<rparr>\<rparr>"

definition ResourceBuilder_cpu_limit :: "f64 \<Rightarrow> ResourceConfig \<Rightarrow> ResourceConfig" where
  "ResourceBuilder_cpu_limit cpus c =
     c\<lparr>cpu_limit := Some cpus, cgroup_limit_requests := (cgroup_limit_requests c)\<lparr>req_cpu := True\<rparr>\<rparr>"

definition ResourceBuilder_wall_time_limit :: "Duration \<Rightarrow> ResourceConfig \<Rightarrow> ResourceConfig" where
  "ResourceBuilder_wall_time_limit d c = c\<lparr>wall_time_limit := Some d\<rparr>"

definition ResourceBuilder_cpu_time_limit :: "Duration \<Rightarrow> ResourceConfig \<Rightarrow> ResourceConfig" where
  "ResourceBuilder_cpu_time_limit d c = c\<lparr>cpu_time_limit := Some d\<rparr>"

definition ResourceBuilder_max_pids :: "u32 \<Rightarrow> ResourceConfig \<Rightarrow> ResourceConfig" where
  "ResourceBuilder_max_pids n c =
     c\<lparr>max_pids := Some n, cgroup_limit_requests := (cgroup_limit_requests c)\<lparr>req_pids := True\<rparr>\<rparr>"

definition ResourceBuilder_max_file_size :: "u64 \<Rightarrow> ResourceConfig \<Rightarrow> ResourceConfig" where
  "ResourceBuilder_max_file_size bytes c = c\<lparr>max_file_size := Some bytes\<rparr>"

definition ResourceBuilder_max_open_files :: "u32 \<Rightarrow> ResourceConfig \<Rightarrow> ResourceConfig" where
  "ResourceBuilder_max_open_files n c = c\<lparr>max_open_files := Some n\<rparr>"

definition ResourceBuilder_resource_enforcement :: "ResourceEnforcement \<Rightarrow> ResourceConfig \<Rightarrow> ResourceConfig" where
  "ResourceBuilder_resource_enforcement e c = c\<lparr>resource_enforcement := e\<rparr>"

definition ResourceBuilder_build :: "ResourceConfig \<Rightarrow> ResourceConfig result" where
  "ResourceBuilder_build c =
     (if (case memory_limit c of Some l \<Rightarrow> l = 0 | None \<Rightarrow> False)
      then Inl (config ''memory_limit must be greater than 0'')
      else if (case cpu_limit c of Some l \<Rightarrow> f64_le_zero l | None \<Rightarrow> False)
      then Inl (config ''cpu_limit must be greater than 0'')
      else if (case wall_time_limit c of Some l \<Rightarrow> is_zero l | None \<Rightarrow> False)
      then Inl (config ''wall_time_limit must be greater than 0'')
      else if (case cpu_time_limit c of Some l \<Rightarrow> is_zero l | None \<Rightarrow> False)
      then Inl (config ''cpu_time_limit must be greater than 0'')
      else if (case max_file_size c of Some l \<Rightarrow> l = 0 | None \<Rightarrow> False)
      then Inl (config ''max_file_size must be greater than 0'')
      else if (case max_open_files c of Some l \<Rightarrow> l = 0 | None \<Rightarrow> False)
      then Inl (config ''max_open_files must be greater than 0'')
      else Inr c)"

section \<open>Filesystem\<close>

text \<open>Mount flag bits are the \<open>libc\<close> \<open>MS_*\<close> values.\<close>

definition MS_RDONLY :: u64 where "MS_RDONLY = 1"
definition MS_NOSUID :: u64 where "MS_NOSUID = 2"
definition MS_NODEV :: u64 where "MS_NODEV = 4"
definition MS_NOEXEC :: u64 where "MS_NOEXEC = 8"

datatype MountFlags = MountFlags (bits: u32)

definition NONE :: MountFlags where "NONE = MountFlags 0"
definition READ_ONLY :: MountFlags where "READ_ONLY = MountFlags (ucast MS_RDONLY)"
definition NO_EXEC :: MountFlags where "NO_EXEC = MountFlags (ucast MS_NOEXEC)"
definition NO_SUID :: MountFlags where "NO_SUID = MountFlags (ucast MS_NOSUID)"
definition NO_DEV :: MountFlags where "NO_DEV = MountFlags (ucast MS_NODEV)"

definition flags_empty :: MountFlags where "flags_empty = MountFlags 0"

definition contains :: "MountFlags \<Rightarrow> MountFlags \<Rightarrow> bool" where
  "contains self other \<longleftrightarrow> bits self AND bits other = bits other"

definition flags_insert :: "MountFlags \<Rightarrow> MountFlags \<Rightarrow> MountFlags" where
  "flags_insert self other = MountFlags (bits self OR bits other)"

definition bitor :: "MountFlags \<Rightarrow> MountFlags \<Rightarrow> MountFlags" where
  "bitor self rhs = MountFlags (bits self OR bits rhs)"

definition bitor_assign :: "MountFlags \<Rightarrow> MountFlags \<Rightarrow> MountFlags" where
  "bitor_assign self rhs = MountFlags (bits self OR bits rhs)"

definition MountFlags_debug :: "MountFlags \<Rightarrow> string" where
  "MountFlags_debug self =
     (let bs = (if contains self READ_ONLY then [''READ_ONLY''] else [])
             @ (if contains self NO_EXEC then [''NO_EXEC''] else [])
             @ (if contains self NO_SUID then [''NO_SUID''] else [])
             @ (if contains self NO_DEV then [''NO_DEV''] else [])
      in if bs = [] then ''MountFlags(NONE)''
         else ''MountFlags('' @ [CHR 0x22] @ join '' | '' bs @ [CHR 0x22] @ '')'')"

datatype ProcfsMode = Remount | Leave | Hide

datatype RootfsMode = Pivot "string option" | Chroot

datatype Permission = ReadOnly | ReadWrite | Custom MountFlags

record Mount =
  source :: string
  mount_target :: string
  permission :: Permission

record FilesystemConfig =
  mounts :: "Mount list"
  tmpfs_mounts :: "(string \<times> u64) list"
  working_dir :: string
  rootfs :: "string option"
  procfs :: ProcfsMode
  rootfs_mode :: RootfsMode

definition FilesystemConfig_default :: FilesystemConfig where
  "FilesystemConfig_default =
     \<lparr>mounts = [], tmpfs_mounts = [], working_dir = ''/'', rootfs = None, procfs = Remount,
      rootfs_mode = Pivot None\<rparr>"

definition FilesystemBuilder_mount :: "string \<Rightarrow> string \<Rightarrow> Permission \<Rightarrow> FilesystemConfig \<Rightarrow> FilesystemConfig" where
  "FilesystemBuilder_mount src tgt perm c =
     c\<lparr>mounts := mounts c @ [\<lparr>source = src, mount_target = tgt, permission = perm\<rparr>]\<rparr>"

definition FilesystemBuilder_tmpfs :: "string \<Rightarrow> u64 \<Rightarrow> FilesystemConfig \<Rightarrow> FilesystemConfig" where
  "FilesystemBuilder_tmpfs path size_bytes c = c\<lparr>tmpfs_mounts := tmpfs_mounts c @ [(path, size_bytes)]\<rparr>"

definition FilesystemBuilder_working_dir :: "string \<Rightarrow> FilesystemConfig \<Rightarrow> FilesystemConfig" where
  "FilesystemBuilder_working_dir path c = c\<lparr>working_dir := path\<rparr>"

definition FilesystemBuilder_rootfs :: "string \<Rightarrow> FilesystemConfig \<Rightarrow> FilesystemConfig" where
  "FilesystemBuilder_rootfs path c = c\<lparr>rootfs := Some path\<rparr>"

definition FilesystemBuilder_procfs :: "ProcfsMode \<Rightarrow> FilesystemConfig \<Rightarrow> FilesystemConfig" where
  "FilesystemBuilder_procfs mode c = c\<lparr>procfs := mode\<rparr>"

definition FilesystemBuilder_rootfs_mode :: "RootfsMode \<Rightarrow> FilesystemConfig \<Rightarrow> FilesystemConfig" where
  "FilesystemBuilder_rootfs_mode mode c = c\<lparr>rootfs_mode := mode\<rparr>"

definition FilesystemBuilder_build :: "FilesystemConfig \<Rightarrow> FilesystemConfig result" where
  "FilesystemBuilder_build c =
     (case find (\<lambda>(path, size). size = 0) (tmpfs_mounts c) of
        Some (path, _) \<Rightarrow> Inl (config (''tmpfs size for '' @ path @ '' must be greater than 0''))
      | None \<Rightarrow> Inr c)"

section \<open>Namespaces, network, security, environment\<close>

record NamespaceConfig =
  ns_user :: bool
  ns_pid :: bool
  ns_mount :: bool
  ns_uts :: bool
  ns_ipc :: bool

definition NamespaceConfig_default :: NamespaceConfig where
  "NamespaceConfig_default =
     \<lparr>ns_user = True, ns_pid = True, ns_mount = True, ns_uts = True, ns_ipc = True\<rparr>"

definition NamespaceBuilder_user :: "bool \<Rightarrow> NamespaceConfig \<Rightarrow> NamespaceConfig" where
  "NamespaceBuilder_user enable c = c\<lparr>ns_user := enable\<rparr>"
definition NamespaceBuilder_pid :: "bool \<Rightarrow> NamespaceConfig \<Rightarrow> NamespaceConfig" where
  "NamespaceBuilder_pid enable c = c\<lparr>ns_pid := enable\<rparr>"
definition NamespaceBuilder_mount :: "bool \<Rightarrow> NamespaceConfig \<Rightarrow> NamespaceConfig" where
  "NamespaceBuilder_mount enable c = c\<lparr>ns_mount := enable\<rparr>"
definition NamespaceBuilder_uts :: "bool \<Rightarrow> NamespaceConfig \<Rightarrow> NamespaceConfig" where
  "NamespaceBuilder_uts enable c = c\<lparr>ns_uts := enable\<rparr>"
definition NamespaceBuilder_ipc :: "bool \<Rightarrow> NamespaceConfig \<Rightarrow> NamespaceConfig" where
  "NamespaceBuilder_ipc enable c = c\<lparr>ns_ipc := enable\<rparr>"

datatype NetworkMode = NetNone | Host | Proxied (allowed_domains: "string list")

record NetworkConfig =
  net_mode :: NetworkMode

definition NetworkConfig_default :: NetworkConfig where
  "NetworkConfig_default = \<lparr>net_mode = NetNone\<rparr>"

definition NetworkBuilder_none :: "NetworkConfig \<Rightarrow> NetworkConfig" where
  "NetworkBuilder_none c = c\<lparr>net_mode := NetNone\<rparr>"
definition NetworkBuilder_host :: "NetworkConfig \<Rightarrow> NetworkConfig" where
  "NetworkBuilder_host c = c\<lparr>net_mode := Host\<rparr>"
definition NetworkBuilder_proxied :: "string list \<Rightarrow> NetworkConfig \<Rightarrow> NetworkConfig" where
  "NetworkBuilder_proxied domains c = c\<lparr>net_mode := Proxied domains\<rparr>"

datatype SeccompProfile = Disabled | StrictProfile | Standard | Permissive | CustomFilter SeccompFilter

fun SeccompProfile_eq :: "SeccompProfile \<Rightarrow> SeccompProfile \<Rightarrow> bool" where
  "SeccompProfile_eq Disabled Disabled = True"
| "SeccompProfile_eq StrictProfile StrictProfile = True"
| "SeccompProfile_eq Standard Standard = True"
| "SeccompProfile_eq Permissive Permissive = True"
| "SeccompProfile_eq (CustomFilter a) (CustomFilter b) = SeccompFilter_eq a b"
| "SeccompProfile_eq _ _ = False"

record SecurityConfig =
  seccomp_profile :: SeccompProfile
  sec_uid :: "u32 option"
  sec_gid :: "u32 option"

definition SecurityConfig_default :: SecurityConfig where
  "SecurityConfig_default = \<lparr>seccomp_profile = Standard, sec_uid = None, sec_gid = None\<rparr>"

definition SecurityBuilder_seccomp_profile :: "SeccompProfile \<Rightarrow> SecurityConfig \<Rightarrow> SecurityConfig" where
  "SecurityBuilder_seccomp_profile profile c = c\<lparr>seccomp_profile := profile\<rparr>"
definition SecurityBuilder_uid :: "u32 \<Rightarrow> SecurityConfig \<Rightarrow> SecurityConfig" where
  "SecurityBuilder_uid uid c = c\<lparr>sec_uid := Some uid\<rparr>"
definition SecurityBuilder_gid :: "u32 \<Rightarrow> SecurityConfig \<Rightarrow> SecurityConfig" where
  "SecurityBuilder_gid gid c = c\<lparr>sec_gid := Some gid\<rparr>"

record EnvironmentConfig =
  env :: "string \<rightharpoonup> string"
  clear_env :: bool
  hostname :: string

definition EnvironmentConfig_default :: EnvironmentConfig where
  "EnvironmentConfig_default = \<lparr>env = Map.empty, clear_env = True, hostname = ''sandbox''\<rparr>"

definition EnvironmentBuilder_env :: "string \<Rightarrow> string \<Rightarrow> EnvironmentConfig \<Rightarrow> EnvironmentConfig" where
  "EnvironmentBuilder_env k v c = c\<lparr>env := (env c)(k \<mapsto> v)\<rparr>"
definition EnvironmentBuilder_envs :: "(string \<times> string) list \<Rightarrow> EnvironmentConfig \<Rightarrow> EnvironmentConfig" where
  "EnvironmentBuilder_envs kvs c = c\<lparr>env := foldl (\<lambda>m (k, v). m(k \<mapsto> v)) (env c) kvs\<rparr>"
definition EnvironmentBuilder_clear_env :: "bool \<Rightarrow> EnvironmentConfig \<Rightarrow> EnvironmentConfig" where
  "EnvironmentBuilder_clear_env clear c = c\<lparr>clear_env := clear\<rparr>"
definition EnvironmentBuilder_hostname :: "string \<Rightarrow> EnvironmentConfig \<Rightarrow> EnvironmentConfig" where
  "EnvironmentBuilder_hostname name c = c\<lparr>hostname := name\<rparr>"

section \<open>The aggregate\<close>

text \<open>\<open>SandboxBuilder\<close> (\<open>src/builder.rs\<close>) has the same six fields as \<open>SandboxConfig\<close>.\<close>

record SandboxConfig =
  filesystem :: FilesystemConfig
  resources :: ResourceConfig
  network :: NetworkConfig
  security :: SecurityConfig
  environment :: EnvironmentConfig
  namespace :: NamespaceConfig

definition SandboxBuilder_new :: SandboxConfig where
  "SandboxBuilder_new =
     \<lparr>filesystem = FilesystemConfig_default, resources = ResourceConfig_default,
      network = NetworkConfig_default, security = SecurityConfig_default,
      environment = EnvironmentConfig_default, namespace = NamespaceConfig_default\<rparr>"

definition SandboxBuilder_filesystem :: "FilesystemConfig \<Rightarrow> SandboxConfig \<Rightarrow> SandboxConfig" where
  "SandboxBuilder_filesystem c b = b\<lparr>filesystem := c\<rparr>"
definition SandboxBuilder_resources :: "ResourceConfig \<Rightarrow> SandboxConfig \<Rightarrow> SandboxConfig" where
  "SandboxBuilder_resources c b = b\<lparr>resources := c\<rparr>"
definition SandboxBuilder_network :: "NetworkConfig \<Rightarrow> SandboxConfig \<Rightarrow> SandboxConfig" where
  "SandboxBuilder_network c b = b\<lparr>network := c\<rparr>"
definition SandboxBuilder_security :: "SecurityConfig \<Rightarrow> SandboxConfig \<Rightarrow> SandboxConfig" where
  "SandboxBuilder_security c b = b\<lparr>security := c\<rparr>"
definition SandboxBuilder_environment :: "EnvironmentConfig \<Rightarrow> SandboxConfig \<Rightarrow> SandboxConfig" where
  "SandboxBuilder_environment c b = b\<lparr>environment := c\<rparr>"
definition SandboxBuilder_namespace :: "NamespaceConfig \<Rightarrow> SandboxConfig \<Rightarrow> SandboxConfig" where
  "SandboxBuilder_namespace c b = b\<lparr>namespace := c\<rparr>"

section \<open>Validated configurations\<close>

text \<open>What \<open>ResourceBuilder::build\<close> checks.\<close>

definition valid_resources :: "ResourceConfig \<Rightarrow> bool" where
  "valid_resources c \<longleftrightarrow>
     memory_limit c \<noteq> Some 0 \<and> max_file_size c \<noteq> Some 0 \<and> max_open_files c \<noteq> Some 0
     \<and> (case cpu_limit c of None \<Rightarrow> True | Some l \<Rightarrow> \<not> f64_le_zero l)
     \<and> wall_time_limit c \<noteq> Some Duration_ZERO \<and> cpu_time_limit c \<noteq> Some Duration_ZERO"

lemma is_zero_iff: "is_zero d \<longleftrightarrow> d = Duration_ZERO"
  by (cases d) (simp add: is_zero_def Duration_ZERO_def)

lemma ResourceBuilder_build_ok: "ResourceBuilder_build c = Inr c' \<longleftrightarrow> c' = c \<and> valid_resources c"
  by (auto simp: ResourceBuilder_build_def valid_resources_def is_zero_iff split: option.splits if_splits)

lemma ResourceBuilder_build_err: "ResourceBuilder_build c = Inl e \<Longrightarrow> kind e = ErrorKind.Config"
  by (auto simp: ResourceBuilder_build_def split: if_splits)

text \<open>The configurations a caller can reach through the builder's methods.\<close>

inductive resource_built :: "ResourceConfig \<Rightarrow> bool" where
  new: "resource_built ResourceBuilder_new"
| memory: "resource_built c \<Longrightarrow> resource_built (ResourceBuilder_memory_limit b c)"
| cpu: "resource_built c \<Longrightarrow> resource_built (ResourceBuilder_cpu_limit f c)"
| pids: "resource_built c \<Longrightarrow> resource_built (ResourceBuilder_max_pids n c)"
| wall: "resource_built c \<Longrightarrow> resource_built (ResourceBuilder_wall_time_limit d c)"
| cputime: "resource_built c \<Longrightarrow> resource_built (ResourceBuilder_cpu_time_limit d c)"
| fsize: "resource_built c \<Longrightarrow> resource_built (ResourceBuilder_max_file_size b c)"
| nofile: "resource_built c \<Longrightarrow> resource_built (ResourceBuilder_max_open_files n c)"
| enforcement: "resource_built c \<Longrightarrow> resource_built (ResourceBuilder_resource_enforcement e c)"

lemmas resource_method_defs =
  ResourceBuilder_new_def ResourceConfig_default_def ResourceBuilder_memory_limit_def
  ResourceBuilder_cpu_limit_def ResourceBuilder_max_pids_def ResourceBuilder_wall_time_limit_def
  ResourceBuilder_cpu_time_limit_def ResourceBuilder_max_file_size_def
  ResourceBuilder_max_open_files_def ResourceBuilder_resource_enforcement_def

lemma resource_built_requests:
  assumes "resource_built c"
  shows "(req_memory (cgroup_limit_requests c) \<longleftrightarrow> memory_limit c \<noteq> None)
    \<and> (req_cpu (cgroup_limit_requests c) \<longleftrightarrow> cpu_limit c \<noteq> None)
    \<and> max_pids c \<noteq> None
    \<and> (req_pids (cgroup_limit_requests c) = False \<longrightarrow> max_pids c = Some 64)"
  using assms by (induction rule: resource_built.induct) (simp_all add: resource_method_defs)

section \<open>Mount flags\<close>

lemma contains_iff_bits: "contains a b \<longleftrightarrow> (\<forall>n. bit (bits b) n \<longrightarrow> bit (bits a) n)"
proof
  assume "contains a b"
  then show "\<forall>n. bit (bits b) n \<longrightarrow> bit (bits a) n" by (metis bit_and_iff contains_def)
next
  assume "\<forall>n. bit (bits b) n \<longrightarrow> bit (bits a) n"
  then show "contains a b" unfolding contains_def by (intro bit_word_eqI) (auto simp: bit_and_iff)
qed

lemma contains_insert: "contains (flags_insert a b) c \<longleftrightarrow> (\<forall>n. bit (bits c) n \<longrightarrow> bit (bits a) n \<or> bit (bits b) n)"
  by (simp add: contains_iff_bits flags_insert_def bit_or_iff)

section \<open>Properties\<close>




text \<open>A NaN CPU limit passes the check of \<open>ResourceBuilder::build\<close>: no comparison with NaN holds.\<close>

lemma nan_cpu_limit_accepted:
  "is_ok (ResourceBuilder_build (ResourceBuilder_cpu_limit (F64 0x7FF8000000000000) ResourceBuilder_new))"
  by (simp add: ResourceBuilder_build_def resource_method_defs f64_le_zero_def f64_is_nan_def
      f64_magnitude_def)

end
