(* ===== verification/Result.thy ===== *)
theory Result
  imports Config
begin

text \<open>
  Execution results and diagnostics (\<open>src/result.rs\<close>) with \<open>ExitStatus\<close> (\<open>src/process/child.rs\<close>), and
  the degradation notice of a best-effort run (\<open>append_best_effort_warning\<close>, \<open>src/sandbox.rs\<close>).
\<close>

section \<open>Exit status\<close>

record ExitStatus =
  code :: i32
  signal :: "i32 option"

definition from_exit :: "i32 \<Rightarrow> ExitStatus" where
  "from_exit c = \<lparr>code = c, signal = None\<rparr>"

definition from_signal :: "i32 \<Rightarrow> ExitStatus" where
  "from_signal sig = \<lparr>code = 128 + sig, signal = Some sig\<rparr>"

definition status_success :: "ExitStatus \<Rightarrow> bool" where
  "status_success s \<longleftrightarrow> code s = 0 \<and> signal s = None"

section \<open>Results and diagnostics\<close>

record ExecutionResult =
  res_stdout :: "u8 list"
  res_stderr :: "u8 list"
  status :: ExitStatus
  duration :: Duration
  killed_by_timeout :: bool
  killed_by_oom :: bool
  peak_memory :: "u64 option"
  cpu_time :: "Duration option"

datatype LimitStatus = NotRequested | Enforced | NotEnforced (reason: string) | LimitUnknown string

datatype MetricStatus = Collected | Unavailable string | MetricUnknown string

record LimitDiagnostics =
  lim_memory :: LimitStatus
  lim_cpu :: LimitStatus
  lim_pids :: LimitStatus

record MetricDiagnostics =
  met_peak_memory :: MetricStatus
  met_cpu_time :: MetricStatus

record ExecutionDiagnostics =
  limits :: LimitDiagnostics
  metrics :: MetricDiagnostics

record ExecutionReport =
  report_result :: ExecutionResult
  diagnostics :: ExecutionDiagnostics

definition ExecutionResult_new :: ExecutionResult where
  "ExecutionResult_new =
     \<lparr>res_stdout = [], res_stderr = [], status = from_exit 0, duration = Duration_ZERO,
      killed_by_timeout = False, killed_by_oom = False, peak_memory = None, cpu_time = None\<rparr>"

definition result_success :: "ExecutionResult \<Rightarrow> bool" where
  "result_success r \<longleftrightarrow> status_success (status r) \<and> \<not> killed_by_timeout r \<and> \<not> killed_by_oom r"

definition failure_reason :: "ExecutionResult \<Rightarrow> string option" where
  "failure_reason r =
     (if killed_by_timeout r then Some ''Execution timed out''
      else if killed_by_oom r then Some ''Out of memory''
      else case signal (status r) of
             Some sig \<Rightarrow> Some (''Killed by signal '' @ show_int (sint sig))
           | None \<Rightarrow> if code (status r) \<noteq> 0 then Some (''Exit code '' @ show_int (sint (code (status r))))
                      else None)"

definition diagnostics_from_result :: "ExecutionPolicy \<Rightarrow> ExecutionResult \<Rightarrow> ExecutionDiagnostics" where
  "diagnostics_from_result policy r =
     (let unknown_limit = LimitUnknown ''Detailed limit enforcement status is not reported on this platform'';
          unknown_metric = MetricUnknown ''Metric availability is not reported on this platform or execution path''
      in \<lparr>limits =
            \<lparr>lim_memory = (if req_memory (policy_requests policy) then unknown_limit else NotRequested),
             lim_cpu = (if req_cpu (policy_requests policy) then unknown_limit else NotRequested),
             lim_pids = (if req_pids (policy_requests policy) then unknown_limit else NotRequested)\<rparr>,
          metrics =
            \<lparr>met_peak_memory = (if peak_memory r \<noteq> None then Collected else unknown_metric),
             met_cpu_time = (if cpu_time r \<noteq> None then Collected else unknown_metric)\<rparr>\<rparr>)"

definition report_from_result :: "ExecutionPolicy \<Rightarrow> ExecutionResult \<Rightarrow> ExecutionReport" where
  "report_from_result policy r = \<lparr>report_result = r, diagnostics = diagnostics_from_result policy r\<rparr>"

definition degradation_summary :: "ExecutionDiagnostics \<Rightarrow> string option" where
  "degradation_summary d =
     (let items =
        (case lim_memory (limits d) of NotEnforced why \<Rightarrow> [''memory limit not enforced ('' @ why @ '')''] | _ \<Rightarrow> [])
        @ (case lim_cpu (limits d) of NotEnforced why \<Rightarrow> [''cpu limit not enforced ('' @ why @ '')''] | _ \<Rightarrow> [])
        @ (case lim_pids (limits d) of NotEnforced why \<Rightarrow> [''pids limit not enforced ('' @ why @ '')''] | _ \<Rightarrow> [])
        @ (case met_peak_memory (metrics d) of Unavailable why \<Rightarrow> [''peak memory unavailable ('' @ why @ '')''] | _ \<Rightarrow> [])
        @ (case met_cpu_time (metrics d) of Unavailable why \<Rightarrow> [''cpu time unavailable ('' @ why @ '')''] | _ \<Rightarrow> [])
      in if items = [] then None else Some (join ''; '' items))"

definition append_best_effort_warning :: "u8 list \<Rightarrow> string \<Rightarrow> u8 list" where
  "append_best_effort_warning stderr summary =
     (let stderr = (if stderr \<noteq> [] \<and> \<not> last stderr = 0x0A then stderr @ [0x0A] else stderr);
          stderr = stderr @ as_bytes ''[libsandbox] best-effort degradation: '';
          stderr = stderr @ as_bytes summary
      in stderr @ [0x0A])"

text \<open>The tail of \<open>RunBuilder::run\<close>: the bare result of a finished report.\<close>

definition bare_result :: "ExecutionPolicy \<Rightarrow> ExecutionReport \<Rightarrow> ExecutionResult" where
  "bare_result policy report =
     (if policy_enforcement policy = BestEffort
      then case degradation_summary (diagnostics report) of
             Some summary \<Rightarrow> (report_result report)
               \<lparr>res_stderr := append_best_effort_warning (res_stderr (report_result report)) summary\<rparr>
           | None \<Rightarrow> report_result report
      else report_result report)"

section \<open>Lemmas\<close>

definition limit_degraded :: "LimitStatus \<Rightarrow> bool" where
  "limit_degraded s \<longleftrightarrow> (\<exists>why. s = NotEnforced why)"

definition metric_degraded :: "MetricStatus \<Rightarrow> bool" where
  "metric_degraded s \<longleftrightarrow> (\<exists>why. s = Unavailable why)"

lemma degradation_summary_None:
  "degradation_summary d = None \<longleftrightarrow>
     \<not> limit_degraded (lim_memory (limits d)) \<and> \<not> limit_degraded (lim_cpu (limits d))
     \<and> \<not> limit_degraded (lim_pids (limits d)) \<and> \<not> metric_degraded (met_peak_memory (metrics d))
     \<and> \<not> metric_degraded (met_cpu_time (metrics d))"
  by (auto simp: degradation_summary_def Let_def limit_degraded_def metric_degraded_def
      split: LimitStatus.splits MetricStatus.splits)

lemma append_best_effort_warning_prefix:
  "\<exists>rest. append_best_effort_warning stderr summary = stderr @ rest \<and> rest \<noteq> [] \<and> last rest = 0x0A"
  by (simp add: append_best_effort_warning_def Let_def)

section \<open>Properties\<close>

text \<open>C21: A result counts as successful exactly when it has no failure reason.\<close>

theorem success_iff_no_failure_reason:
  "result_success r \<longleftrightarrow> failure_reason r = None"
  by (auto simp: result_success_def status_success_def failure_reason_def split: option.splits)

text \<open>C22: The bare result of a run differs from the detailed one only in that a best-effort run with
  a degraded limit or metric has a notice appended to its standard error, after all the bytes the
  command wrote and ending in a newline; a strict run is never changed.\<close>

theorem bare_result_only_appends_notice:
  "\<exists>rest. bare_result policy report
       = (report_result report)\<lparr>res_stderr := res_stderr (report_result report) @ rest\<rparr>
     \<and> (rest \<noteq> [] \<longleftrightarrow> policy_enforcement policy = BestEffort
          \<and> degradation_summary (diagnostics report) \<noteq> None)"
proof (cases "policy_enforcement policy = BestEffort \<and> degradation_summary (diagnostics report) \<noteq> None")
  case True
  then obtain s where "degradation_summary (diagnostics report) = Some s" by auto
  with True append_best_effort_warning_prefix [of "res_stderr (report_result report)" s]
  show ?thesis by (auto simp: bare_result_def)
next
  case False
  then show ?thesis by (intro exI [of _ "[]"]) (auto simp: bare_result_def)
qed

end
