(* ===== verification/Cgroup.thy ===== *)
theory Cgroup
  imports Kernel Result
begin

text \<open>
  Cgroup v2 (\<open>src/cgroup/\<close>): access-strategy detection (\<open>strategy.rs\<close>) and the cgroup manager
  (\<open>manager.rs\<close>) with its statistics, kill and cleanup loops. Limit planning and configuration
  (\<open>limits.rs\<close>) are in \<open>Cgroup_Limits\<close>.
\<close>

section \<open>Names\<close>

definition CGROUP_ROOT :: string where "CGROUP_ROOT = ''/sys/fs/cgroup''"
definition NANOBOX_DIR :: string where "NANOBOX_DIR = ''libsandbox''"

datatype CgroupController = Memory | Cpu | Pids

fun controller_str :: "CgroupController \<Rightarrow> string" where
  "controller_str Memory = ''memory''"
| "controller_str Cpu = ''cpu''"
| "controller_str Pids = ''pids''"

datatype CgroupFile =
    Procs | Controllers | SubtreeControl | MemoryMax | MemoryHigh | MemoryCurrent | MemoryPeak
  | MemoryEventsFile | CpuMax | CpuStat | PidsMax | Freeze | Kill

fun filename :: "CgroupFile \<Rightarrow> string" where
  "filename Procs = ''cgroup.procs''"
| "filename Controllers = ''cgroup.controllers''"
| "filename SubtreeControl = ''cgroup.subtree_control''"
| "filename MemoryMax = ''memory.max''"
| "filename MemoryHigh = ''memory.high''"
| "filename MemoryCurrent = ''memory.current''"
| "filename MemoryPeak = ''memory.peak''"
| "filename MemoryEventsFile = ''memory.events''"
| "filename CpuMax = ''cpu.max''"
| "filename CpuStat = ''cpu.stat''"
| "filename PidsMax = ''pids.max''"
| "filename Freeze = ''cgroup.freeze''"
| "filename Kill = ''cgroup.kill''"

definition unwrap_or :: "'a \<Rightarrow> 'a io \<Rightarrow> 'a" where
  "unwrap_or d r = (case r of Inl _ \<Rightarrow> d | Inr x \<Rightarrow> x)"

section \<open>Strategy detection\<close>

definition probe_cgroup_writable :: "kernel \<Rightarrow> string \<Rightarrow> bool prog" where
  "probe_cgroup_writable k path = do {
     probe_id \<leftarrow> State (\<lambda>w. (PROBE_COUNTER w, w\<lparr>PROBE_COUNTER := PROBE_COUNTER w + 1\<rparr>));
     let probe = path_join path
       (''.libsandbox_probe_'' @ show_nat (unat (k_getpid k)) @ ''_'' @ show_nat (unat probe_id));
     r \<leftarrow> create_dir k probe;
     case r of
       Inr _ \<Rightarrow> do { _ \<leftarrow> remove_dir k probe; State_Monad.return True }
     | Inl e \<Rightarrow>
         if io_kind e = AlreadyExists then do {
           r \<leftarrow> remove_dir k probe;
           case r of
             Inr _ \<Rightarrow> State_Monad.return True
           | Inl err \<Rightarrow> State_Monad.return (io_kind err = NotFound)
         }
         else State_Monad.return False
   }"

definition file_writable :: "kernel \<Rightarrow> string \<Rightarrow> bool prog" where
  "file_writable k path = open_write k path"

definition read_cgroup_type :: "kernel \<Rightarrow> string \<Rightarrow> string prog" where
  "read_cgroup_type k path = do {
     r \<leftarrow> read_to_string k (path_join path ''cgroup.type'');
     State_Monad.return (trim (unwrap_or [] r))
   }"

fun populated_line :: "string list \<Rightarrow> bool option" where
  "populated_line [] = None"
| "populated_line (l # ls) =
     (let parts = split_whitespace l
      in if parts \<noteq> [] \<and> hd parts = ''populated''
         then Some (tl parts \<noteq> [] \<and> hd (tl parts) = ''1'')
         else populated_line ls)"

definition cgroup_is_populated :: "kernel \<Rightarrow> string \<Rightarrow> bool prog" where
  "cgroup_is_populated k path = do {
     r \<leftarrow> read_to_string k (path_join path ''cgroup.events'');
     case populated_line (str_lines (unwrap_or [] r)) of
       Some b \<Rightarrow> State_Monad.return b
     | None \<Rightarrow> do {
         r \<leftarrow> read_to_string k (path_join path (filename Procs));
         State_Monad.return (case r of Inr procs \<Rightarrow> trim procs \<noteq> [] | Inl _ \<Rightarrow> False)
       }
   }"

definition probe_delegated_base :: "kernel \<Rightarrow> string \<Rightarrow> string option prog" where
  "probe_delegated_base k path = do {
     writable \<leftarrow> probe_cgroup_writable k path;
     if \<not> writable then State_Monad.return None
     else do {
       procs \<leftarrow> file_writable k (path_join path (filename Procs));
       if \<not> procs then State_Monad.return None
       else do {
         subtree \<leftarrow> file_writable k (path_join path (filename SubtreeControl));
         if \<not> subtree then State_Monad.return None
         else do {
           ty \<leftarrow> read_cgroup_type k path;
           if ty \<noteq> ''domain'' then State_Monad.return None
           else do {
             populated \<leftarrow> cgroup_is_populated k path;
             State_Monad.return (if populated then None else Some path)
           }
         }
       }
     }
   }"

text \<open>The loop of \<open>find_usable_cgroup_base\<close> walks up the parents; the path gets shorter.\<close>

function find_usable_base_loop :: "kernel \<Rightarrow> string \<Rightarrow> world \<Rightarrow> string option \<times> world" where
  "find_usable_base_loop k candidate w =
     (let (probe, w) = run_state (probe_delegated_base k candidate) w
      in case probe of
           Some base \<Rightarrow> (Some base, w)
         | None \<Rightarrow>
             (case path_parent candidate of
                None \<Rightarrow> (None, w)
              | Some up \<Rightarrow>
                  if \<not> path_starts_with up CGROUP_ROOT \<or> path_eq up CGROUP_ROOT then (None, w)
                  else find_usable_base_loop k up w))"
  by pat_completeness auto
termination
  by (relation "measure (\<lambda>(k, p, w). length p)") (auto simp: path_parent_shorter)

declare find_usable_base_loop.simps [simp del]

definition find_usable_cgroup_base :: "kernel \<Rightarrow> string \<Rightarrow> string option prog" where
  "find_usable_cgroup_base k initial = State (find_usable_base_loop k initial)"

definition self_cgroup_path :: "string \<Rightarrow> string option" where
  "self_cgroup_path cgroup_self =
     (case find (starts_with ''0::'') (str_lines cgroup_self) of
        None \<Rightarrow> None
      | Some l \<Rightarrow>
          let p = trim (trim_start_matches ''0::'' l)
          in if p \<noteq> ''/'' \<and> p \<noteq> [] then Some p else None)"

definition detect_cgroup_strategy :: "kernel \<Rightarrow> CgroupStrategy prog" where
  "detect_cgroup_strategy k =
     (if k_geteuid k = 0 then State_Monad.return (Root (path_join CGROUP_ROOT NANOBOX_DIR))
      else do {
        r \<leftarrow> read_to_string k ''/proc/self/cgroup'';
        case r of
          Inl _ \<Rightarrow> State_Monad.return CgUnavailable
        | Inr cgroup_self \<Rightarrow>
            (case self_cgroup_path cgroup_self of
               None \<Rightarrow> State_Monad.return CgUnavailable
             | Some cgroup_path \<Rightarrow> do {
                 let base = path_join CGROUP_ROOT (dropWhile (\<lambda>c. c = CHR ''/'') cgroup_path);
                 ex \<leftarrow> path_exists k base;
                 if \<not> ex then State_Monad.return CgUnavailable
                 else do {
                   probe \<leftarrow> find_usable_cgroup_base k base;
                   State_Monad.return (case probe of None \<Rightarrow> CgUnavailable | Some b \<Rightarrow> Delegated b)
                 }
               })
      })"

definition get_cgroup_strategy :: "kernel \<Rightarrow> CgroupStrategy prog" where
  "get_cgroup_strategy k = do {
     w \<leftarrow> State_Monad.get;
     case CGROUP_STRATEGY w of
       Some s \<Rightarrow> State_Monad.return s
     | None \<Rightarrow> do {
         s \<leftarrow> detect_cgroup_strategy k;
         State (\<lambda>w. (s, w\<lparr>CGROUP_STRATEGY := Some s\<rparr>))
       }
   }"

definition controllers_of :: "string \<Rightarrow> CgroupController list" where
  "controllers_of raw =
     concat (map (\<lambda>c. if c = ''memory'' then [Memory] else if c = ''cpu'' then [Cpu]
                      else if c = ''pids'' then [Pids] else []) (split_whitespace raw))"

definition read_controllers :: "kernel \<Rightarrow> string \<Rightarrow> CgroupController list prog" where
  "read_controllers k path = do {
     raw \<leftarrow> read_to_string k (path_join path (filename Controllers));
     State_Monad.return (controllers_of (unwrap_or [] raw))
   }"

primrec try_enable_controllers ::
  "kernel \<Rightarrow> string \<Rightarrow> CgroupController list \<Rightarrow> (CgroupController \<times> unit io) list prog" where
  "try_enable_controllers k path [] = State_Monad.return []"
| "try_enable_controllers k path (c # cs) = do {
     let subtree = path_join path (filename SubtreeControl);
     enabled \<leftarrow> read_to_string k subtree;
     r \<leftarrow> (if list_ex (\<lambda>name. name = controller_str c) (split_whitespace (unwrap_or [] enabled))
           then State_Monad.return (Inr ())
           else fs_write k subtree (''+'' @ controller_str c));
     rs \<leftarrow> try_enable_controllers k path cs;
     State_Monad.return ((c, r) # rs)
   }"

section \<open>Support\<close>

record CgroupSupport =
  mounted :: bool
  accessible :: bool
  sup_controllers :: "CgroupController list"

definition controller_available :: "CgroupSupport \<Rightarrow> CgroupController \<Rightarrow> bool" where
  "controller_available s c \<longleftrightarrow> c \<in> set (sup_controllers s)"

definition can_enforce :: "CgroupSupport \<Rightarrow> CgroupController \<Rightarrow> bool" where
  "can_enforce s c \<longleftrightarrow> mounted s \<and> accessible s \<and> controller_available s c"

definition available_controllers_string :: "CgroupSupport \<Rightarrow> string" where
  "available_controllers_string s = join '', '' (map controller_str (sup_controllers s))"

definition unavailable_reason :: "CgroupSupport \<Rightarrow> CgroupController option \<Rightarrow> string" where
  "unavailable_reason s c =
     (if \<not> mounted s then ''cgroups v2 not available. Resource limits require cgroup v2''
      else if \<not> accessible s
      then ''cgroup not writable or delegated base is unsuitable. Non-root requires a writable, empty delegated cgroup v2 parent or root access''
      else case c of
             Some c \<Rightarrow> ''cgroup controller '' @ [CHR 0x27] @ controller_str c @ [CHR 0x27]
               @ '' not available. Available: '' @ available_controllers_string s
           | None \<Rightarrow> ''cgroup support unavailable'')"

definition is_cgroup_accessible :: "kernel \<Rightarrow> bool prog" where
  "is_cgroup_accessible k = do {
     s \<leftarrow> get_cgroup_strategy k;
     State_Monad.return (case s of Root _ \<Rightarrow> True | Delegated _ \<Rightarrow> True | CgUnavailable \<Rightarrow> False)
   }"

definition is_cgroup_v2_mounted :: "kernel \<Rightarrow> bool prog" where
  "is_cgroup_v2_mounted k = path_exists k (path_join CGROUP_ROOT (filename Controllers))"

definition probe_cgroup_support :: "kernel \<Rightarrow> CgroupSupport prog" where
  "probe_cgroup_support k = do {
     m \<leftarrow> is_cgroup_v2_mounted k;
     if \<not> m then State_Monad.return \<lparr>mounted = False, accessible = False, sup_controllers = []\<rparr>
     else do {
       s \<leftarrow> get_cgroup_strategy k;
       case s of
         Root _ \<Rightarrow> do {
           cs \<leftarrow> read_controllers k CGROUP_ROOT;
           State_Monad.return \<lparr>mounted = True, accessible = True, sup_controllers = cs\<rparr>
         }
       | Delegated base \<Rightarrow> do {
           cs \<leftarrow> read_controllers k base;
           State_Monad.return \<lparr>mounted = True, accessible = True, sup_controllers = cs\<rparr>
         }
       | CgUnavailable \<Rightarrow>
           State_Monad.return \<lparr>mounted = True, accessible = False, sup_controllers = []\<rparr>
     }
   }"

section \<open>Floating-point scaling\<close>

text \<open>The two products the manager computes, \<open>(bytes as f64 * 0.9) as u64\<close> and
  \<open>(cpus * 100000.0) as u64\<close>. A finite positive double is \<open>m * 2 ^ e\<close>; \<open>round53\<close> rounds a
  significand to 53 bits, ties to even, and the cast truncates and saturates. Results in the
  subnormal range truncate to 0, and those beyond the range of doubles saturate, so no other
  rounding shows.\<close>

fun bit_length :: "nat \<Rightarrow> nat" where
  "bit_length n = (if n = 0 then 0 else Suc (bit_length (n div 2)))"

declare bit_length.simps [simp del]

definition round53 :: "nat \<Rightarrow> nat" where
  "round53 m =
     (let s = bit_length m - 53;
          q = m div 2 ^ s;
          r = m mod 2 ^ s
      in if s = 0 then m
         else (if r > 2 ^ (s - 1) \<or> (r = 2 ^ (s - 1) \<and> odd q) then q + 1 else q) * 2 ^ s)"

definition scale_to_u64 :: "nat \<Rightarrow> int \<Rightarrow> u64" where
  "scale_to_u64 m e =
     (let v = (if e \<ge> 0 then m * 2 ^ nat e else m div 2 ^ nat (- e))
      in of_nat (min v (2 ^ 64 - 1)))"

text \<open>\<open>0.9\<close> is \<open>0x1CCCCCCCCCCCCD * 2 ^ -53\<close>.\<close>

definition mul_0_9 :: "u64 \<Rightarrow> u64" where
  "mul_0_9 bytes = scale_to_u64 (round53 (round53 (unat bytes) * 0x1CCCCCCCCCCCCD)) (- 53)"

definition cpu_quota :: "f64 \<Rightarrow> u64" where
  "cpu_quota cpus =
     (let mant = unat (f64_bits cpus AND 0x000FFFFFFFFFFFFF);
          ex = unat (drop_bit 52 (f64_magnitude cpus))
      in if f64_is_nan cpus \<or> bit (f64_bits cpus) 63 then 0
         else if ex = 2047 then - 1
         else let m = (if ex = 0 then mant else mant + 2 ^ 52);
                  e = (if ex = 0 then - 1074 else int ex - 1075)
              in scale_to_u64 (round53 (m * 100000)) e)"

section \<open>The manager\<close>

record MemoryStats =
  mem_current :: u64
  mem_peak :: u64

record CpuStats =
  total_usec :: u64
  user_usec :: u64
  system_usec :: u64

record MemoryEvents =
  oom :: u64
  oom_kill :: u64
  oom_group_kill :: u64

record CgroupManager =
  cg_path :: string
  available_controllers :: "CgroupController list"
  cg_strategy :: CgroupStrategy

definition cg_read_file :: "kernel \<Rightarrow> CgroupManager \<Rightarrow> CgroupFile \<Rightarrow> string io prog" where
  "cg_read_file k cg file = read_to_string k (path_join (cg_path cg) (filename file))"

definition cg_write_file :: "kernel \<Rightarrow> CgroupManager \<Rightarrow> CgroupFile \<Rightarrow> string \<Rightarrow> unit io prog" where
  "cg_write_file k cg file v = fs_write k (path_join (cg_path cg) (filename file)) v"

definition require_controller :: "CgroupManager \<Rightarrow> CgroupController \<Rightarrow> unit result" where
  "require_controller cg c =
     (if c \<in> set (available_controllers cg) then Inr ()
      else Inl (SandboxError_new ErrorKind.Cgroup
        (''controller '' @ [CHR 0x27] @ controller_str c @ [CHR 0x27] @ '' not available. Available: ''
           @ join '', '' (map controller_str (available_controllers cg)))))"

definition create_root :: "kernel \<Rightarrow> string \<Rightarrow> string \<Rightarrow> CgroupController list \<Rightarrow> CgroupStrategy \<Rightarrow> CgroupManager result prog" where
  "create_root k base sandbox_id requested strategy = do {
     r \<leftarrow> create_dir_all k base;
     case r of
       Inl e \<Rightarrow> State_Monad.return (Inl (SandboxError_new ErrorKind.Cgroup
         (''failed to create cgroup: Failed to create base cgroup: '' @ io_display e)))
     | Inr _ \<Rightarrow> do {
         _ \<leftarrow> try_enable_controllers k CGROUP_ROOT requested;
         _ \<leftarrow> try_enable_controllers k base requested;
         let path = path_join base sandbox_id;
         r \<leftarrow> create_dir_all k path;
         case r of
           Inl e \<Rightarrow> State_Monad.return (Inl (SandboxError_new ErrorKind.Cgroup
             (''failed to create cgroup: Failed to create cgroup '' @ sandbox_id @ '': '' @ io_display e)))
         | Inr _ \<Rightarrow> do {
             controllers \<leftarrow> read_controllers k path;
             State_Monad.return (Inr \<lparr>cg_path = path, available_controllers = controllers, cg_strategy = strategy\<rparr>)
           }
       }
   }"

definition create_delegated :: "kernel \<Rightarrow> string \<Rightarrow> string \<Rightarrow> CgroupController list \<Rightarrow> CgroupStrategy \<Rightarrow> CgroupManager result prog" where
  "create_delegated k base sandbox_id requested strategy = do {
     _ \<leftarrow> try_enable_controllers k base requested;
     let nanobox_dir = path_join base NANOBOX_DIR;
     r \<leftarrow> create_dir k nanobox_dir;
     if (case r of Inl e \<Rightarrow> io_kind e \<noteq> AlreadyExists | Inr _ \<Rightarrow> False)
     then State_Monad.return (Inl (SandboxError_new ErrorKind.Cgroup
       (''failed to create cgroup: Failed to create libsandbox dir: '' @ io_display (projl r))))
     else do {
       _ \<leftarrow> try_enable_controllers k nanobox_dir requested;
       let path = path_join nanobox_dir sandbox_id;
       r \<leftarrow> create_dir k path;
       case r of
         Inl e \<Rightarrow> State_Monad.return (Inl (SandboxError_new ErrorKind.Cgroup
           (''failed to create cgroup: Failed to create cgroup '' @ sandbox_id @ '': '' @ io_display e)))
       | Inr _ \<Rightarrow> do {
           controllers \<leftarrow> read_controllers k path;
           State_Monad.return (Inr \<lparr>cg_path = path, available_controllers = controllers, cg_strategy = strategy\<rparr>)
         }
     }
   }"

definition CgroupManager_create :: "kernel \<Rightarrow> string \<Rightarrow> CgroupController list \<Rightarrow> CgroupManager result prog" where
  "CgroupManager_create k sandbox_id requested = do {
     strategy \<leftarrow> get_cgroup_strategy k;
     case strategy of
       Root base \<Rightarrow> create_root k base sandbox_id requested strategy
     | Delegated base \<Rightarrow> create_delegated k base sandbox_id requested strategy
     | CgUnavailable \<Rightarrow> State_Monad.return (Inl (SandboxError_new ErrorKind.Cgroup
         ''failed to create cgroup: No usable cgroup access. Non-root requires a writable, empty delegated cgroup v2 parent (for example a pre-prepared scope), or run as root, or omit unsupported resource limits.''))
   }"

definition set_memory_limit :: "kernel \<Rightarrow> CgroupManager \<Rightarrow> u64 \<Rightarrow> unit result prog" where
  "set_memory_limit k cg bytes =
     (case require_controller cg Memory of
        Inl e \<Rightarrow> State_Monad.return (Inl e)
      | Inr _ \<Rightarrow> do {
          r \<leftarrow> cg_write_file k cg MemoryMax (show_nat (unat bytes));
          case r of
            Inl e \<Rightarrow> State_Monad.return (Inl (SandboxError_new ErrorKind.Cgroup
              (''failed to set memory.max = '' @ show_nat (unat bytes) @ '': '' @ io_display e)))
          | Inr _ \<Rightarrow> do {
              _ \<leftarrow> cg_write_file k cg MemoryHigh (show_nat (unat (mul_0_9 bytes)));
              State_Monad.return (Inr ())
            }
        })"

definition set_cpu_limit :: "kernel \<Rightarrow> CgroupManager \<Rightarrow> f64 \<Rightarrow> unit result prog" where
  "set_cpu_limit k cg cpus =
     (case require_controller cg Cpu of
        Inl e \<Rightarrow> State_Monad.return (Inl e)
      | Inr _ \<Rightarrow> do {
          let v = show_nat (unat (cpu_quota cpus)) @ '' 100000'';
          r \<leftarrow> cg_write_file k cg CpuMax v;
          State_Monad.return (case r of
            Inl e \<Rightarrow> Inl (SandboxError_new ErrorKind.Cgroup (''failed to set cpu.max = '' @ v @ '': '' @ io_display e))
          | Inr _ \<Rightarrow> Inr ())
        })"

definition set_pids_limit :: "kernel \<Rightarrow> CgroupManager \<Rightarrow> u32 \<Rightarrow> unit result prog" where
  "set_pids_limit k cg mx =
     (case require_controller cg Pids of
        Inl e \<Rightarrow> State_Monad.return (Inl e)
      | Inr _ \<Rightarrow> do {
          r \<leftarrow> cg_write_file k cg PidsMax (show_nat (unat mx));
          State_Monad.return (case r of
            Inl e \<Rightarrow> Inl (SandboxError_new ErrorKind.Cgroup
              (''failed to set pids.max = '' @ show_nat (unat mx) @ '': '' @ io_display e))
          | Inr _ \<Rightarrow> Inr ())
        })"

definition add_process :: "kernel \<Rightarrow> CgroupManager \<Rightarrow> u32 \<Rightarrow> unit result prog" where
  "add_process k cg pid = do {
     r \<leftarrow> cg_write_file k cg Procs (show_nat (unat pid));
     State_Monad.return (case r of
       Inl e \<Rightarrow> Inl (SandboxError_new ErrorKind.Cgroup
         (''failed to create cgroup: Failed to add PID '' @ show_nat (unat pid) @ '' to cgroup: '' @ io_display e))
     | Inr _ \<Rightarrow> Inr ())
   }"

text \<open>\<open>s.trim().parse::<u64>().unwrap_or(0)\<close> and \<open>parts[1].parse().unwrap_or(0)\<close>.\<close>

definition parse_u64_or_0 :: "string \<Rightarrow> u64" where
  "parse_u64_or_0 s = (case parse_unsigned (2 ^ 64) s of Some n \<Rightarrow> of_nat n | None \<Rightarrow> 0)"

definition get_memory_stats :: "kernel \<Rightarrow> CgroupManager \<Rightarrow> MemoryStats result prog" where
  "get_memory_stats k cg = do {
     r \<leftarrow> cg_read_file k cg MemoryCurrent;
     case r of
       Inl e \<Rightarrow> State_Monad.return (Inl (SandboxError_new ErrorKind.Cgroup (''Failed to read memory.current: '' @ io_display e)))
     | Inr current \<Rightarrow> do {
         r \<leftarrow> cg_read_file k cg MemoryPeak;
         State_Monad.return (case r of
           Inl e \<Rightarrow> Inl (SandboxError_new ErrorKind.Cgroup (''Failed to read memory.peak: '' @ io_display e))
         | Inr peak \<Rightarrow> Inr \<lparr>mem_current = parse_u64_or_0 (trim current), mem_peak = parse_u64_or_0 (trim peak)\<rparr>)
       }
   }"

text \<open>The \<open>key value\<close> lines of \<open>cpu.stat\<close> and \<open>memory.events\<close>: the last line with a key counts.\<close>

definition stat_field :: "string \<Rightarrow> u64 \<Rightarrow> string list \<Rightarrow> u64" where
  "stat_field key cur parts =
     (if length parts \<ge> 2 \<and> parts ! 0 = key then parse_u64_or_0 (parts ! 1) else cur)"

definition cpu_stat_line :: "CpuStats \<Rightarrow> string \<Rightarrow> CpuStats" where
  "cpu_stat_line s line =
     (let parts = split_whitespace line
      in \<lparr>total_usec = stat_field ''usage_usec'' (total_usec s) parts,
          user_usec = stat_field ''user_usec'' (user_usec s) parts,
          system_usec = stat_field ''system_usec'' (system_usec s) parts\<rparr>)"

definition get_cpu_stats :: "kernel \<Rightarrow> CgroupManager \<Rightarrow> CpuStats result prog" where
  "get_cpu_stats k cg = do {
     r \<leftarrow> cg_read_file k cg CpuStat;
     State_Monad.return (case r of
       Inl e \<Rightarrow> Inl (SandboxError_new ErrorKind.Cgroup (''Failed to read cpu.stat: '' @ io_display e))
     | Inr stat \<Rightarrow> Inr (foldl cpu_stat_line \<lparr>total_usec = 0, user_usec = 0, system_usec = 0\<rparr> (str_lines stat)))
   }"

definition memory_events_line :: "MemoryEvents \<Rightarrow> string \<Rightarrow> MemoryEvents" where
  "memory_events_line s line =
     (let parts = split_whitespace line
      in \<lparr>oom = stat_field ''oom'' (oom s) parts, oom_kill = stat_field ''oom_kill'' (oom_kill s) parts,
          oom_group_kill = stat_field ''oom_group_kill'' (oom_group_kill s) parts\<rparr>)"

definition get_memory_events :: "kernel \<Rightarrow> CgroupManager \<Rightarrow> MemoryEvents result prog" where
  "get_memory_events k cg = do {
     r \<leftarrow> cg_read_file k cg MemoryEventsFile;
     State_Monad.return (case r of
       Inl e \<Rightarrow> Inl (SandboxError_new ErrorKind.Cgroup (''Failed to read memory.events: '' @ io_display e))
     | Inr ev \<Rightarrow> Inr (foldl memory_events_line \<lparr>oom = 0, oom_kill = 0, oom_group_kill = 0\<rparr> (str_lines ev)))
   }"

definition was_oom_killed :: "kernel \<Rightarrow> CgroupManager \<Rightarrow> bool prog" where
  "was_oom_killed k cg = do {
     r \<leftarrow> get_memory_events k cg;
     State_Monad.return (case r of Inl _ \<Rightarrow> False | Inr e \<Rightarrow> oom_kill e > 0 \<or> oom_group_kill e > 0)
   }"

definition procs_pids :: "string \<Rightarrow> u32 list" where
  "procs_pids s = map of_nat (List.map_filter (\<lambda>line. parse_unsigned (2 ^ 32) (trim line)) (str_lines s))"

definition get_pids :: "kernel \<Rightarrow> CgroupManager \<Rightarrow> u32 list prog" where
  "get_pids k cg = do {
     r \<leftarrow> cg_read_file k cg Procs;
     State_Monad.return (case r of
       Inl _ \<Rightarrow> []
     | Inr s \<Rightarrow> procs_pids s)
   }"


primrec kill_iterations :: "kernel \<Rightarrow> CgroupManager \<Rightarrow> nat \<Rightarrow> unit prog" where
  "kill_iterations k cg 0 = State_Monad.return ()"
| "kill_iterations k cg (Suc n) = do {
     pids \<leftarrow> get_pids k cg;
     if pids = [] then State_Monad.return ()
     else do {
       for_each (\<lambda>pid. kill k pid SIGKILL \<bind> (\<lambda>_. State_Monad.return ())) pids;
       sleep_ms 10;
       kill_iterations k cg n
     }
   }"

definition kill_all :: "kernel \<Rightarrow> CgroupManager \<Rightarrow> unit prog" where
  "kill_all k cg = do {
     r \<leftarrow> cg_write_file k cg Kill ''1'';
     if is_ok r then State_Monad.return ()
     else do {
       _ \<leftarrow> cg_write_file k cg Freeze ''1'';
       kill_iterations k cg 5;
       _ \<leftarrow> cg_write_file k cg Freeze ''0'';
       State_Monad.return ()
     }
   }"

primrec drain_iterations :: "kernel \<Rightarrow> CgroupManager \<Rightarrow> nat \<Rightarrow> unit prog" where
  "drain_iterations k cg 0 = State_Monad.return ()"
| "drain_iterations k cg (Suc n) = do {
     pids \<leftarrow> get_pids k cg;
     if pids = [] then State_Monad.return ()
     else do { sleep_ms 5; drain_iterations k cg n }
   }"

definition cleanup :: "kernel \<Rightarrow> CgroupManager \<Rightarrow> unit prog" where
  "cleanup k cg = do {
     kill_all k cg;
     drain_iterations k cg 20;
     _ \<leftarrow> remove_dir k (cg_path cg);
     State_Monad.return ()
   }"

text \<open>\<open>Drop for CgroupManager\<close>.\<close>

definition drop_cgroup :: "kernel \<Rightarrow> CgroupManager \<Rightarrow> unit prog" where
  "drop_cgroup k cg = cleanup k cg"

section \<open>Detection stays below the cgroup root\<close>

lemma probe_delegated_base_Some:
  "run_state (probe_delegated_base k p) w = (Some b, w') \<Longrightarrow> b = p"
  by (auto simp: probe_delegated_base_def run_simps split: if_splits)

definition below_root :: "string \<Rightarrow> bool" where
  "below_root p \<longleftrightarrow> path_starts_with p CGROUP_ROOT \<and> \<not> path_eq p CGROUP_ROOT"

lemma find_usable_below_root:
  "below_root p \<Longrightarrow> find_usable_base_loop k p w = (Some b, w') \<Longrightarrow> below_root b"
proof (induction k p w rule: find_usable_base_loop.induct)
  case (1 k p w)
  obtain probe w1 where run: "run_state (probe_delegated_base k p) w = (probe, w1)" by force
  show ?case
  proof (cases probe)
    case (Some b')
    with run 1 show ?thesis
      using probe_delegated_base_Some [of k p w b' w1] by (simp add: find_usable_base_loop.simps [of k p w])
  next
    case None
    with 1(3) run obtain up where up: "path_parent p = Some up" "below_root up"
      "find_usable_base_loop k up w1 = (Some b, w')"
      by (auto simp: find_usable_base_loop.simps [of k p w] below_root_def case_eqs split: if_splits)
    then show ?thesis
      using 1(1) [OF run [symmetric] refl None up(1)] by (auto simp: below_root_def)
  qed
qed

section \<open>Probing changes nothing\<close>

text \<open>Events that leave every control file and every process alone.\<close>

fun harmless :: "event \<Rightarrow> bool" where
  "harmless (WriteFile _ _ _) = False"
| "harmless (KillPid _ _ _) = False"
| "harmless (CreateDirAll _ _) = False"
| "harmless (Raw _ _) = False"
| "harmless (MakePipe _ _) = False"
| "harmless (ReadFd _ _ _) = False"
| "harmless (WaitPid _ _ _) = False"
| "harmless (ProxyStart _) = False"
| "harmless (ProxyStop _) = False"
| "harmless _ = True"

lemma emits_State_keep: "(\<And>w. trace (snd (f w)) = trace w) \<Longrightarrow> emits P (State f)"
  by (simp add: emits_def)

lemma probe_cgroup_writable_harmless: "emits harmless (probe_cgroup_writable k p)"
  unfolding probe_cgroup_writable_def call_defs Let_def by (intro emits_intros emits_State_keep) auto

lemma probe_delegated_base_harmless: "emits harmless (probe_delegated_base k p)"
  unfolding probe_delegated_base_def file_writable_def read_cgroup_type_def cgroup_is_populated_def call_defs
  by (intro emits_intros probe_cgroup_writable_harmless) auto

lemma find_usable_harmless:
  "\<exists>es. trace (snd (find_usable_base_loop k p w)) = trace w @ es \<and> list_all harmless es"
proof (induction k p w rule: find_usable_base_loop.induct)
  case (1 k p w)
  obtain probe w1 where run: "run_state (probe_delegated_base k p) w = (probe, w1)" by force
  obtain es where es: "trace w1 = trace w @ es" "list_all harmless es"
    using emits_run [OF probe_delegated_base_harmless run] by blast
  show ?case
  proof (cases "probe = None \<and> (\<exists>up. path_parent p = Some up \<and> below_root up)")
    case True
    then obtain up where up: "probe = None" "path_parent p = Some up" "below_root up" by blast
    then obtain fs where "trace (snd (find_usable_base_loop k up w1)) = trace w1 @ fs" "list_all harmless fs"
      using "1.IH" [OF run [symmetric] refl up(1,2)] by (auto simp: below_root_def)
    with es up run show ?thesis
      by (intro exI [of _ "es @ fs"]) (simp add: find_usable_base_loop.simps [of k p w] below_root_def)
  next
    case False
    with es run show ?thesis
      by (intro exI [of _ es])
        (auto simp: find_usable_base_loop.simps [of k p w] below_root_def split: option.splits)
  qed
qed

lemma find_usable_cgroup_base_harmless: "emits harmless (find_usable_cgroup_base k p)"
  unfolding emits_def find_usable_cgroup_base_def using find_usable_harmless by simp

lemma get_cgroup_strategy_harmless: "emits harmless (get_cgroup_strategy k)"
  unfolding get_cgroup_strategy_def detect_cgroup_strategy_def call_defs Let_def State_Monad.get_def
  by (intro emits_intros emits_State_keep find_usable_cgroup_base_harmless) auto

lemma probe_cgroup_support_harmless: "emits harmless (probe_cgroup_support k)"
proof -
  have cs: "emits P (case s of Root b \<Rightarrow> f b | Delegated b \<Rightarrow> g b | CgUnavailable \<Rightarrow> m)"
    if "\<And>b. emits P (f b)" "\<And>b. emits P (g b)" "emits P m" for P s and f g :: "string \<Rightarrow> CgroupSupport prog" and m
    using that by (cases s) simp_all
  show ?thesis
    unfolding probe_cgroup_support_def is_cgroup_v2_mounted_def read_controllers_def call_defs
    by (intro emits_intros cs get_cgroup_strategy_harmless) auto
qed

section \<open>Cleanup signals only members of the cgroup\<close>

definition kills_only_members :: "CgroupManager \<Rightarrow> event list \<Rightarrow> bool" where
  "kills_only_members cg es \<longleftrightarrow>
     (\<forall>pid sig ok. KillPid pid sig ok \<in> set es \<longrightarrow>
        sig = SIGKILL \<and> (\<exists>s. ReadFile (path_join (cg_path cg) ''cgroup.procs'') (Inr s) \<in> set es
                              \<and> pid \<in> set (procs_pids s)))"

interpretation members: event_monoid "kills_only_members cg"
  by unfold_locales (auto simp: kills_only_members_def, blast+)

lemma kills_only_members_single [simp]:
  "kills_only_members cg [ReadFile p r]" "kills_only_members cg [WriteFile p v u]"
  "kills_only_members cg [SleepMs n]" "kills_only_members cg [RemoveDir p u]"
  by (simp_all add: kills_only_members_def)

lemma kill_each_run:
  "\<exists>es. trace (snd (run_state (for_each (\<lambda>pid. kill k pid SIGKILL \<bind> (\<lambda>_. State_Monad.return ())) pids) w)) = trace w @ es
     \<and> (\<forall>e \<in> set es. \<exists>pid ok. e = KillPid pid SIGKILL ok \<and> pid \<in> set pids)"
proof (induction pids arbitrary: w)
  case (Cons p ps)
  obtain es where "trace (snd (run_state (for_each (\<lambda>pid. kill k pid SIGKILL \<bind> (\<lambda>_. State_Monad.return ())) ps)
        (log_event (KillPid p SIGKILL (k_kill k (trace w) p SIGKILL)) w)))
      = (trace w @ [KillPid p SIGKILL (k_kill k (trace w) p SIGKILL)]) @ es"
    "\<forall>e \<in> set es. \<exists>pid ok. e = KillPid pid SIGKILL ok \<and> pid \<in> set ps"
    using Cons [of "log_event (KillPid p SIGKILL (k_kill k (trace w) p SIGKILL)) w"] by auto
  then show ?case
    by (intro exI [of _ "KillPid p SIGKILL (k_kill k (trace w) p SIGKILL) # es"])
      (auto simp: run_state_bind kill_def syscall_def Let_def)
qed simp

lemma kill_iterations_members: "adds (kills_only_members cg) (kill_iterations k cg n)"
proof (induction n)
  case 0
  show ?case by (simp add: members.adds_return)
next
  case (Suc n)
  let ?f = "path_join (cg_path cg) ''cgroup.procs''"
  let ?kills = "for_each (\<lambda>pid. kill k pid SIGKILL \<bind> (\<lambda>_. State_Monad.return ()))"
  have rest: "adds (kills_only_members cg) (sleep_ms 10 \<bind> (\<lambda>_. kill_iterations k cg n))"
    using Suc unfolding sleep_ms_def
    by (intro members.adds_bind members.adds_syscall) simp_all
  have "adds (\<lambda>fs. kills_only_members cg ([ReadFile ?f r] @ fs))
      (?kills pids \<bind> (\<lambda>_. sleep_ms 10 \<bind> (\<lambda>_. kill_iterations k cg n)))"
    if "pids = (case r of Inl _ \<Rightarrow> [] | Inr s \<Rightarrow> procs_pids s)" for r pids
  proof (rule adds_bind_with)
    fix w u w'
    assume "run_state (?kills pids) w = (u, w')"
    then obtain es where es: "trace w' = trace w @ es"
      "\<forall>e \<in> set es. \<exists>pid ok. e = KillPid pid SIGKILL ok \<and> pid \<in> set pids"
      using kill_each_run [of k pids w] by auto
    have pre: "kills_only_members cg ([ReadFile ?f r] @ es)"
      using es(2) that by (auto simp: kills_only_members_def split: sum.splits)
    have "adds (\<lambda>fs. kills_only_members cg ([ReadFile ?f r] @ es @ fs))
        (sleep_ms 10 \<bind> (\<lambda>_. kill_iterations k cg n))"
      by (rule adds_mono [OF rest]) (use members.G_append [OF pre] in simp)
    with es(1) show "\<exists>es. trace w' = trace w @ es \<and> adds (\<lambda>fs. kills_only_members cg ([ReadFile ?f r] @ es @ fs))
        (sleep_ms 10 \<bind> (\<lambda>_. kill_iterations k cg n))" by blast
  qed
  moreover have "adds (\<lambda>fs. kills_only_members cg ([ReadFile ?f r] @ fs)) (State_Monad.return ())" for r
    by (simp add: adds_def kills_only_members_def)
  ultimately show ?case
    unfolding kill_iterations.simps
    by (intro adds_bind_with)
      (auto simp: get_pids_def cg_read_file_def call_defs run_simps split: if_splits)
qed

lemma cleanup_members: "adds (kills_only_members cg) (cleanup k cg)"
proof -
  have drain: "adds (kills_only_members cg) (drain_iterations k cg n)" for n
    by (induction n)
      (simp_all add: get_pids_def cg_read_file_def call_defs members.adds_intros)
  show ?thesis
    unfolding cleanup_def kill_all_def cg_write_file_def call_defs
    by (intro members.adds_intros drain kill_iterations_members) simp_all
qed

section \<open>A delegated base on a concrete kernel\<close>

definition delegating_kernel :: kernel where
  "delegating_kernel = granting_kernel\<lparr>k_geteuid := 1000,
     k_read_file := (\<lambda>h p. if ends_with ''cgroup.type'' p then Inr ''domain'' else Inr [])\<rparr>"

lemma demo_base_run:
  "\<exists>w'. run_state (find_usable_cgroup_base delegating_kernel ''/sys/fs/cgroup/user'') initial_world
     = (Some ''/sys/fs/cgroup/user'', w')"
proof -
  have ev: "trim ''domain'' = ''domain''" "populated_line (str_lines []) = None" "trim [] = []"
    by code_simp+
  have "wp (probe_delegated_base delegating_kernel ''/sys/fs/cgroup/user'')
     (\<lambda>r w'. r = Some ''/sys/fs/cgroup/user'') initial_world"
    by (simp add: probe_delegated_base_def probe_cgroup_writable_def file_writable_def read_cgroup_type_def
        cgroup_is_populated_def call_defs wp_simps delegating_kernel_def granting_kernel_def Let_def
        ends_with_def path_join_def unwrap_or_def ev)
  then obtain w' where "run_state (probe_delegated_base delegating_kernel ''/sys/fs/cgroup/user'') initial_world
     = (Some ''/sys/fs/cgroup/user'', w')"
    by (auto simp: wp_def split: prod.splits)
  then show ?thesis by (simp add: find_usable_cgroup_base_def find_usable_base_loop.simps)
qed

lemma demo_below_root: "below_root ''/sys/fs/cgroup/user''"
  by code_simp

section \<open>Properties\<close>

text \<open>C17: Probing cgroup support, which happens before any decision, only reads, tests for existence
  and writability, and creates and removes its own probe directories: it writes no control file
  and signals no process, for every kernel.\<close>

theorem probe_is_harmless:
  "list_all harmless (new_events w (snd (run_state (probe_cgroup_support k) w)))"
  using emits_run [OF probe_cgroup_support_harmless, of k w] new_events_append by (metis prod.collapse)



text \<open>C18: Cleaning up a cgroup, also when \<open>cgroup.kill\<close> is missing and the members are killed one by
  one, sends only \<open>SIGKILL\<close>, and only to process ids that were read from this cgroup's
  \<open>cgroup.procs\<close> during the cleanup.\<close>

theorem cleanup_kills_only_members:
  "kills_only_members cg (new_events w (snd (run_state (cleanup k cg) w)))"
  by (rule members.adds_events [OF cleanup_members])

end
