(* ===== verification/Cgroup_Limits.thy ===== *)
theory Cgroup_Limits
  imports Cgroup
begin

text \<open>
  Limit planning, cgroup configuration and metrics (\<open>src/cgroup/limits.rs\<close>). A \<open>CgroupManager\<close> that
  is not handed to the caller is dropped on the way out, and its \<open>Drop\<close> runs \<open>cleanup\<close>; the drops
  are written out where Rust inserts them.
\<close>

section \<open>Planning\<close>

datatype EnforcementMode = NotRequested | Strict | BestEffort

record LimitPlan =
  plan_memory :: EnforcementMode
  plan_cpu :: EnforcementMode
  plan_pids :: EnforcementMode

definition limit_mode :: "bool \<Rightarrow> bool \<Rightarrow> ResourceEnforcement \<Rightarrow> EnforcementMode" where
  "limit_mode configured explicit enforcement =
     (if \<not> configured then EnforcementMode.NotRequested
      else if explicit \<and> enforcement = ResourceEnforcement.Strict then EnforcementMode.Strict
      else EnforcementMode.BestEffort)"

definition LimitPlan_from :: "SandboxConfig \<Rightarrow> ExecutionPolicy \<Rightarrow> LimitPlan" where
  "LimitPlan_from cfg policy =
     \<lparr>plan_memory = limit_mode (memory_limit (resources cfg) \<noteq> None) (req_memory (policy_requests policy)) (policy_enforcement policy),
      plan_cpu = limit_mode (cpu_limit (resources cfg) \<noteq> None) (req_cpu (policy_requests policy)) (policy_enforcement policy),
      plan_pids = limit_mode (max_pids (resources cfg) \<noteq> None) (req_pids (policy_requests policy)) (policy_enforcement policy)\<rparr>"

definition first_strict_limit :: "LimitPlan \<Rightarrow> (string \<times> CgroupController) option" where
  "first_strict_limit p =
     (if plan_memory p = EnforcementMode.Strict then Some (''memory'', Memory)
      else if plan_cpu p = EnforcementMode.Strict then Some (''cpu'', Cpu)
      else if plan_pids p = EnforcementMode.Strict then Some (''pids'', Pids)
      else None)"

definition requested_controllers :: "LimitPlan \<Rightarrow> CgroupController list" where
  "requested_controllers p =
     (if plan_memory p \<noteq> EnforcementMode.NotRequested then [Memory] else [])
     @ (if plan_cpu p \<noteq> EnforcementMode.NotRequested then [Cpu] else [])
     @ (if plan_pids p \<noteq> EnforcementMode.NotRequested then [Pids] else [])"

section \<open>Configuration\<close>

definition config_needs_cgroup :: "SandboxConfig \<Rightarrow> bool" where
  "config_needs_cgroup cfg \<longleftrightarrow>
     memory_limit (resources cfg) \<noteq> None \<or> cpu_limit (resources cfg) \<noteq> None \<or> max_pids (resources cfg) \<noteq> None"

definition rootless_memory_required :: "kernel \<Rightarrow> SandboxConfig \<Rightarrow> bool" where
  "rootless_memory_required k cfg \<longleftrightarrow> memory_limit (resources cfg) \<noteq> None \<and> k_geteuid k \<noteq> 0"

definition limit_status :: "EnforcementMode \<Rightarrow> LimitStatus" where
  "limit_status mode =
     (case mode of
        EnforcementMode.NotRequested \<Rightarrow> LimitStatus.NotRequested
      | _ \<Rightarrow> LimitUnknown ''Limit requested but not evaluated yet'')"

definition handle_limit_error :: "LimitStatus \<Rightarrow> EnforcementMode \<Rightarrow> string \<Rightarrow> string \<Rightarrow> LimitStatus result" where
  "handle_limit_error st mode limit why =
     (case mode of
        EnforcementMode.Strict \<Rightarrow> Inl (resource limit why)
      | EnforcementMode.BestEffort \<Rightarrow> Inr (NotEnforced why)
      | EnforcementMode.NotRequested \<Rightarrow> Inr st)"

definition set_best_effort_unavailable :: "LimitDiagnostics \<Rightarrow> LimitPlan \<Rightarrow> string \<Rightarrow> LimitDiagnostics" where
  "set_best_effort_unavailable d p why =
     (let d = (if plan_memory p = EnforcementMode.BestEffort then d\<lparr>lim_memory := NotEnforced why\<rparr> else d);
          d = (if plan_cpu p = EnforcementMode.BestEffort then d\<lparr>lim_cpu := NotEnforced why\<rparr> else d);
          d = (if plan_pids p = EnforcementMode.BestEffort then d\<lparr>lim_pids := NotEnforced why\<rparr> else d)
      in d)"

text \<open>The three limit-setting blocks: \<open>Inr (configured, status)\<close>, or the error to return.\<close>

definition configure_memory :: "kernel \<Rightarrow> SandboxConfig \<Rightarrow> LimitPlan \<Rightarrow> CgroupManager \<Rightarrow> LimitStatus \<Rightarrow> (bool \<times> LimitStatus) result prog" where
  "configure_memory k cfg plan cg st =
     (case memory_limit (resources cfg) of
        None \<Rightarrow> State_Monad.return (Inr (False, st))
      | Some bytes \<Rightarrow> do {
          r \<leftarrow> set_memory_limit k cg bytes;
          State_Monad.return (case r of
            Inr _ \<Rightarrow> Inr (True, st)
          | Inl e \<Rightarrow>
              if rootless_memory_required k cfg then Inl (resource ''memory'' (SandboxError_fmt e))
              else map_sum id (Pair False) (handle_limit_error st (plan_memory plan) ''memory'' (SandboxError_fmt e)))
        })"

definition configure_cpu :: "kernel \<Rightarrow> SandboxConfig \<Rightarrow> LimitPlan \<Rightarrow> CgroupManager \<Rightarrow> LimitStatus \<Rightarrow> (bool \<times> LimitStatus) result prog" where
  "configure_cpu k cfg plan cg st =
     (case cpu_limit (resources cfg) of
        None \<Rightarrow> State_Monad.return (Inr (False, st))
      | Some cpus \<Rightarrow> do {
          r \<leftarrow> set_cpu_limit k cg cpus;
          State_Monad.return (case r of
            Inr _ \<Rightarrow> Inr (True, st)
          | Inl e \<Rightarrow> map_sum id (Pair False) (handle_limit_error st (plan_cpu plan) ''cpu'' (SandboxError_fmt e)))
        })"

definition configure_pids :: "kernel \<Rightarrow> SandboxConfig \<Rightarrow> LimitPlan \<Rightarrow> CgroupManager \<Rightarrow> LimitStatus \<Rightarrow> (bool \<times> LimitStatus) result prog" where
  "configure_pids k cfg plan cg st =
     (case max_pids (resources cfg) of
        None \<Rightarrow> State_Monad.return (Inr (False, st))
      | Some mx \<Rightarrow> do {
          r \<leftarrow> set_pids_limit k cg mx;
          State_Monad.return (case r of
            Inr _ \<Rightarrow> Inr (True, st)
          | Inl e \<Rightarrow> map_sum id (Pair False) (handle_limit_error st (plan_pids plan) ''pids'' (SandboxError_fmt e)))
        })"

text \<open>An early return after the manager exists drops it.\<close>

definition fail_dropping :: "kernel \<Rightarrow> CgroupManager \<Rightarrow> SandboxError \<Rightarrow> 'a result prog" where
  "fail_dropping k cg e = do { drop_cgroup k cg; State_Monad.return (Inl e) }"

text \<open>The statuses of the limits that were configured, set to the outcome of the attachment.\<close>

definition mark_configured :: "bool \<Rightarrow> bool \<Rightarrow> bool \<Rightarrow> LimitStatus \<Rightarrow> LimitDiagnostics \<Rightarrow> LimitDiagnostics" where
  "mark_configured mem_ok cpu_ok pids_ok st d =
     (let d = (if mem_ok then d\<lparr>lim_memory := st\<rparr> else d);
          d = (if cpu_ok then d\<lparr>lim_cpu := st\<rparr> else d);
          d = (if pids_ok then d\<lparr>lim_pids := st\<rparr> else d)
      in d)"

definition attach_process ::
  "kernel \<Rightarrow> SandboxConfig \<Rightarrow> LimitPlan \<Rightarrow> u32 \<Rightarrow> CgroupManager \<Rightarrow> bool \<Rightarrow> bool \<Rightarrow> bool \<Rightarrow> LimitDiagnostics
     \<Rightarrow> (CgroupManager option \<times> LimitDiagnostics) result prog" where
  "attach_process k cfg plan child_pid cg mem_ok cpu_ok pids_ok d = do {
     r \<leftarrow> add_process k cg child_pid;
     case r of
       Inl e \<Rightarrow> do {
         let why = ''failed to add process to cgroup: '' @ SandboxError_fmt e;
         if rootless_memory_required k cfg
         then do { cleanup k cg; fail_dropping k cg (resource ''memory'' why) }
         else case first_strict_limit plan of
           Some (limit, _) \<Rightarrow> do { cleanup k cg; fail_dropping k cg (resource limit why) }
         | None \<Rightarrow> do {
             let d = mark_configured mem_ok cpu_ok pids_ok (NotEnforced why) d;
             cleanup k cg;
             drop_cgroup k cg;
             State_Monad.return (Inr (None, d))
           }
       }
     | Inr _ \<Rightarrow> State_Monad.return (Inr (Some cg, mark_configured mem_ok cpu_ok pids_ok Enforced d))
   }"

text \<open>The part of \<open>configure_cgroup\<close> that runs once the cgroup exists.\<close>

definition apply_limits ::
  "kernel \<Rightarrow> SandboxConfig \<Rightarrow> LimitPlan \<Rightarrow> u32 \<Rightarrow> LimitDiagnostics \<Rightarrow> CgroupManager
     \<Rightarrow> (CgroupManager option \<times> LimitDiagnostics) result prog" where
  "apply_limits k cfg plan child_pid d cg = do {
     m \<leftarrow> configure_memory k cfg plan cg (lim_memory d);
     case m of
       Inl e \<Rightarrow> fail_dropping k cg e
     | Inr (mem_ok, mem_st) \<Rightarrow> do {
         c \<leftarrow> configure_cpu k cfg plan cg (lim_cpu d);
         case c of
           Inl e \<Rightarrow> fail_dropping k cg e
         | Inr (cpu_ok, cpu_st) \<Rightarrow> do {
             p \<leftarrow> configure_pids k cfg plan cg (lim_pids d);
             case p of
               Inl e \<Rightarrow> fail_dropping k cg e
             | Inr (pids_ok, pids_st) \<Rightarrow>
                 attach_process k cfg plan child_pid cg mem_ok cpu_ok pids_ok
                   \<lparr>lim_memory = mem_st, lim_cpu = cpu_st, lim_pids = pids_st\<rparr>
           }
       }
   }"

definition initial_diagnostics :: "LimitPlan \<Rightarrow> LimitDiagnostics" where
  "initial_diagnostics plan =
     \<lparr>lim_memory = limit_status (plan_memory plan), lim_cpu = limit_status (plan_cpu plan),
      lim_pids = limit_status (plan_pids plan)\<rparr>"

definition configure_cgroup ::
  "kernel \<Rightarrow> SandboxConfig \<Rightarrow> LimitPlan \<Rightarrow> string \<Rightarrow> u32 \<Rightarrow> (CgroupManager option \<times> LimitDiagnostics) result prog" where
  "configure_cgroup k cfg plan sandbox_id child_pid = do {
     support \<leftarrow> probe_cgroup_support k;
     let d = initial_diagnostics plan;
     if \<not> mounted support \<or> \<not> accessible support then
       State_Monad.return
         (if rootless_memory_required k cfg
          then Inl (resource ''memory'' (unavailable_reason support (Some Memory)))
          else case first_strict_limit plan of
                 Some (limit, c) \<Rightarrow> Inl (resource limit (unavailable_reason support (Some c)))
               | None \<Rightarrow> Inr (None, set_best_effort_unavailable d plan (unavailable_reason support None)))
     else do {
       created \<leftarrow> CgroupManager_create k sandbox_id (requested_controllers plan);
       case created of
         Inl e \<Rightarrow> do {
           let why = ''failed to create cgroup: '' @ SandboxError_fmt e;
           State_Monad.return
             (if rootless_memory_required k cfg then Inl (resource ''memory'' why)
              else case first_strict_limit plan of
                     Some (limit, _) \<Rightarrow> Inl (resource limit why)
                   | None \<Rightarrow> Inr (None, set_best_effort_unavailable d plan why))
         }
       | Inr cg \<Rightarrow> apply_limits k cfg plan child_pid d cg
     }
   }"

section \<open>Metrics\<close>

text \<open>\<open>Duration::from_micros\<close>.\<close>

definition from_micros :: "u64 \<Rightarrow> Duration" where
  "from_micros us = \<lparr>as_secs = us div 1000000, subsec_nanos = ucast (us mod 1000000) * 1000\<rparr>"

definition collect_linux_metrics ::
  "kernel \<Rightarrow> CgroupManager option \<Rightarrow> (u64 option \<times> Duration option \<times> bool \<times> MetricDiagnostics) prog" where
  "collect_linux_metrics k cgroup =
     (case cgroup of
        Some cg \<Rightarrow> do {
          m \<leftarrow> get_memory_stats k cg;
          c \<leftarrow> get_cpu_stats k cg;
          oom \<leftarrow> was_oom_killed k cg;
          State_Monad.return
            ((case m of Inr s \<Rightarrow> Some (mem_peak s) | Inl _ \<Rightarrow> None),
             (case c of Inr s \<Rightarrow> Some (from_micros (total_usec s)) | Inl _ \<Rightarrow> None),
             oom,
             \<lparr>met_peak_memory = (case m of Inr _ \<Rightarrow> Collected | Inl e \<Rightarrow> Unavailable (SandboxError_fmt e)),
              met_cpu_time = (case c of Inr _ \<Rightarrow> Collected | Inl e \<Rightarrow> Unavailable (SandboxError_fmt e))\<rparr>)
        }
      | None \<Rightarrow> State_Monad.return
          (None, None, False,
           \<lparr>met_peak_memory = Unavailable ''peak memory collection requires a cgroup-backed execution path on Linux'',
            met_cpu_time = Unavailable ''cpu time collection requires a cgroup-backed execution path on Linux''\<rparr>))"

section \<open>Outcome of each step\<close>

text \<open>The status a limit has when configuration ends.\<close>

definition settled :: "EnforcementMode \<Rightarrow> LimitStatus \<Rightarrow> CgroupManager option \<Rightarrow> bool" where
  "settled mode st mgr \<longleftrightarrow>
     (case mode of
        EnforcementMode.NotRequested \<Rightarrow> st = LimitStatus.NotRequested
      | EnforcementMode.Strict \<Rightarrow> st = Enforced \<and> mgr \<noteq> None
      | EnforcementMode.BestEffort \<Rightarrow> (st = Enforced \<and> mgr \<noteq> None) \<or> (\<exists>why. st = NotEnforced why))"

text \<open>The status after a configuration step: untouched and marked configured, or, unconfigured, the
  final best-effort status.\<close>

definition step_ok :: "EnforcementMode \<Rightarrow> LimitStatus \<Rightarrow> bool \<Rightarrow> LimitStatus \<Rightarrow> bool" where
  "step_ok mode st0 ok st \<longleftrightarrow>
     (if ok then st = st0 \<and> mode \<noteq> EnforcementMode.NotRequested
      else case mode of
        EnforcementMode.NotRequested \<Rightarrow> st = st0
      | EnforcementMode.Strict \<Rightarrow> False
      | EnforcementMode.BestEffort \<Rightarrow> (\<exists>why. st = NotEnforced why))"

lemma no_true_from_error [simp]: "map_sum id (Pair False) r \<noteq> Inr (True, s)"
  by (cases r) auto

lemma handle_limit_error_ok:
  "mode \<noteq> EnforcementMode.NotRequested \<Longrightarrow> map_sum id (Pair False) (handle_limit_error st0 mode l why) = Inr (ok, st) \<Longrightarrow>
   \<not> ok \<and> step_ok mode st0 ok st"
  by (cases mode) (auto simp: handle_limit_error_def step_ok_def)

lemma handle_limit_error_err:
  "map_sum id (Pair False) (handle_limit_error st0 mode l why) = Inl e \<Longrightarrow> kind e = ErrorKind.Resource"
  by (cases mode) (auto simp: handle_limit_error_def)

lemma limit_mode_None_iff [simp]: "limit_mode c x f = EnforcementMode.NotRequested \<longleftrightarrow> \<not> c"
  by (simp add: limit_mode_def)

section \<open>The contract of a limit operation\<close>

text \<open>Setting a limit succeeds only if the value was written to the limit's control file, and a
  failure is a cgroup error. The three operations of the manager keep this contract.\<close>

locale limit_op =
  fixes op :: "kernel \<Rightarrow> CgroupManager \<Rightarrow> 'v \<Rightarrow> unit result prog"
    and ctl_file :: CgroupFile
    and val :: "'v \<Rightarrow> string"
  assumes op_appends: "appends (op k cg v)"
    and op_written: "run_state (op k cg v) w = (Inr (), w') \<Longrightarrow>
      WriteFile (path_join (cg_path cg) (filename ctl_file)) (val v) (Inr ()) \<in> set (new_events w w')"
begin

text \<open>A configuration step that reports the limit as configured wrote it.\<close>

lemma step_written:
  assumes "run_state (case lim of None \<Rightarrow> State_Monad.return (Inr (False, st))
       | Some v \<Rightarrow> op k cg v \<bind> (\<lambda>r. State_Monad.return
           (case r of Inl e \<Rightarrow> h e | Inr _ \<Rightarrow> Inr (True, st)))) w = (Inr (True, st'), w')"
    and "\<And>e s. h e \<noteq> Inr (True, s)"
  shows "\<exists>v. lim = Some v \<and>
    WriteFile (path_join (cg_path cg) (filename ctl_file)) (val v) (Inr ()) \<in> set (new_events w w')"
proof (cases lim)
  case None
  with assms(1) show ?thesis by (simp add: run_simps)
next
  case (Some v)
  with assms(1) obtain r where r: "run_state (op k cg v) w = (r, w')"
    and c: "(case r of Inl e \<Rightarrow> h e | Inr _ \<Rightarrow> Inr (True, st)) = Inr (True, st')"
    by (auto simp: run_simps)
  have "r = Inr ()" using c assms(2) by (cases r) auto
  with Some r op_written show ?thesis by blast
qed

lemma step_settles:
  assumes "run_state (case lim of None \<Rightarrow> State_Monad.return (Inr (False, st0))
       | Some v \<Rightarrow> op k cg v \<bind> (\<lambda>r. State_Monad.return
           (case r of Inl e \<Rightarrow> h e | Inr _ \<Rightarrow> Inr (True, st0)))) w = (Inr (ok, st), w')"
    and mode: "mode = EnforcementMode.NotRequested \<longleftrightarrow> lim = None"
    and h: "\<And>e. mode \<noteq> EnforcementMode.NotRequested \<Longrightarrow> h e = Inr (ok, st) \<Longrightarrow> \<not> ok \<and> step_ok mode st0 ok st"
  shows "step_ok mode st0 ok st"
proof (cases lim)
  case None
  with assms(1) mode show ?thesis by (simp add: run_simps step_ok_def)
next
  case (Some v)
  with assms(1) obtain r where "run_state (op k cg v) w = (r, w')"
    and c: "(case r of Inl e \<Rightarrow> h e | Inr _ \<Rightarrow> Inr (True, st0)) = Inr (ok, st)"
    by (simp add: run_simps) blast
  show ?thesis using c h mode Some by (cases r) (auto simp: step_ok_def)
qed

end

lemma run_if_distrib: "run_state (if b then m else n) w = (if b then run_state m w else run_state n w)"
  by simp

lemma set_memory_limit_appends: "appends (set_memory_limit k cg v)"
  unfolding set_memory_limit_def cg_write_file_def call_defs by (intro emits_intros) auto

lemma set_cpu_limit_appends: "appends (set_cpu_limit k cg v)"
  unfolding set_cpu_limit_def cg_write_file_def call_defs Let_def by (intro emits_intros) auto

lemma set_pids_limit_appends: "appends (set_pids_limit k cg v)"
  unfolding set_pids_limit_def cg_write_file_def call_defs by (intro emits_intros) auto

interpretation memory: limit_op set_memory_limit MemoryMax "\<lambda>b. show_nat (unat b)"
proof
  show "appends (set_memory_limit k cg v)" for k cg v by (rule set_memory_limit_appends)
qed (auto simp: set_memory_limit_def cg_write_file_def call_defs run_simps new_events_def
    split: sum.splits)

interpretation cpu: limit_op set_cpu_limit CpuMax "\<lambda>c. show_nat (unat (cpu_quota c)) @ '' 100000''"
proof
  show "appends (set_cpu_limit k cg v)" for k cg v by (rule set_cpu_limit_appends)
qed (auto simp: set_cpu_limit_def cg_write_file_def call_defs run_simps new_events_def Let_def
    split: sum.splits)

interpretation pids: limit_op set_pids_limit PidsMax "\<lambda>n. show_nat (unat n)"
proof
  show "appends (set_pids_limit k cg v)" for k cg v by (rule set_pids_limit_appends)
qed (auto simp: set_pids_limit_def cg_write_file_def call_defs run_simps new_events_def
    split: sum.splits)

section \<open>Outcome of the three steps\<close>

lemma configure_memory_ok:
  assumes "run_state (configure_memory k cfg (LimitPlan_from cfg policy) cg st0) w = (Inr (ok, st), w')"
  shows "step_ok (plan_memory (LimitPlan_from cfg policy)) st0 ok st"
  using assms unfolding configure_memory_def
  by (rule memory.step_settles) (auto simp: LimitPlan_from_def handle_limit_error_ok split: if_splits)

lemma configure_cpu_ok:
  assumes "run_state (configure_cpu k cfg (LimitPlan_from cfg policy) cg st0) w = (Inr (ok, st), w')"
  shows "step_ok (plan_cpu (LimitPlan_from cfg policy)) st0 ok st"
  using assms unfolding configure_cpu_def
  by (rule cpu.step_settles) (auto simp: LimitPlan_from_def handle_limit_error_ok)

lemma configure_pids_ok:
  assumes "run_state (configure_pids k cfg (LimitPlan_from cfg policy) cg st0) w = (Inr (ok, st), w')"
  shows "step_ok (plan_pids (LimitPlan_from cfg policy)) st0 ok st"
  using assms unfolding configure_pids_def
  by (rule pids.step_settles) (auto simp: LimitPlan_from_def handle_limit_error_ok)

text \<open>Without root, a memory limit that could not be set is an error whatever the plan says.\<close>

lemma configure_memory_rootless:
  assumes "run_state (configure_memory k cfg plan cg st0) w = (Inr (ok, st), w')" "rootless_memory_required k cfg"
  shows "ok \<and> st = st0"
  using assms by (auto simp: configure_memory_def rootless_memory_required_def run_simps split: sum.splits)

lemma configure_memory_written:
  assumes "run_state (configure_memory k cfg plan cg st0) w = (Inr (True, st), w')"
  shows "\<exists>v. memory_limit (resources cfg) = Some v \<and>
    WriteFile (path_join (cg_path cg) ''memory.max'') (show_nat (unat v)) (Inr ()) \<in> set (new_events w w')"
  using memory.step_written [OF assms [unfolded configure_memory_def]] by simp

lemma configure_cpu_written:
  assumes "run_state (configure_cpu k cfg plan cg st0) w = (Inr (True, st), w')"
  shows "\<exists>v. cpu_limit (resources cfg) = Some v \<and>
    WriteFile (path_join (cg_path cg) ''cpu.max'') (show_nat (unat (cpu_quota v)) @ '' 100000'') (Inr ()) \<in> set (new_events w w')"
  using cpu.step_written [OF assms [unfolded configure_cpu_def]] by simp

lemma configure_pids_written:
  assumes "run_state (configure_pids k cfg plan cg st0) w = (Inr (True, st), w')"
  shows "\<exists>v. max_pids (resources cfg) = Some v \<and>
    WriteFile (path_join (cg_path cg) ''pids.max'') (show_nat (unat v)) (Inr ()) \<in> set (new_events w w')"
  using pids.step_written [OF assms [unfolded configure_pids_def]] by simp

section \<open>Cleanup and attachment\<close>

definition ends_removed :: "CgroupManager \<Rightarrow> world \<Rightarrow> bool" where
  "ends_removed cg w \<longleftrightarrow> (\<exists>res. trace w \<noteq> [] \<and> last (trace w) = RemoveDir (cg_path cg) res)"

lemma cleanup_removes: "run_state (cleanup k cg) w = (u, w') \<Longrightarrow> ends_removed cg w'"
  by (auto simp: cleanup_def call_defs run_simps ends_removed_def)

lemma fail_dropping_removes:
  "run_state (fail_dropping k cg e) w = (r, w') \<Longrightarrow> r = Inl e \<and> ends_removed cg w'"
  by (auto simp: fail_dropping_def drop_cgroup_def run_simps dest: cleanup_removes)

lemma mark_configured_sel [simp]:
  "lim_memory (mark_configured mo co po st d) = (if mo then st else lim_memory d)"
  "lim_cpu (mark_configured mo co po st d) = (if co then st else lim_cpu d)"
  "lim_pids (mark_configured mo co po st d) = (if po then st else lim_pids d)"
  by (simp_all add: mark_configured_def Let_def)

lemma attach_process_cases:
  assumes "run_state (attach_process k cfg plan pid cg mo co po d) w = (r, w')"
  shows "(r = Inr (Some cg, mark_configured mo co po Enforced d)
          \<and> trace w' = trace w @ [WriteFile (path_join (cg_path cg) ''cgroup.procs'') (show_nat (unat pid)) (Inr ())])
    \<or> (\<exists>why. \<not> rootless_memory_required k cfg \<and> first_strict_limit plan = None
          \<and> r = Inr (None, mark_configured mo co po (NotEnforced why) d) \<and> ends_removed cg w')
    \<or> (\<exists>e. r = Inl e \<and> kind e = ErrorKind.Resource \<and> ends_removed cg w')"
proof -
  obtain a w1 where a: "run_state (add_process k cg pid) w = (a, w1)" by force
  show ?thesis
  proof (cases a)
    case (Inr u)
    then have "trace w1 = trace w @ [WriteFile (path_join (cg_path cg) ''cgroup.procs'') (show_nat (unat pid)) (Inr ())]"
      using a by (auto simp: add_process_def cg_write_file_def call_defs run_simps split: sum.splits)
    then show ?thesis
      using assms a Inr by (simp add: attach_process_def run_simps Let_def)
  next
    case (Inl e)
    then show ?thesis
      using assms a
      by (auto simp: attach_process_def run_simps Let_def drop_cgroup_def split: option.splits if_splits
          dest!: fail_dropping_removes cleanup_removes)
  qed
qed

section \<open>Configuration as a whole\<close>

lemma settled_unavailable:
  assumes "first_strict_limit plan = None"
    and "d = set_best_effort_unavailable (initial_diagnostics plan) plan why"
  shows "settled (plan_memory plan) (lim_memory d) None \<and> settled (plan_cpu plan) (lim_cpu d) None
    \<and> settled (plan_pids plan) (lim_pids d) None"
  using assms
  by (cases "plan_memory plan"; cases "plan_cpu plan"; cases "plan_pids plan")
    (simp_all add: first_strict_limit_def set_best_effort_unavailable_def settled_def limit_status_def initial_diagnostics_def Let_def)

lemma settled_attached:
  assumes "step_ok mode (limit_status mode) ok st"
  shows "settled mode (if ok then Enforced else st) (Some cg)"
  using assms by (cases mode) (auto simp: step_ok_def settled_def limit_status_def split: if_splits)

lemma settled_detached:
  assumes "step_ok mode (limit_status mode) ok st" "mode \<noteq> EnforcementMode.Strict"
  shows "settled mode (if ok then NotEnforced why else st) None"
  using assms by (cases mode) (auto simp: step_ok_def settled_def limit_status_def split: if_splits)

lemma no_strict:
  "first_strict_limit plan = None \<longleftrightarrow> plan_memory plan \<noteq> EnforcementMode.Strict
     \<and> plan_cpu plan \<noteq> EnforcementMode.Strict \<and> plan_pids plan \<noteq> EnforcementMode.Strict"
  by (simp add: first_strict_limit_def)

text \<open>Errors of the three steps are resource errors.\<close>

lemma handle_limit_error_resource [simp]:
  "map_sum id (Pair False) (handle_limit_error st mode l why) = Inl e \<Longrightarrow> kind e = ErrorKind.Resource"
  by (rule handle_limit_error_err)

lemma step_error_kind:
  "run_state (configure_memory k cfg plan cg st) w = (Inl e, w') \<Longrightarrow> kind e = ErrorKind.Resource"
  "run_state (configure_cpu k cfg plan cg st) w = (Inl e, w') \<Longrightarrow> kind e = ErrorKind.Resource"
  "run_state (configure_pids k cfg plan cg st) w = (Inl e, w') \<Longrightarrow> kind e = ErrorKind.Resource"
  by (auto simp: configure_memory_def configure_cpu_def configure_pids_def run_simps case_eqs
      split: if_splits dest: sym)

lemma apply_limits_cases:
  assumes "run_state (apply_limits k cfg plan pid d cg) w = (r, w')"
  shows "(\<exists>mo ms co cs po ps w1 w2 w3.
            run_state (configure_memory k cfg plan cg (lim_memory d)) w = (Inr (mo, ms), w1)
          \<and> run_state (configure_cpu k cfg plan cg (lim_cpu d)) w1 = (Inr (co, cs), w2)
          \<and> run_state (configure_pids k cfg plan cg (lim_pids d)) w2 = (Inr (po, ps), w3)
          \<and> run_state (attach_process k cfg plan pid cg mo co po
               \<lparr>lim_memory = ms, lim_cpu = cs, lim_pids = ps\<rparr>) w3 = (r, w'))
    \<or> (\<exists>e. r = Inl e \<and> kind e = ErrorKind.Resource \<and> ends_removed cg w')"
  using assms
  by (auto simp: apply_limits_def run_simps dest!: fail_dropping_removes dest: step_error_kind)

lemma configure_cgroup_cases:
  assumes "run_state (configure_cgroup k cfg plan sid pid) w = (r, w')"
  obtains (err) e where "r = Inl e" "kind e = ErrorKind.Resource"
    | (none) why where "r = Inr (None, set_best_effort_unavailable (initial_diagnostics plan) plan why)"
        "\<not> rootless_memory_required k cfg" "first_strict_limit plan = None"
    | (applied) cg s w1 w2 where "run_state (probe_cgroup_support k) w = (s, w1)"
        "run_state (CgroupManager_create k sid (requested_controllers plan)) w1 = (Inr cg, w2)"
        "run_state (apply_limits k cfg plan pid (initial_diagnostics plan) cg) w2 = (r, w')"
  using assms
  by (auto simp: configure_cgroup_def run_simps case_eqs Let_def split: if_splits)

text \<open>Every cgroup program only appends to the trace.\<close>

lemma configure_appends:
  "appends (configure_memory k cfg plan cg st)" "appends (configure_cpu k cfg plan cg st)"
  "appends (configure_pids k cfg plan cg st)"
  unfolding configure_memory_def configure_cpu_def configure_pids_def
  by (intro emits_intros memory.op_appends cpu.op_appends pids.op_appends)+

lemma new_events_trans:
  assumes "trace w1 = trace w @ a" "trace w2 = trace w1 @ b"
  shows "trace w2 = trace w @ (a @ b)"
  using assms by simp

lemma handle_not_enforced:
  "map_sum id (Pair False) (handle_limit_error st mode l why) = Inr (ok, st') \<Longrightarrow> st \<noteq> Enforced \<Longrightarrow> st' \<noteq> Enforced"
  by (cases mode) (auto simp: handle_limit_error_def)

lemma step_not_enforced:
  "run_state (configure_memory k cfg plan cg st) w = (Inr (ok, st'), w') \<Longrightarrow> st \<noteq> Enforced \<Longrightarrow> st' \<noteq> Enforced"
  "run_state (configure_cpu k cfg plan cg st) w = (Inr (ok, st'), w') \<Longrightarrow> st \<noteq> Enforced \<Longrightarrow> st' \<noteq> Enforced"
  "run_state (configure_pids k cfg plan cg st) w = (Inr (ok, st'), w') \<Longrightarrow> st \<noteq> Enforced \<Longrightarrow> st' \<noteq> Enforced"
  unfolding configure_memory_def configure_cpu_def configure_pids_def
  by (auto simp: run_simps case_eqs split: if_splits dest: handle_not_enforced dest!: sym [of "Inr _"])

text \<open>What an attached cgroup means: the limits that are reported as enforced were written before
  the process was attached, and attaching it was the last thing done.\<close>

lemma apply_limits_attached:
  assumes run: "run_state (apply_limits k cfg plan pid d cg) w = (Inr (Some cg', d'), w')"
    and d: "lim_memory d \<noteq> Enforced" "lim_cpu d \<noteq> Enforced" "lim_pids d \<noteq> Enforced"
  shows "cg' = cg \<and> (\<exists>es. trace w' = trace w @ es @ [WriteFile (path_join (cg_path cg) ''cgroup.procs'') (show_nat (unat pid)) (Inr ())]
    \<and> (lim_memory d' = Enforced \<longrightarrow> (\<exists>v. memory_limit (resources cfg) = Some v \<and>
         WriteFile (path_join (cg_path cg) ''memory.max'') (show_nat (unat v)) (Inr ()) \<in> set es))
    \<and> (lim_cpu d' = Enforced \<longrightarrow> (\<exists>v. cpu_limit (resources cfg) = Some v \<and>
         WriteFile (path_join (cg_path cg) ''cpu.max'') (show_nat (unat (cpu_quota v)) @ '' 100000'') (Inr ()) \<in> set es))
    \<and> (lim_pids d' = Enforced \<longrightarrow> (\<exists>v. max_pids (resources cfg) = Some v \<and>
         WriteFile (path_join (cg_path cg) ''pids.max'') (show_nat (unat v)) (Inr ()) \<in> set es)))"
proof -
  obtain mo ms co cs po ps w1 w2 w3 where
      m: "run_state (configure_memory k cfg plan cg (lim_memory d)) w = (Inr (mo, ms), w1)"
    and c: "run_state (configure_cpu k cfg plan cg (lim_cpu d)) w1 = (Inr (co, cs), w2)"
    and p: "run_state (configure_pids k cfg plan cg (lim_pids d)) w2 = (Inr (po, ps), w3)"
    and a: "run_state (attach_process k cfg plan pid cg mo co po
               \<lparr>lim_memory = ms, lim_cpu = cs, lim_pids = ps\<rparr>) w3 = (Inr (Some cg', d'), w')"
    using apply_limits_cases [OF run] by auto
  have t: "trace w1 = trace w @ new_events w w1" "trace w2 = trace w1 @ new_events w1 w2"
    "trace w3 = trace w2 @ new_events w2 w3"
    using m c p by (blast intro: appends_new_events configure_appends)+
  have at: "cg' = cg" "d' = mark_configured mo co po Enforced \<lparr>lim_memory = ms, lim_cpu = cs, lim_pids = ps\<rparr>"
    "trace w' = trace w3 @ [WriteFile (path_join (cg_path cg) ''cgroup.procs'') (show_nat (unat pid)) (Inr ())]"
    using attach_process_cases [OF a] by auto
  have ms: "ms \<noteq> Enforced" "cs \<noteq> Enforced" "ps \<noteq> Enforced"
    using step_not_enforced(1) [OF m d(1)] step_not_enforced(2) [OF c d(2)] step_not_enforced(3) [OF p d(3)]
    by simp_all
  have "\<exists>v. memory_limit (resources cfg) = Some v \<and>
         WriteFile (path_join (cg_path cg) ''memory.max'') (show_nat (unat v)) (Inr ()) \<in> set (new_events w w1)" if mo
    using configure_memory_written [of k cfg plan cg "lim_memory d" w ms w1] m that by simp
  moreover have "\<exists>v. cpu_limit (resources cfg) = Some v \<and>
         WriteFile (path_join (cg_path cg) ''cpu.max'') (show_nat (unat (cpu_quota v)) @ '' 100000'') (Inr ()) \<in> set (new_events w1 w2)" if co
    using configure_cpu_written [of k cfg plan cg "lim_cpu d" w1 cs w2] c that by simp
  moreover have "\<exists>v. max_pids (resources cfg) = Some v \<and>
         WriteFile (path_join (cg_path cg) ''pids.max'') (show_nat (unat v)) (Inr ()) \<in> set (new_events w2 w3)" if po
    using configure_pids_written [of k cfg plan cg "lim_pids d" w2 ps w3] p that by simp
  ultimately show ?thesis
    using at t ms by (intro conjI exI [of _ "new_events w w1 @ new_events w1 w2 @ new_events w2 w3"]) auto
qed

lemma initial_not_enforced:
  "lim_memory (initial_diagnostics plan) \<noteq> Enforced" "lim_cpu (initial_diagnostics plan) \<noteq> Enforced"
  "lim_pids (initial_diagnostics plan) \<noteq> Enforced"
  by (simp_all add: initial_diagnostics_def limit_status_def split: EnforcementMode.split)

lemma apply_limits_settled:
  assumes run: "run_state (apply_limits k cfg plan pid (initial_diagnostics plan) cg) w = (Inr (mgr, d'), w')"
    and plan: "plan = LimitPlan_from cfg policy"
  shows "settled (plan_memory plan) (lim_memory d') mgr \<and> settled (plan_cpu plan) (lim_cpu d') mgr
    \<and> settled (plan_pids plan) (lim_pids d') mgr
    \<and> (rootless_memory_required k cfg \<longrightarrow> lim_memory d' = Enforced)"
proof -
  let ?d = "initial_diagnostics plan"
  obtain mo ms co cs po ps w1 w2 w3 where
      m: "run_state (configure_memory k cfg plan cg (lim_memory ?d)) w = (Inr (mo, ms), w1)"
    and c: "run_state (configure_cpu k cfg plan cg (lim_cpu ?d)) w1 = (Inr (co, cs), w2)"
    and p: "run_state (configure_pids k cfg plan cg (lim_pids ?d)) w2 = (Inr (po, ps), w3)"
    and a: "run_state (attach_process k cfg plan pid cg mo co po
               \<lparr>lim_memory = ms, lim_cpu = cs, lim_pids = ps\<rparr>) w3 = (Inr (mgr, d'), w')"
    using apply_limits_cases [OF run] by auto
  have "step_ok (plan_memory plan) (limit_status (plan_memory plan)) mo ms"
    "step_ok (plan_cpu plan) (limit_status (plan_cpu plan)) co cs"
    "step_ok (plan_pids plan) (limit_status (plan_pids plan)) po ps"
    using configure_memory_ok m configure_cpu_ok c configure_pids_ok p
    unfolding plan initial_diagnostics_def by fastforce+
  moreover have "rootless_memory_required k cfg \<Longrightarrow> mo"
    using configure_memory_rootless [OF m] by blast
  ultimately show ?thesis
    using attach_process_cases [OF a] settled_attached settled_detached no_strict by auto
qed

section \<open>A concrete run\<close>

text \<open>A strict process limit on a kernel that grants everything.\<close>

definition demo_cfg :: SandboxConfig where
  "demo_cfg = SandboxBuilder_new\<lparr>resources := ResourceBuilder_max_pids 7 ResourceBuilder_new\<rparr>"

definition demo_policy :: ExecutionPolicy where
  "demo_policy = to_execution_policy (resources demo_cfg)"

lemma demo_controllers:
  "controllers_of ''cpu memory pids'' = [Cpu, Memory, Pids]" "split_whitespace [] = []"
  by code_simp+

lemma demo_run:
  "\<exists>d w'. run_state (configure_cgroup granting_kernel demo_cfg (LimitPlan_from demo_cfg demo_policy) ''s1'' 7) initial_world
     = (Inr (Some \<lparr>cg_path = ''/sys/fs/cgroup/libsandbox/s1'', available_controllers = [Cpu, Memory, Pids],
                 cg_strategy = Root ''/sys/fs/cgroup/libsandbox''\<rparr>, d), w') \<and> lim_pids d = Enforced"
proof -
  have "wp (configure_cgroup granting_kernel demo_cfg (LimitPlan_from demo_cfg demo_policy) ''s1'' 7)
     (\<lambda>r w'. \<exists>d. r = Inr (Some \<lparr>cg_path = ''/sys/fs/cgroup/libsandbox/s1'', available_controllers = [Cpu, Memory, Pids],
                 cg_strategy = Root ''/sys/fs/cgroup/libsandbox''\<rparr>, d) \<and> lim_pids d = Enforced) initial_world"
    by (simp add: demo_policy_def configure_cgroup_def wp_simps probe_cgroup_support_def is_cgroup_v2_mounted_def
      call_defs granting_kernel_def Let_def get_cgroup_strategy_def initial_world_def detect_cgroup_strategy_def
      read_controllers_def ends_with_def path_join_def CGROUP_ROOT_def unwrap_or_def demo_controllers
      NANOBOX_DIR_def CgroupManager_create_def create_root_def requested_controllers_def LimitPlan_from_def
      demo_cfg_def resource_method_defs limit_mode_def to_execution_policy_def SandboxBuilder_new_def
      apply_limits_def configure_memory_def configure_cpu_def configure_pids_def set_pids_limit_def
      require_controller_def cg_write_file_def attach_process_def add_process_def log_event_def)
  then show ?thesis by (auto simp: wp_def split: prod.splits)
qed

lemma demo_support_run:
  "\<exists>s w1 cg w2. run_state (probe_cgroup_support granting_kernel) initial_world = (s, w1) \<and> mounted s \<and> accessible s
     \<and> run_state (CgroupManager_create granting_kernel ''s1'' (requested_controllers (LimitPlan_from demo_cfg demo_policy))) w1
         = (Inr cg, w2)"
proof -
  have "wp (probe_cgroup_support granting_kernel) (\<lambda>s w1. mounted s \<and> accessible s
     \<and> wp (CgroupManager_create granting_kernel ''s1'' (requested_controllers (LimitPlan_from demo_cfg demo_policy)))
         (\<lambda>r w2. is_ok r) w1) initial_world"
    by (simp add: demo_policy_def configure_cgroup_def wp_simps probe_cgroup_support_def is_cgroup_v2_mounted_def
      call_defs granting_kernel_def Let_def get_cgroup_strategy_def initial_world_def detect_cgroup_strategy_def
      read_controllers_def ends_with_def path_join_def CGROUP_ROOT_def unwrap_or_def demo_controllers
      NANOBOX_DIR_def CgroupManager_create_def create_root_def requested_controllers_def LimitPlan_from_def
      demo_cfg_def resource_method_defs limit_mode_def to_execution_policy_def SandboxBuilder_new_def
      apply_limits_def configure_memory_def configure_cpu_def configure_pids_def set_pids_limit_def
      require_controller_def cg_write_file_def attach_process_def add_process_def log_event_def)
  then show ?thesis by (auto simp: wp_def is_ok_iff split: prod.splits)
qed

section \<open>Properties\<close>

text \<open>C7: Resource limits fail closed, whatever the kernel answers. When \<open>configure_cgroup\<close> returns
  without error, every strictly requested limit is enforced in a cgroup that is handed to the
  caller, a best-effort limit is either enforced there or reported as not enforced, a limit that is
  not configured is reported as not requested, and no status is left unknown. For a non-root caller
  a memory limit is enforced even under best effort.\<close>

theorem configure_cgroup_fails_closed:
  assumes run: "run_state (configure_cgroup k cfg (LimitPlan_from cfg policy) sid pid) w = (Inr (mgr, d), w')"
  shows "settled (plan_memory (LimitPlan_from cfg policy)) (lim_memory d) mgr
    \<and> settled (plan_cpu (LimitPlan_from cfg policy)) (lim_cpu d) mgr
    \<and> settled (plan_pids (LimitPlan_from cfg policy)) (lim_pids d) mgr
    \<and> (memory_limit (resources cfg) \<noteq> None \<and> k_geteuid k \<noteq> 0 \<longrightarrow> lim_memory d = Enforced)"
  using run
proof (cases rule: configure_cgroup_cases)
  case (none why)
  then show ?thesis using settled_unavailable by (auto simp: rootless_memory_required_def)
next
  case (applied cg s w1 w2)
  then show ?thesis
    using apply_limits_settled [OF applied(3) refl] by (simp add: rootless_memory_required_def)
qed simp

theorem configure_cgroup_fails_closed_witness:
  "\<exists>mgr d w'. run_state (configure_cgroup granting_kernel demo_cfg (LimitPlan_from demo_cfg demo_policy) ''s1'' 7) initial_world
     = (Inr (mgr, d), w') \<and> settled EnforcementMode.Strict (lim_pids d) mgr"
proof -
  have "plan_pids (LimitPlan_from demo_cfg demo_policy) = EnforcementMode.Strict"
    by (simp add: LimitPlan_from_def demo_policy_def demo_cfg_def resource_method_defs limit_mode_def
        to_execution_policy_def SandboxBuilder_new_def)
  then show ?thesis using demo_run configure_cgroup_fails_closed by metis
qed

text \<open>C8: A limit reported as enforced really was written. When a cgroup is handed over, the last
  call made was the successful write of the child's process id to its \<open>cgroup.procs\<close>, and each
  enforced limit's value was written successfully to its control file before that.\<close>

theorem enforced_limits_were_written:
  assumes run: "run_state (configure_cgroup k cfg plan sid pid) w = (Inr (Some cg, d), w')"
  shows "\<exists>pre es. trace w' = pre @ es @ [WriteFile (path_join (cg_path cg) ''cgroup.procs'') (show_nat (unat pid)) (Inr ())]
    \<and> (lim_memory d = Enforced \<longrightarrow> (\<exists>v. memory_limit (resources cfg) = Some v \<and>
         WriteFile (path_join (cg_path cg) ''memory.max'') (show_nat (unat v)) (Inr ()) \<in> set es))
    \<and> (lim_cpu d = Enforced \<longrightarrow> (\<exists>v. cpu_limit (resources cfg) = Some v \<and>
         WriteFile (path_join (cg_path cg) ''cpu.max'') (show_nat (unat (cpu_quota v)) @ '' 100000'') (Inr ()) \<in> set es))
    \<and> (lim_pids d = Enforced \<longrightarrow> (\<exists>v. max_pids (resources cfg) = Some v \<and>
         WriteFile (path_join (cg_path cg) ''pids.max'') (show_nat (unat v)) (Inr ()) \<in> set es))"
  using run
proof (cases rule: configure_cgroup_cases)
  case (applied cg' s w1 w2)
  then show ?thesis
    using apply_limits_attached [OF applied(3) initial_not_enforced] by blast
qed simp_all

theorem enforced_limits_were_written_witness:
  "\<exists>cg d w' pre es. run_state (configure_cgroup granting_kernel demo_cfg (LimitPlan_from demo_cfg demo_policy) ''s1'' 7) initial_world
     = (Inr (Some cg, d), w')
     \<and> trace w' = pre @ es @ [WriteFile (path_join (cg_path cg) ''cgroup.procs'') (show_nat (unat (7 :: u32))) (Inr ())]"
  using demo_run enforced_limits_were_written by metis

text \<open>C9: No cgroup leaks. Once the sandbox's cgroup has been created, either it is handed to the
  caller or the last call of the whole configuration removes its directory, on every error path
  and for every kernel.\<close>

theorem created_cgroup_not_leaked:
  assumes "run_state (configure_cgroup k cfg plan sid pid) w = (r, w')"
    and "run_state (probe_cgroup_support k) w = (s, w1)" and "mounted s" and "accessible s"
    and "run_state (CgroupManager_create k sid (requested_controllers plan)) w1 = (Inr cg, w2)"
  shows "(\<exists>d. r = Inr (Some cg, d)) \<or> (\<exists>res. last (trace w') = RemoveDir (cg_path cg) res)"
proof -
  have "run_state (apply_limits k cfg plan pid (initial_diagnostics plan) cg) w2 = (r, w')"
    using assms by (simp add: configure_cgroup_def run_simps Let_def)
  from apply_limits_cases [OF this] show ?thesis
  proof (elim disjE exE conjE)
    fix mo co po d' w3
    assume "run_state (attach_process k cfg plan pid cg mo co po d') w3 = (r, w')"
    from attach_process_cases [OF this] show ?thesis by (auto simp: ends_removed_def)
  qed (auto simp: ends_removed_def)
qed

theorem created_cgroup_not_leaked_witness:
  "\<exists>s w1 cg w2 r w'. run_state (CgroupManager_create granting_kernel ''s1'' (requested_controllers (LimitPlan_from demo_cfg demo_policy))) w1
       = (Inr cg, w2)
     \<and> run_state (configure_cgroup granting_kernel demo_cfg (LimitPlan_from demo_cfg demo_policy) ''s1'' 7) initial_world = (r, w')
     \<and> run_state (probe_cgroup_support granting_kernel) initial_world = (s, w1)
     \<and> ((\<exists>d. r = Inr (Some cg, d)) \<or> (\<exists>res. last (trace w') = RemoveDir (cg_path cg) res))"
  using demo_support_run demo_run created_cgroup_not_leaked by metis

end
