(* ===== verification/Sandbox.thy ===== *)
theory Sandbox
  imports Cgroup_Limits
begin

text \<open>
  Building a sandbox: the platform pre-check and validation of \<open>SandboxBuilder\<close>
  (\<open>src/builder.rs\<close>), the user-namespace check (\<open>src/executor.rs\<close>), and the \<open>Sandbox\<close> value with its
  identifier (\<open>src/sandbox.rs\<close>).
\<close>

section \<open>Operations\<close>

definition userns_file :: string where
  "userns_file = ''/proc/sys/kernel/unprivileged_userns_clone''"

definition check_user_namespace_support :: "kernel \<Rightarrow> bool prog" where
  "check_user_namespace_support k = do {
     r \<leftarrow> read_to_string k userns_file;
     State_Monad.return (case r of Inr s \<Rightarrow> trim s = ''1'' | Inl _ \<Rightarrow> True)
   }"

definition is_supported :: "kernel \<Rightarrow> bool prog" where
  "is_supported k = check_user_namespace_support k"

definition check_support :: "kernel \<Rightarrow> unit result prog" where
  "check_support k = do {
     ok \<leftarrow> check_user_namespace_support k;
     State_Monad.return (if \<not> ok
       then Inl (SandboxError_new ErrorKind.Namespace
         ''unprivileged user namespaces disabled (run: sudo sysctl kernel.unprivileged_userns_clone=1)'')
       else Inr ())
   }"

definition generate_sandbox_id :: "kernel \<Rightarrow> string prog" where
  "generate_sandbox_id k = State (\<lambda>w.
     let count = SANDBOX_COUNTER w;
         timestamp = k_now_secs k (trace w)
     in (show_nat (unat timestamp) @ ''-'' @ show_nat (unat count), w\<lparr>SANDBOX_COUNTER := count + 1\<rparr>))"

record Sandbox =
  sb_config :: SandboxConfig
  execution_policy :: ExecutionPolicy
  sb_id :: string

definition from_config :: "kernel \<Rightarrow> SandboxConfig \<Rightarrow> ExecutionPolicy \<Rightarrow> Sandbox result prog" where
  "from_config k cfg policy = do {
     r \<leftarrow> check_support k;
     case r of
       Inl e \<Rightarrow> State_Monad.return (Inl e)
     | Inr _ \<Rightarrow> do {
         i \<leftarrow> generate_sandbox_id k;
         State_Monad.return (Inr \<lparr>sb_config = cfg, execution_policy = policy, sb_id = i\<rparr>)
       }
   }"

definition strict_limits :: "SandboxConfig \<Rightarrow> (bool \<times> CgroupController \<times> string) list" where
  "strict_limits b =
     (let r = cgroup_limit_requests (resources b)
      in [(req_memory r, Memory, ''memory''), (req_cpu r, Cpu, ''cpu''), (req_pids r, Pids, ''pids'')])"

definition strict_check :: "SandboxConfig \<Rightarrow> CgroupSupport \<Rightarrow> unit result" where
  "strict_check b support =
     (if resource_enforcement (resources b) = ResourceEnforcement.Strict
         \<and> list_ex (\<lambda>(requested, _, _). requested) (strict_limits b)
      then case find (\<lambda>(requested, c, _). requested \<and> \<not> can_enforce support c) (strict_limits b) of
             Some (_, c, name) \<Rightarrow> Inl (resource name (unavailable_reason support (Some c)))
           | None \<Rightarrow> Inr ()
      else Inr ())"

definition pre_check_platform :: "kernel \<Rightarrow> SandboxConfig \<Rightarrow> unit result prog" where
  "pre_check_platform k b = do {
     support \<leftarrow> probe_cgroup_support k;
     if req_memory (cgroup_limit_requests (resources b)) \<and> k_geteuid k \<noteq> 0 \<and> \<not> can_enforce support Memory
     then State_Monad.return (Inl (resource ''memory'' (unavailable_reason support (Some Memory))))
     else case strict_check b support of
       Inl e \<Rightarrow> State_Monad.return (Inl e)
     | Inr _ \<Rightarrow> do {
         r \<leftarrow> read_to_string k userns_file;
         State_Monad.return (case r of
           Inr content \<Rightarrow> if trim content = ''0''
             then Inl (config ''Unprivileged user namespaces disabled. Run: sudo sysctl kernel.unprivileged_userns_clone=1'')
             else Inr ()
         | Inl _ \<Rightarrow> Inr ())
       }
   }"

primrec check_mount_sources :: "kernel \<Rightarrow> Mount list \<Rightarrow> unit result prog" where
  "check_mount_sources k [] = State_Monad.return (Inr ())"
| "check_mount_sources k (m # ms) = do {
     ex \<leftarrow> path_exists k (source m);
     if \<not> ex then State_Monad.return (Inl (SandboxError_new ErrorKind.Mount (''path not found: '' @ source m)))
     else check_mount_sources k ms
   }"

definition validate :: "kernel \<Rightarrow> SandboxConfig \<Rightarrow> unit result prog" where
  "validate k b = do {
     r \<leftarrow> pre_check_platform k b;
     case r of
       Inl e \<Rightarrow> State_Monad.return (Inl e)
     | Inr _ \<Rightarrow> do {
         r \<leftarrow> check_mount_sources k (mounts (filesystem b));
         case r of
           Inl e \<Rightarrow> State_Monad.return (Inl e)
         | Inr _ \<Rightarrow>
             (case rootfs (filesystem b) of
                None \<Rightarrow> State_Monad.return (Inr ())
              | Some root \<Rightarrow> do {
                  ex \<leftarrow> path_exists k root;
                  dir \<leftarrow> (if \<not> ex then State_Monad.return False else path_is_dir k root);
                  State_Monad.return (if \<not> ex \<or> \<not> dir
                    then Inl (SandboxError_new ErrorKind.Mount (''path not found: '' @ root))
                    else Inr ())
                })
       }
   }"

definition SandboxBuilder_build :: "kernel \<Rightarrow> SandboxConfig \<Rightarrow> Sandbox result prog" where
  "SandboxBuilder_build k b = do {
     r \<leftarrow> validate k b;
     case r of
       Inl e \<Rightarrow> State_Monad.return (Inl e)
     | Inr _ \<Rightarrow> from_config k b (to_execution_policy (resources b))
   }"

section \<open>Lemmas\<close>

lemma strict_check_ok:
  "strict_check b support = Inr u \<longleftrightarrow>
     (resource_enforcement (resources b) = ResourceEnforcement.Strict \<longrightarrow>
       (req_memory (cgroup_limit_requests (resources b)) \<longrightarrow> can_enforce support Memory)
       \<and> (req_cpu (cgroup_limit_requests (resources b)) \<longrightarrow> can_enforce support Cpu)
       \<and> (req_pids (cgroup_limit_requests (resources b)) \<longrightarrow> can_enforce support Pids))"
  by (auto simp: strict_check_def strict_limits_def Let_def)

text \<open>Outside the two checks the programs only append.\<close>

lemma check_mount_sources_run:
  "run_state (check_mount_sources k ms) w = (r, w') \<Longrightarrow>
   \<exists>es. trace w' = trace w @ es \<and> (is_ok r \<longrightarrow> (\<forall>m \<in> set ms. PathExists (source m) True \<in> set es))"
proof (induction ms arbitrary: w)
  case (Cons m ms)
  let ?ex = "k_exists k (trace w) (source m)"
  show ?case
  proof (cases ?ex)
    case True
    then have "run_state (check_mount_sources k ms) (log_event (PathExists (source m) True) w) = (r, w')"
      using Cons.prems by (auto simp: path_exists_def run_simps split: if_splits)
    from Cons.IH [OF this] obtain es where "trace w' = trace w @ PathExists (source m) True # es"
      "is_ok r \<longrightarrow> (\<forall>m \<in> set ms. PathExists (source m) True \<in> set es)" by auto
    then show ?thesis by (intro exI [of _ "PathExists (source m) True # es"]) auto
  next
    case False
    with Cons.prems show ?thesis by (auto simp: path_exists_def run_simps)
  qed
qed (simp add: run_simps)

lemma pre_check_platform_appends: "appends (pre_check_platform k b)"
  unfolding pre_check_platform_def call_defs
  by (intro emits_intros emits_weaken [OF probe_cgroup_support_harmless]) auto

lemma pre_check_platform_ok:
  assumes "run_state (pre_check_platform k b) w = (Inr u, w')"
    and "run_state (probe_cgroup_support k) w = (support, w1)"
  shows "strict_check b support = Inr ()
    \<and> (req_memory (cgroup_limit_requests (resources b)) \<and> k_geteuid k \<noteq> 0 \<longrightarrow> can_enforce support Memory)"
  using assms by (auto simp: pre_check_platform_def run_simps split: if_splits)

lemma generate_id_digits: "\<exists>ts. fst (run_state (generate_sandbox_id k) w) = show_nat ts @ ''-'' @ show_nat (unat (SANDBOX_COUNTER w))"
  by (auto simp: generate_sandbox_id_def Let_def)

lemma no_dash_show_nat: "CHR ''-'' \<notin> set (show_nat n)"
proof
  assume "CHR ''-'' \<in> set (show_nat n)"
  then have "is_digit (CHR ''-'')" using show_nat_digits [of n] by (auto simp: list_all_iff)
  then show False by (simp add: is_digit_def)
qed

lemma id_inject:
  "show_nat a @ ''-'' @ show_nat b = show_nat c @ ''-'' @ show_nat d \<Longrightarrow> b = d"
proof -
  assume eq: "show_nat a @ ''-'' @ show_nat b = show_nat c @ ''-'' @ show_nat d"
  have tail: "dropWhile (\<lambda>x. x \<noteq> CHR ''-'') (show_nat n @ ''-'' @ s) = ''-'' @ s" for n s
    using no_dash_show_nat [of n] by (subst dropWhile_append2) auto
  have "show_nat b = show_nat d" using tail [of a "show_nat b"] tail [of c "show_nat d"] eq by simp
  then show ?thesis by (metis digits_val_show_nat)
qed

section \<open>A concrete build\<close>

definition userns_kernel :: kernel where
  "userns_kernel = granting_kernel\<lparr>k_read_file := (\<lambda>h p. if p = userns_file then Inr ''1'' else k_read_file granting_kernel h p)\<rparr>"

definition demo_builder :: SandboxConfig where
  "demo_builder = demo_cfg\<lparr>filesystem := FilesystemBuilder_mount ''/data'' ''/input'' ReadOnly FilesystemConfig_default\<rparr>"

lemma demo_build_run: "\<exists>sb w'. run_state (SandboxBuilder_build userns_kernel demo_builder) initial_world = (Inr sb, w')"
proof -
  have ev: "trim ''1'' = ''1''" by code_simp
  have "wp (SandboxBuilder_build userns_kernel demo_builder) (\<lambda>r w'. \<exists>sb. r = Inr sb) initial_world"
    by (simp add: SandboxBuilder_build_def validate_def pre_check_platform_def from_config_def check_support_def
        check_user_namespace_support_def generate_sandbox_id_def wp_simps probe_cgroup_support_def
        is_cgroup_v2_mounted_def call_defs granting_kernel_def userns_kernel_def userns_file_def Let_def
        get_cgroup_strategy_def initial_world_def detect_cgroup_strategy_def read_controllers_def ends_with_def
        path_join_def CGROUP_ROOT_def unwrap_or_def demo_controllers NANOBOX_DIR_def strict_check_ok
        strict_check_def strict_limits_def can_enforce_def controller_available_def demo_builder_def demo_cfg_def
        resource_method_defs SandboxBuilder_new_def FilesystemBuilder_mount_def FilesystemConfig_default_def ev)
  then show ?thesis by (auto simp: wp_def split: prod.splits)
qed

section \<open>Properties\<close>

text \<open>C13: A sandbox is only built after its inputs were checked: every mount source was found to
  exist and a root filesystem was found to be a directory. The built sandbox carries the builder's
  configuration unchanged, with the execution policy derived from its resource section.\<close>

theorem build_validates_paths:
  assumes run: "run_state (SandboxBuilder_build k b) w = (Inr sb, w')"
  shows "sb_config sb = b \<and> execution_policy sb = to_execution_policy (resources b)
    \<and> (\<forall>m \<in> set (mounts (filesystem b)). PathExists (source m) True \<in> set (trace w'))
    \<and> (\<forall>root. rootfs (filesystem b) = Some root \<longrightarrow> PathIsDir root True \<in> set (trace w'))"
proof -
  obtain u w1 where v: "run_state (validate k b) w = (Inr u, w1)"
    and f: "run_state (from_config k b (to_execution_policy (resources b))) w1 = (Inr sb, w')"
    using run by (auto simp: SandboxBuilder_build_def run_simps)
  obtain w2 w3 where m: "run_state (check_mount_sources k (mounts (filesystem b))) w2 = (Inr (), w3)"
    and r: "run_state (case rootfs (filesystem b) of
                None \<Rightarrow> State_Monad.return (Inr ())
              | Some root \<Rightarrow> path_exists k root \<bind> (\<lambda>ex. (if \<not> ex then State_Monad.return False else path_is_dir k root)
                  \<bind> (\<lambda>dir. State_Monad.return (if \<not> ex \<or> \<not> dir
                    then Inl (SandboxError_new ErrorKind.Mount (''path not found: '' @ root)) else Inr ())))) w3 = (Inr (), w1)"
    using v by (auto simp: validate_def run_simps)
  have t1: "\<exists>es. trace w1 = trace w3 @ es \<and> (\<forall>root. rootfs (filesystem b) = Some root \<longrightarrow> PathIsDir root True \<in> set es)"
    using r by (auto simp: run_simps call_defs split: if_splits)
  have t2: "\<exists>es. trace w' = trace w1 @ es"
    using f by (auto simp: from_config_def check_support_def check_user_namespace_support_def generate_sandbox_id_def
        call_defs run_simps Let_def)
  show ?thesis
    using t1 t2 check_mount_sources_run [OF m] f
    by (auto simp: from_config_def run_simps)
qed

theorem build_validates_paths_witness:
  "\<exists>w'. PathExists ''/data'' True \<in> set (trace w')
     \<and> (\<exists>sb. run_state (SandboxBuilder_build userns_kernel demo_builder) initial_world = (Inr sb, w'))"
proof -
  obtain sb w' where run: "run_state (SandboxBuilder_build userns_kernel demo_builder) initial_world = (Inr sb, w')"
    using demo_build_run by blast
  from build_validates_paths [OF this] have "PathExists ''/data'' True \<in> set (trace w')"
    by (simp add: demo_builder_def FilesystemBuilder_mount_def FilesystemConfig_default_def)
  with run show ?thesis by blast
qed

text \<open>C14: The platform pre-check fails closed. If a sandbox builds under strict enforcement, the cgroup
  probe that opened the build found the hierarchy mounted and accessible with the controller of
  every requested limit; a memory limit requested by a non-root caller needs it in either mode.\<close>

theorem build_needs_controllers:
  assumes "run_state (SandboxBuilder_build k b) w = (Inr sb, w')"
    and "run_state (probe_cgroup_support k) w = (support, w1)"
  shows "(resource_enforcement (resources b) = ResourceEnforcement.Strict \<longrightarrow>
       (req_memory (cgroup_limit_requests (resources b)) \<longrightarrow> can_enforce support Memory)
       \<and> (req_cpu (cgroup_limit_requests (resources b)) \<longrightarrow> can_enforce support Cpu)
       \<and> (req_pids (cgroup_limit_requests (resources b)) \<longrightarrow> can_enforce support Pids))
    \<and> (req_memory (cgroup_limit_requests (resources b)) \<and> k_geteuid k \<noteq> 0 \<longrightarrow> can_enforce support Memory)"
proof -
  obtain u w2 where "run_state (pre_check_platform k b) w = (Inr u, w2)"
    using assms(1) by (auto simp: SandboxBuilder_build_def validate_def run_simps)
  then show ?thesis using pre_check_platform_ok [OF _ assms(2)] strict_check_ok by auto
qed

theorem build_needs_controllers_witness:
  "can_enforce (fst (run_state (probe_cgroup_support userns_kernel) initial_world)) Pids"
proof -
  obtain sb w' where "run_state (SandboxBuilder_build userns_kernel demo_builder) initial_world = (Inr sb, w')"
    using demo_build_run by blast
  then show ?thesis
    using build_needs_controllers [of userns_kernel demo_builder initial_world sb w'
        "fst (run_state (probe_cgroup_support userns_kernel) initial_world)"
        "snd (run_state (probe_cgroup_support userns_kernel) initial_world)"]
    by (simp add: demo_builder_def demo_cfg_def resource_method_defs)
qed

text \<open>C15: Sandbox identifiers do not repeat: two identifiers generated at different values of the
  process-wide 64-bit counter differ, whatever the clock says.\<close>

theorem sandbox_ids_differ:
  assumes "SANDBOX_COUNTER w1 \<noteq> SANDBOX_COUNTER w2"
  shows "fst (run_state (generate_sandbox_id k) w1) \<noteq> fst (run_state (generate_sandbox_id k) w2)"
  using assms generate_id_digits [of k w1] generate_id_digits [of k w2] id_inject
  by (metis word_unat_eq_iff)

theorem sandbox_ids_differ_witness:
  "fst (run_state (generate_sandbox_id granting_kernel) initial_world)
     \<noteq> fst (run_state (generate_sandbox_id granting_kernel) (initial_world\<lparr>SANDBOX_COUNTER := 1\<rparr>))"
  by (rule sandbox_ids_differ) (simp add: initial_world_def)

end
