(* ===== verification/Fd.thy ===== *)
theory Fd
  imports Kernel
begin

text \<open>
  Raw descriptor helpers (\<open>src/process/fd.rs\<close>). A loop that retries on \<open>EINTR\<close>, or reads until a
  stream ends, can run forever; such a loop takes fuel, its result is \<open>None\<close> when the fuel is used
  up, and the lemmas say how much fuel is enough.
\<close>

section \<open>Programs that may not return\<close>

definition obind :: "'a option prog \<Rightarrow> ('a \<Rightarrow> 'b option prog) \<Rightarrow> 'b option prog" where
  "obind m f = m \<bind> (\<lambda>x. case x of None \<Rightarrow> State_Monad.return None | Some y \<Rightarrow> f y)"

definition lift_prog :: "'a prog \<Rightarrow> 'a option prog" where
  "lift_prog m = m \<bind> (\<lambda>x. State_Monad.return (Some x))"

lemma wp_obind [wp_simps]:
  "wp (obind m f) Q w = wp m (\<lambda>x. case x of None \<Rightarrow> Q None | Some y \<Rightarrow> wp (f y) Q) w"
  by (auto simp: obind_def wp_def run_simps run_state_bind split: prod.splits option.splits)

lemma wp_lift [wp_simps]: "wp (lift_prog m) Q w = wp m (\<lambda>x. Q (Some x)) w"
  by (simp add: lift_prog_def wp_def run_state_bind split: prod.splits)

lemma run_state_obind:
  "run_state (obind m f) w = (case run_state m w of (None, w') \<Rightarrow> (None, w') | (Some y, w') \<Rightarrow> run_state (f y) w')"
  by (auto simp: obind_def run_state_bind split: prod.splits option.splits)

lemma run_state_lift_prog: "run_state (lift_prog m) w = (case run_state m w of (x, w') \<Rightarrow> (Some x, w'))"
  by (simp add: lift_prog_def run_state_bind split: prod.splits)

lemma run_obind_iff [run_simps]:
  "run_state (obind m f) w = (r, w'') \<longleftrightarrow>
     (run_state m w = (None, w'') \<and> r = None) \<or>
     (\<exists>y w'. run_state m w = (Some y, w') \<and> run_state (f y) w' = (r, w''))"
  by (auto simp: obind_def run_simps)

lemma run_lift_iff [run_simps]:
  "run_state (lift_prog m) w = (r, w') \<longleftrightarrow> (\<exists>x. run_state m w = (x, w') \<and> r = Some x)"
  by (auto simp: lift_prog_def run_simps)

lemma emits_obind [emits_intros]: "emits P m \<Longrightarrow> (\<And>x. emits P (f x)) \<Longrightarrow> emits P (obind m f)"
  unfolding obind_def by (intro emits_intros)

lemma emits_lift [emits_intros]: "emits P m \<Longrightarrow> emits P (lift_prog m)"
  unfolding lift_prog_def by (intro emits_intros)

section \<open>Reading and writing\<close>

definition EINTR :: int where "EINTR = 4"
definition EPIPE :: int where "EPIPE = 32"
definition ESRCH :: int where "ESRCH = 3"
definition ENOSYS :: int where "ENOSYS = 38"

definition close_raw :: "kernel \<Rightarrow> int \<Rightarrow> int prog" where
  "close_raw k fd = raw_call k (CloseFd fd)"

lemma run_close_raw:
  "run_state (close_raw k fd) w = (r, w') \<longleftrightarrow>
     r = k_raw k (trace w) (CloseFd fd) \<and> w' = log_event (Raw (CloseFd fd) r) w"
  by (auto simp: close_raw_def raw_call_def run_simps)

text \<open>The drop of an \<open>Option<OwnedFd>\<close>.\<close>

definition drop_fd :: "kernel \<Rightarrow> int option \<Rightarrow> unit prog" where
  "drop_fd k fd = (case fd of None \<Rightarrow> State_Monad.return () | Some fd \<Rightarrow> close_raw k fd \<bind> (\<lambda>_. State_Monad.return ()))"

definition write_raw :: "kernel \<Rightarrow> int \<Rightarrow> u8 list \<Rightarrow> int prog" where
  "write_raw k fd data = raw_call k (WriteFd fd data)"

definition read_raw :: "kernel \<Rightarrow> int \<Rightarrow> nat \<Rightarrow> (int + u8 list) prog" where
  "read_raw k fd n = read_fd k fd n"

primrec write_all_raw :: "nat \<Rightarrow> kernel \<Rightarrow> int \<Rightarrow> u8 list \<Rightarrow> (int + unit) option prog" where
  "write_all_raw 0 k fd data = State_Monad.return (if data = [] then Some (Inr ()) else None)"
| "write_all_raw (Suc n) k fd data =
     (if data = [] then State_Monad.return (Some (Inr ()))
      else do {
        r \<leftarrow> write_raw k fd data;
        if r = 0 then State_Monad.return (Some (Inl EPIPE))
        else if r > 0 then write_all_raw n k fd (drop (nat r) data)
        else if - r = EINTR then write_all_raw n k fd data
        else State_Monad.return (Some (Inl (- r)))
      })"

primrec read_retry :: "nat \<Rightarrow> kernel \<Rightarrow> int \<Rightarrow> nat \<Rightarrow> (int + u8 list) option prog" where
  "read_retry 0 k fd len = State_Monad.return None"
| "read_retry (Suc n) k fd len = do {
     r \<leftarrow> read_raw k fd len;
     if r = Inl EINTR then read_retry n k fd len else State_Monad.return (Some r)
   }"

text \<open>\<open>drain_owned_fd\<close> and \<open>wait.rs::read_available\<close>: read until end of file or an error.\<close>

primrec drain_fd :: "nat \<Rightarrow> kernel \<Rightarrow> int \<Rightarrow> u8 list \<Rightarrow> u8 list option prog" where
  "drain_fd 0 k fd buf = State_Monad.return None"
| "drain_fd (Suc n) k fd buf = do {
     r \<leftarrow> read_fd k fd 4096;
     case r of
       Inr (b # bs) \<Rightarrow> drain_fd n k fd (buf @ b # bs)
     | _ \<Rightarrow> State_Monad.return (Some buf)
   }"

definition drain_owned_fd :: "nat \<Rightarrow> kernel \<Rightarrow> int option \<Rightarrow> u8 list \<Rightarrow> u8 list option prog" where
  "drain_owned_fd n k fd buf =
     (case fd of None \<Rightarrow> State_Monad.return (Some buf) | Some fd \<Rightarrow> drain_fd n k fd buf)"

definition O_NONBLOCK :: int where "O_NONBLOCK = 2048"

definition set_nonblock :: "kernel \<Rightarrow> int \<Rightarrow> (int + unit) prog" where
  "set_nonblock k fd = do {
     flags \<leftarrow> raw_call k (FcntlGetFl fd);
     if flags < 0 then State_Monad.return (Inl (- flags))
     else do {
       r \<leftarrow> raw_call k (FcntlSetFl fd (flags OR O_NONBLOCK));
       State_Monad.return (if r < 0 then Inl (- r) else Inr ())
     }
   }"

section \<open>Guards and openers\<close>

text \<open>\<open>AutoCloseFd\<close> is the descriptor it guards, \<open>-1\<close> once closed; the operations return its new
  value.\<close>

definition AutoCloseFd_close :: "kernel \<Rightarrow> int \<Rightarrow> ((int + unit) \<times> int) prog" where
  "AutoCloseFd_close k fd =
     (if fd \<ge> 0 then do {
        r \<leftarrow> close_raw k fd;
        State_Monad.return (if r < 0 then Inl (- r) else Inr (), -1)
      } else State_Monad.return (Inr (), fd))"

definition AutoCloseFd_drop :: "kernel \<Rightarrow> int \<Rightarrow> unit prog" where
  "AutoCloseFd_drop k fd = AutoCloseFd_close k fd \<bind> (\<lambda>_. State_Monad.return ())"

primrec write_byte_loop :: "nat \<Rightarrow> kernel \<Rightarrow> int \<Rightarrow> u8 \<Rightarrow> (int + unit) option prog" where
  "write_byte_loop 0 k fd b = State_Monad.return None"
| "write_byte_loop (Suc n) k fd b = do {
     r \<leftarrow> write_raw k fd [b];
     if r \<ge> 0 then State_Monad.return (Some (Inr ()))
     else if - r = EINTR then write_byte_loop n k fd b
     else State_Monad.return (Some (Inl (- r)))
   }"

definition write_byte_and_close :: "nat \<Rightarrow> kernel \<Rightarrow> int \<Rightarrow> u8 \<Rightarrow> ((int + unit) \<times> int) option prog" where
  "write_byte_and_close n k fd b = obind (write_byte_loop n k fd b) (\<lambda>r.
     case r of Inl e \<Rightarrow> State_Monad.return (Some (Inl e, fd)) | Inr _ \<Rightarrow> lift_prog (AutoCloseFd_close k fd))"

definition try_pidfd_open :: "kernel \<Rightarrow> i32 \<Rightarrow> int option prog" where
  "try_pidfd_open k pid = do {
     fd \<leftarrow> raw_call k (PidfdOpen pid);
     State_Monad.return (if fd \<ge> 0 then Some fd else None)
   }"

definition open_namespace_fd :: "kernel \<Rightarrow> i32 \<Rightarrow> string \<Rightarrow> int option prog" where
  "open_namespace_fd k pid ns_type = do {
     fd \<leftarrow> raw_call k (OpenFile (''/proc/'' @ show_int (sint pid) @ ''/ns/'' @ ns_type));
     State_Monad.return (if fd \<ge> 0 then Some fd else None)
   }"

section \<open>Killing and reaping\<close>

text \<open>The inner loops that retry \<open>waitpid\<close> on \<open>EINTR\<close>.\<close>

primrec waitpid_retry :: "nat \<Rightarrow> kernel \<Rightarrow> i32 \<Rightarrow> bool \<Rightarrow> (int + wait_status) option prog" where
  "waitpid_retry 0 k pid nohang = State_Monad.return None"
| "waitpid_retry (Suc n) k pid nohang = do {
     r \<leftarrow> waitpid k pid nohang;
     if r = Inl EINTR then waitpid_retry n k pid nohang else State_Monad.return (Some r)
   }"

text \<open>The poll of \<open>kill_and_reap\<close> (10 rounds) and of \<open>Child::drop\<close> (100 rounds): whether the child
  was reaped.\<close>

primrec reap_rounds :: "nat \<Rightarrow> nat \<Rightarrow> kernel \<Rightarrow> i32 \<Rightarrow> bool option prog" where
  "reap_rounds n 0 k pid = State_Monad.return (Some False)"
| "reap_rounds n (Suc i) k pid = obind (waitpid_retry n k pid True) (\<lambda>r.
     case r of
       Inr (Exited _) \<Rightarrow> State_Monad.return (Some True)
     | Inr (Signaled _) \<Rightarrow> State_Monad.return (Some True)
     | Inr StillAlive \<Rightarrow> sleep_ms 10 \<bind> (\<lambda>_. reap_rounds n i k pid)
     | _ \<Rightarrow> State_Monad.return (Some False))"

definition kill_and_reap :: "nat \<Rightarrow> kernel \<Rightarrow> i32 \<Rightarrow> unit option prog" where
  "kill_and_reap n k child_pid =
     kill k child_pid SIGKILL \<bind> (\<lambda>_.
       obind (reap_rounds n 10 k child_pid) (\<lambda>_. State_Monad.return (Some ())))"

section \<open>How much fuel is enough\<close>

text \<open>A retry loop only runs out of fuel when at least that many calls were interrupted.\<close>

fun is_interrupt :: "event \<Rightarrow> bool" where
  "is_interrupt (Raw c r) = (- r = EINTR)"
| "is_interrupt (ReadFd fd n r) = (r = Inl EINTR)"
| "is_interrupt (WaitPid pid f r) = (r = Inl EINTR)"
| "is_interrupt e = False"

definition interrupts :: "event list \<Rightarrow> nat" where
  "interrupts es = length (filter is_interrupt es)"

lemma interrupts_simps [simp]:
  "interrupts [] = 0"
  "interrupts (e # es) = (if is_interrupt e then Suc (interrupts es) else interrupts es)"
  "interrupts (es @ fs) = interrupts es + interrupts fs"
  by (simp_all add: interrupts_def)

lemma write_all_raw_fuel:
  "run_state (write_all_raw n k fd data) w = (None, w') \<Longrightarrow>
     \<exists>es. trace w' = trace w @ es \<and> n < length data + interrupts es"
proof (induction n arbitrary: data w)
  case (Suc n)
  define r where "r = k_raw k (trace w) (WriteFd fd data)"
  let ?w = "log_event (Raw (WriteFd fd data) r) w"
  have data: "data \<noteq> []" and run: "run_state (if r = 0 then State_Monad.return (Some (Inl EPIPE))
        else if r > 0 then write_all_raw n k fd (drop (nat r) data)
        else if - r = EINTR then write_all_raw n k fd data
        else State_Monad.return (Some (Inl (- r)))) ?w = (None, w')"
    using Suc.prems by (auto simp: write_raw_def raw_call_def run_simps r_def split: if_splits)
  have r0: "r \<noteq> 0" using run by (auto simp: run_simps)
  show ?case
  proof (cases "r > 0")
    case True
    then have "run_state (write_all_raw n k fd (drop (nat r) data)) ?w = (None, w')" using run by simp
    from Suc.IH [OF this] obtain es where "trace w' = trace ?w @ es" "n < length (drop (nat r) data) + interrupts es"
      by blast
    moreover have "length (drop (nat r) data) < length data" using True data by (cases data) simp_all
    ultimately show ?thesis
      by (intro exI [of _ "Raw (WriteFd fd data) r # es"]) (auto simp del: length_drop)
  next
    case False
    then have "- r = EINTR" "run_state (write_all_raw n k fd data) ?w = (None, w')"
      using run r0 by (auto simp: run_simps split: if_splits)
    from Suc.IH [OF this(2)] this(1) show ?thesis by auto
  qed
qed (auto simp: run_simps split: if_splits)

fun accepted :: "int \<Rightarrow> event \<Rightarrow> u8 list" where
  "accepted fd (Raw (WriteFd fd' data) r) = (if fd' = fd then take (nat r) data else [])"
| "accepted fd e = []"

definition delivered :: "int \<Rightarrow> event list \<Rightarrow> u8 list" where
  "delivered fd es = concat (map (accepted fd) es)"

lemma delivered_simps [simp]:
  "delivered fd [] = []" "delivered fd (e # es) = accepted fd e @ delivered fd es"
  "delivered fd (es @ fs) = delivered fd es @ delivered fd fs"
  by (simp_all add: delivered_def)

text \<open>When \<open>write_all_raw\<close> succeeds, the kernel accepted all the bytes in order; when it fails, it
  accepted the beginning of them.\<close>

lemma write_all_raw_delivers:
  "run_state (write_all_raw n k fd data) w = (r, w') \<Longrightarrow>
     \<exists>es. trace w' = trace w @ es \<and> list_all (\<lambda>e. \<exists>d x. e = Raw (WriteFd fd d) x) es
        \<and> prefix (delivered fd es) data \<and> (r = Some (Inr ()) \<longrightarrow> delivered fd es = data)"
proof (induction n arbitrary: data w)
  case (Suc n)
  show ?case
  proof (cases "data = []")
    case False
    define x where "x = k_raw k (trace w) (WriteFd fd data)"
    let ?w = "log_event (Raw (WriteFd fd data) x) w"
    have run: "run_state (if x = 0 then State_Monad.return (Some (Inl EPIPE))
        else if x > 0 then write_all_raw n k fd (drop (nat x) data)
        else if - x = EINTR then write_all_raw n k fd data
        else State_Monad.return (Some (Inl (- x)))) ?w = (r, w')"
      using Suc.prems False by (auto simp: write_raw_def raw_call_def run_simps x_def)
    consider "x > 0" | "x < 0" "- x = EINTR" | "x \<le> 0" "x \<noteq> 0 \<longrightarrow> - x \<noteq> EINTR" by linarith
    then show ?thesis
    proof cases
      case 1
      then have "run_state (write_all_raw n k fd (drop (nat x) data)) ?w = (r, w')" using run by simp
      from Suc.IH [OF this] obtain es where es: "trace w' = trace ?w @ es"
          "list_all (\<lambda>e. \<exists>d x. e = Raw (WriteFd fd d) x) es"
          "prefix (delivered fd es) (drop (nat x) data)"
          "r = Some (Inr ()) \<longrightarrow> delivered fd es = drop (nat x) data" by blast
      then have "prefix (take (nat x) data @ delivered fd es) data"
        by (metis append_take_drop_id same_prefix_prefix)
      then show ?thesis using es by (intro exI [of _ "Raw (WriteFd fd data) x # es"]) auto
    next
      case 2
      then have "run_state (write_all_raw n k fd data) ?w = (r, w')" using run by simp
      from Suc.IH [OF this] 2 show ?thesis by auto
    next
      case 3
      then have "r \<noteq> Some (Inr ())" "w' = ?w" using run by (auto simp: run_simps split: if_splits)
      then show ?thesis using 3 by auto
    qed
  qed (use Suc.prems in \<open>auto simp: run_simps\<close>)
qed (auto simp: run_simps split: if_splits)

lemma waitpid_retry_fuel:
  "run_state (waitpid_retry n k pid f) w = (r, w') \<Longrightarrow>
     \<exists>es. trace w' = trace w @ es \<and> (case r of None \<Rightarrow> interrupts es = n | Some _ \<Rightarrow> interrupts es < n)"
proof (induction n arbitrary: w)
  case (Suc n)
  define x where "x = k_waitpid k (trace w) pid f"
  have "run_state (if x = Inl EINTR then waitpid_retry n k pid f else State_Monad.return (Some x))
      (log_event (WaitPid pid f x) w) = (r, w')"
    using Suc.prems by (auto simp: waitpid_def run_simps x_def)
  then consider "x = Inl EINTR" "run_state (waitpid_retry n k pid f) (log_event (WaitPid pid f x) w) = (r, w')"
    | "x \<noteq> Inl EINTR" "r = Some x" "w' = log_event (WaitPid pid f x) w"
    by (auto simp: run_simps split: if_splits)
  then show ?case
  proof cases
    case 1
    from Suc.IH [OF 1(2)] 1(1) show ?thesis by (auto split: option.splits)
  qed auto
qed (auto simp: run_simps)

end
