(* ===== verification/Kill_Tree.thy ===== *)
theory Kill_Tree
  imports Fd
begin

text \<open>
  The recursive kill used without a cgroup (\<open>src/process/kill.rs\<close>). The walk over
  \<open>/proc/<pid>/task/<pid>/children\<close> ends because every process id is visited at most once; what it
  collects is closed under the children it read and contains nothing else.
\<close>

section \<open>Reading children\<close>

text \<open>\<open>str::parse::<i32>\<close>.\<close>

definition parse_i32 :: "string \<Rightarrow> i32 option" where
  "parse_i32 s =
     (case s of
        c # ds \<Rightarrow>
          if c = CHR ''-'' then
            (if ds \<noteq> [] \<and> list_all is_digit ds \<and> digits_val ds \<le> 2 ^ 31 then Some (- of_nat (digits_val ds)) else None)
          else map_option of_nat (parse_unsigned (2 ^ 31) s)
      | [] \<Rightarrow> None)"

definition children_path :: "i32 \<Rightarrow> string" where
  "children_path pid = ''/proc/'' @ show_int (sint pid) @ ''/task/'' @ show_int (sint pid) @ ''/children''"

definition children_of :: "string io \<Rightarrow> i32 list" where
  "children_of r = (case r of Inr s \<Rightarrow> List.map_filter parse_i32 (split_whitespace s) | Inl _ \<Rightarrow> [])"

definition read_children :: "kernel \<Rightarrow> i32 \<Rightarrow> i32 list prog" where
  "read_children k pid = read_to_string k (children_path pid) \<bind> (\<lambda>r. State_Monad.return (children_of r))"

section \<open>Collecting descendants\<close>

text \<open>The stack is a list with its top first; \<open>out\<close> is the result in the order of the pushes.\<close>

function collect_loop :: "kernel \<Rightarrow> i32 set \<Rightarrow> i32 list \<Rightarrow> i32 list \<Rightarrow> world \<Rightarrow> i32 list \<times> world" where
  "collect_loop k seen [] out w = (out, w)"
| "collect_loop k seen (pid # stack) out w =
     (if pid \<in> seen then collect_loop k seen stack out w
      else case run_state (read_children k pid) w of
             (children, w') \<Rightarrow> collect_loop k (insert pid seen) (rev children @ stack) (out @ [pid]) w')"
  by pat_completeness auto
termination
proof (relation "measures [\<lambda>(k, seen, stack, out, w). card (- seen), \<lambda>(k, seen, stack, out, w). length stack]")
  fix pid :: i32 and seen :: "i32 set"
  assume "pid \<notin> seen"
  then have "card (- insert pid seen) < card (- seen)"
    by (intro psubset_card_mono) auto
  then show "((k, insert pid seen, rev children @ stack, out @ [pid], w'), k, seen, pid # stack, out, w)
      \<in> measures [\<lambda>(k, seen, stack, out, w). card (- seen), \<lambda>(k, seen, stack, out, w). length stack]"
    for k children stack out w' w by simp
qed simp_all

definition collect_descendants :: "kernel \<Rightarrow> i32 \<Rightarrow> i32 list prog" where
  "collect_descendants k root_pid = State (collect_loop k {} [root_pid] [])"

section \<open>Killing\<close>

definition kill_pid :: "kernel \<Rightarrow> i32 \<Rightarrow> unit prog" where
  "kill_pid k pid = do {
     pidfd \<leftarrow> raw_call k (PidfdOpen pid);
     if pidfd \<ge> 0 then do {
       _ \<leftarrow> raw_call k (PidfdSendSignal pidfd SIGKILL);
       _ \<leftarrow> raw_call k (CloseFd pidfd);
       State_Monad.return ()
     } else kill k pid SIGKILL \<bind> (\<lambda>_. State_Monad.return ())
   }"

primrec kill_rounds :: "nat \<Rightarrow> kernel \<Rightarrow> i32 \<Rightarrow> unit prog" where
  "kill_rounds 0 k root_pid = State_Monad.return ()"
| "kill_rounds (Suc i) k root_pid = do {
     live \<leftarrow> collect_descendants k root_pid;
     if live = [] then State_Monad.return ()
     else do {
       for_each (kill_pid k) live;
       sleep_ms 10;
       kill_rounds i k root_pid
     }
   }"

definition kill_tree :: "kernel \<Rightarrow> i32 \<Rightarrow> unit prog" where
  "kill_tree k root_pid = kill_rounds 5 k root_pid"

section \<open>What the walk collects\<close>

text \<open>\<open>listed es p q\<close>: a read among \<open>es\<close> listed \<open>q\<close> as a child of \<open>p\<close>.\<close>

definition listed :: "event list \<Rightarrow> i32 \<Rightarrow> i32 \<Rightarrow> bool" where
  "listed es p q \<longleftrightarrow> (\<exists>r. ReadFile (children_path p) r \<in> set es \<and> q \<in> set (children_of r))"

lemma collect_loop_spec:
  assumes "collect_loop k seen stack out w = (pids, w')"
    and "seen = set out" "distinct out"
    and "trace w = h @ es"
    and reads: "list_all (\<lambda>e. \<exists>p r. p \<in> set out \<and> e = ReadFile (children_path p) r) es"
    and closed: "\<And>p. p \<in> set out \<Longrightarrow> \<exists>r. ReadFile (children_path p) r \<in> set es \<and> set (children_of r) \<subseteq> set out \<union> set stack"
    and sound: "\<And>q. q \<in> set out \<union> set stack \<Longrightarrow> q = root \<or> (\<exists>p \<in> set out. listed es p q)"
  shows "\<exists>es'. trace w' = h @ es' \<and> distinct pids \<and> set out \<union> set stack \<subseteq> set pids
     \<and> list_all (\<lambda>e. \<exists>p r. p \<in> set pids \<and> e = ReadFile (children_path p) r) es'
     \<and> (\<forall>p \<in> set pids. \<exists>r. ReadFile (children_path p) r \<in> set es' \<and> set (children_of r) \<subseteq> set pids)
     \<and> (\<forall>q \<in> set pids. q = root \<or> (\<exists>p \<in> set pids. listed es' p q))"
  using assms
proof (induction k seen stack out w arbitrary: es rule: collect_loop.induct)
  case (1 k seen out w)
  then show ?case by auto
next
  case (2 k seen pid stack out w)
  show ?case
  proof (cases "pid \<in> seen")
    case True
    have "set out \<union> set (pid # stack) = set out \<union> set stack" using True 2(4) by auto
    then show ?thesis using 2(1) [OF True] 2(3-9) True by simp
  next
    case False
    define a where "a = k_read_file k (trace w) (children_path pid)"
    let ?e = "ReadFile (children_path pid) a" and ?w = "log_event (ReadFile (children_path pid) a) w"
    have run: "run_state (read_children k pid) w = (children_of a, ?w)"
      by (auto simp: read_children_def read_to_string_def run_simps a_def)
    have "\<exists>es'. trace w' = h @ es' \<and> distinct pids \<and> set (out @ [pid]) \<union> set (rev (children_of a) @ stack) \<subseteq> set pids
     \<and> list_all (\<lambda>e. \<exists>p r. p \<in> set pids \<and> e = ReadFile (children_path p) r) es'
     \<and> (\<forall>p \<in> set pids. \<exists>r. ReadFile (children_path p) r \<in> set es' \<and> set (children_of r) \<subseteq> set pids)
     \<and> (\<forall>q \<in> set pids. q = root \<or> (\<exists>p \<in> set pids. listed es' p q))"
    proof (rule 2(2) [OF False run [symmetric], of "es @ [?e]"])
      show "collect_loop k (insert pid seen) (rev (children_of a) @ stack) (out @ [pid]) ?w = (pids, w')"
        using 2(3) False run by simp
      show "insert pid seen = set (out @ [pid])" "distinct (out @ [pid])" "trace ?w = h @ es @ [?e]"
        using 2(4-6) False by auto
      show "list_all (\<lambda>e. \<exists>p r. p \<in> set (out @ [pid]) \<and> e = ReadFile (children_path p) r) (es @ [?e])"
        using 2(7) by (fastforce simp: list_all_iff)
      show "\<exists>r. ReadFile (children_path p) r \<in> set (es @ [?e])
          \<and> set (children_of r) \<subseteq> set (out @ [pid]) \<union> set (rev (children_of a) @ stack)" if "p \<in> set (out @ [pid])" for p
        using that 2(8) [of p] by (cases "p = pid") fastforce+
      show "q = root \<or> (\<exists>p \<in> set (out @ [pid]). listed (es @ [?e]) p q)"
        if "q \<in> set (out @ [pid]) \<union> set (rev (children_of a) @ stack)" for q
      proof (cases "q \<in> set (children_of a)")
        case True
        then show ?thesis by (auto simp: listed_def)
      next
        case False
        then show ?thesis using that 2(9) [of q] by (auto simp: listed_def)
      qed
    qed
    then show ?thesis by (auto; blast)
  qed
qed

lemma collect_descendants_spec:
  assumes "run_state (collect_descendants k root) w = (pids, w')"
  shows "\<exists>es. trace w' = trace w @ es \<and> distinct pids \<and> root \<in> set pids
     \<and> list_all (\<lambda>e. \<exists>p r. p \<in> set pids \<and> e = ReadFile (children_path p) r) es
     \<and> (\<forall>p \<in> set pids. \<exists>r. ReadFile (children_path p) r \<in> set es \<and> set (children_of r) \<subseteq> set pids)
     \<and> (\<forall>q \<in> set pids. q = root \<or> (\<exists>p \<in> set pids. listed es p q))"
  using collect_loop_spec [of k "{}" "[root]" "[]" w pids w' "trace w" "[]" root] assms
  by (simp add: collect_descendants_def)

text \<open>The events of killing one process.\<close>

definition signalled :: "i32 \<Rightarrow> event list \<Rightarrow> bool" where
  "signalled p es \<longleftrightarrow>
     (\<exists>fd a b. fd \<ge> 0 \<and> es = [Raw (PidfdOpen p) fd, Raw (PidfdSendSignal fd SIGKILL) a, Raw (CloseFd fd) b])
     \<or> (\<exists>fd sent. fd < 0 \<and> es = [Raw (PidfdOpen p) fd, KillPid p SIGKILL sent])"

lemma kill_pid_signals:
  "run_state (kill_pid k p) w = (u, w') \<Longrightarrow> \<exists>es. trace w' = trace w @ es \<and> signalled p es"
  by (auto simp: kill_pid_def kill_def raw_call_def run_simps signalled_def split: if_splits)

lemma for_each_signals:
  "run_state (for_each (kill_pid k) pids) w = (u, w') \<Longrightarrow>
     \<exists>ess. trace w' = trace w @ concat ess \<and> list_all2 signalled pids ess"
proof (induction pids arbitrary: w)
  case (Cons p pids)
  then obtain v where v: "run_state (kill_pid k p) w = ((), v)" "run_state (for_each (kill_pid k) pids) v = (u, w')"
    by (auto simp: run_simps)
  obtain es where "trace v = trace w @ es" "signalled p es" using kill_pid_signals [OF v(1)] by blast
  moreover obtain ess where "trace w' = trace v @ concat ess" "list_all2 signalled pids ess" using Cons.IH [OF v(2)] by blast
  ultimately show ?case by (intro exI [of _ "es # ess"]) simp
qed (simp add: run_simps)

lemma emits_collect: "appends (collect_descendants k root)"
  unfolding emits_def using collect_descendants_spec [of k root] by (metis list.pred_True prod.exhaust_sel)

lemma appends_kill_rounds: "appends (kill_rounds i k root)"
proof (induction i)
  case (Suc i)
  then show ?case unfolding kill_rounds.simps kill_pid_def kill_def raw_call_def sleep_ms_def
    by (intro emits_intros emits_collect) simp_all
qed (simp add: emits_intros)

lemma kill_round:
  assumes run: "run_state (kill_rounds (Suc i) k root) w = (u, w')"
  shows "\<exists>reads pids kills rest.
     new_events w w' = reads @ concat kills @ SleepMs 10 # rest
     \<and> distinct pids \<and> root \<in> set pids \<and> list_all2 signalled pids kills
     \<and> list_all (\<lambda>p. \<exists>r. ReadFile (children_path p) r \<in> set reads \<and> set (children_of r) \<subseteq> set pids) pids
     \<and> list_all (\<lambda>q. q = root \<or> list_ex (\<lambda>p. listed reads p q) pids) pids"
proof -
  obtain pids v1 where c: "run_state (collect_descendants k root) w = (pids, v1)" by force
  obtain reads where reads: "trace v1 = trace w @ reads" "distinct pids" "root \<in> set pids"
    "\<forall>p \<in> set pids. \<exists>r. ReadFile (children_path p) r \<in> set reads \<and> set (children_of r) \<subseteq> set pids"
    "\<forall>q \<in> set pids. q = root \<or> (\<exists>p \<in> set pids. listed reads p q)"
    using collect_descendants_spec [OF c] by blast
  have "pids \<noteq> []" using reads(3) by auto
  then obtain v2 v3 where v2: "run_state (for_each (kill_pid k) pids) v1 = ((), v2)"
      and v3: "v3 = log_event (SleepMs 10) v2" and rest: "run_state (kill_rounds i k root) v3 = (u, w')"
    using run c by (auto simp: run_simps sleep_ms_def)
  obtain kills where kills: "trace v2 = trace v1 @ concat kills" "list_all2 signalled pids kills"
    using for_each_signals [OF v2] by blast
  obtain es where "trace w' = trace v3 @ es" using appends_run [OF appends_kill_rounds rest] by blast
  then have "new_events w w' = reads @ concat kills @ SleepMs 10 # es"
    using reads(1) kills(1) v3 by (simp add: new_events_def)
  moreover have "list_all (\<lambda>p. \<exists>r. ReadFile (children_path p) r \<in> set reads \<and> set (children_of r) \<subseteq> set pids) pids"
    "list_all (\<lambda>q. q = root \<or> list_ex (\<lambda>p. listed reads p q) pids) pids"
    using reads(4,5) by (simp_all only: list_all_iff list_ex_iff)
  ultimately show ?thesis using reads(2,3) kills(2) by blast
qed

text \<open>C32: \<open>kill_tree\<close> always ends, and its first round reaches the whole tree it can see: the walk
  visits the root and, without repetition, every process that some visited process lists as a
  child, and no other process; then each of them is sent \<open>SIGKILL\<close>, through a pidfd if one can be
  opened.\<close>

theorem kill_tree_reaches_descendants:
  "\<exists>reads pids kills rest.
     new_events w (snd (run_state (kill_tree k root) w)) = reads @ concat kills @ SleepMs 10 # rest
     \<and> distinct pids \<and> root \<in> set pids \<and> list_all2 signalled pids kills
     \<and> list_all (\<lambda>p. \<exists>r. ReadFile (children_path p) r \<in> set reads \<and> set (children_of r) \<subseteq> set pids) pids
     \<and> list_all (\<lambda>q. q = root \<or> list_ex (\<lambda>p. listed reads p q) pids) pids"
proof -
  obtain w' where run: "run_state (kill_tree k root) w = ((), w')"
    by (cases "run_state (kill_tree k root) w") simp
  then have "run_state (kill_rounds (Suc 4) k root) w = ((), w')" by (simp add: kill_tree_def)
  from kill_round [OF this] show ?thesis by (simp only: run snd_conv)
qed

end
