(* ===== verification/Wait.thy ===== *)
theory Wait
  imports Fd Result
begin

text \<open>
  Waiting for a child with a wall-clock limit while collecting its output
  (\<open>src/process/wait.rs\<close>, the blocking variant). The polling loop takes fuel for its rounds; with a
  clock that advances while the loop sleeps, a number of rounds that depends only on the limit is
  shown to be enough.
\<close>

section \<open>Definitions\<close>

record CollectedOutput =
  co_stdout :: "u8 list"
  co_stderr :: "u8 list"
  co_exit_code :: i32
  co_killed_by_timeout :: bool
  co_signal :: "i32 option"

text \<open>Durations in nanoseconds.\<close>

definition REAP_POLL_INTERVAL_MS :: nat where "REAP_POLL_INTERVAL_MS = 10"
definition POST_KILL_GRACE :: nat where "POST_KILL_GRACE = 5000000000"

definition try_reap :: "nat \<Rightarrow> kernel \<Rightarrow> i32 \<Rightarrow> (i32 \<times> i32 option) option result option prog" where
  "try_reap f k pid = obind (waitpid_retry f k pid True) (\<lambda>r. State_Monad.return (Some (case r of
     Inl e \<Rightarrow> Inl (SandboxError_new ErrorKind.Exec
                (''waitpid for child '' @ show_int (sint pid) @ '': '' @ k_nix_errno k e))
   | Inr (Exited c) \<Rightarrow> Inr (Some (c, None))
   | Inr (Signaled sig) \<Rightarrow> Inr (Some (128 + sig, Some sig))
   | Inr _ \<Rightarrow> Inr None)))"

definition read_available :: "nat \<Rightarrow> kernel \<Rightarrow> int option \<Rightarrow> u8 list \<Rightarrow> u8 list option prog" where
  "read_available f k fd buf =
     (case fd of None \<Rightarrow> State_Monad.return (Some buf) | Some fd \<Rightarrow> drain_fd f k fd buf)"

definition finalize :: "nat \<Rightarrow> kernel \<Rightarrow> int option \<Rightarrow> int option \<Rightarrow> u8 list \<Rightarrow> u8 list \<Rightarrow> (u8 list \<times> u8 list) option prog" where
  "finalize f k stdout_fd stderr_fd outb errb =
     obind (drain_owned_fd f k stdout_fd outb) (\<lambda>outb.
     obind (drain_owned_fd f k stderr_fd errb) (\<lambda>errb.
       lift_prog (drop_fd k stdout_fd \<bind> (\<lambda>_. drop_fd k stderr_fd \<bind> (\<lambda>_. State_Monad.return (outb, errb))))))"

definition set_pipes_nonblocking :: "kernel \<Rightarrow> int option \<Rightarrow> int option \<Rightarrow> unit prog" where
  "set_pipes_nonblocking k stdout_fd stderr_fd = do {
     (case stdout_fd of None \<Rightarrow> State_Monad.return () | Some fd \<Rightarrow> set_nonblock k fd \<bind> (\<lambda>_. State_Monad.return ()));
     (case stderr_fd of None \<Rightarrow> State_Monad.return () | Some fd \<Rightarrow> set_nonblock k fd \<bind> (\<lambda>_. State_Monad.return ()))
   }"

definition kill_child :: "kernel \<Rightarrow> i32 \<Rightarrow> unit prog" where
  "kill_child k pid = do {
     _ \<leftarrow> kill k pid SIGKILL;
     _ \<leftarrow> kill k (- pid) SIGKILL;
     State_Monad.return ()
   }"

definition unkillable :: SandboxError where
  "unkillable = SandboxError_new ErrorKind.Exec ''child unkillable after SIGKILL (5s post-kill timeout expired)''"

text \<open>\<open>elapsed\<close> of an \<open>Instant\<close> saturates at zero.\<close>

definition elapsed :: "kernel \<Rightarrow> nat \<Rightarrow> nat prog" where
  "elapsed k t = now k \<bind> (\<lambda>t'. State_Monad.return (t' - t))"

text \<open>What happens in a round in which the child has not exited: the time limit, and whether to give
  up. The result is the new \<open>kill_time\<close>, which is set exactly when the child was killed for the
  timeout, and whether the grace period is over.\<close>

definition timeout_step :: "kernel \<Rightarrow> i32 \<Rightarrow> nat \<Rightarrow> nat \<Rightarrow> nat option \<Rightarrow> (nat option \<times> bool) prog" where
  "timeout_step k pid timeout start kill_time = do {
     el \<leftarrow> elapsed k start;
     kill_time \<leftarrow> (if el > timeout \<and> kill_time = None
       then kill_child k pid \<bind> (\<lambda>_. now k \<bind> (\<lambda>t. State_Monad.return (Some t)))
       else State_Monad.return kill_time);
     case kill_time of
       None \<Rightarrow> State_Monad.return (kill_time, False)
     | Some kt \<Rightarrow> elapsed k kt \<bind> (\<lambda>e. State_Monad.return (kill_time, e > POST_KILL_GRACE))
   }"

primrec wait_loop ::
  "nat \<Rightarrow> nat \<Rightarrow> kernel \<Rightarrow> i32 \<Rightarrow> int option \<Rightarrow> int option \<Rightarrow> nat \<Rightarrow> nat \<Rightarrow> u8 list \<Rightarrow> u8 list \<Rightarrow> nat option
     \<Rightarrow> CollectedOutput result option prog" where
  "wait_loop 0 f k pid stdout_fd stderr_fd timeout start outb errb kill_time = State_Monad.return None"
| "wait_loop (Suc n) f k pid stdout_fd stderr_fd timeout start outb errb kill_time =
     obind (read_available f k stdout_fd outb) (\<lambda>outb.
     obind (read_available f k stderr_fd errb) (\<lambda>errb.
     obind (try_reap f k pid) (\<lambda>reaped.
       case reaped of
         Inl e \<Rightarrow> lift_prog (drop_fd k stderr_fd \<bind> (\<lambda>_. drop_fd k stdout_fd \<bind> (\<lambda>_. State_Monad.return (Inl e))))
       | Inr (Some (c, sg)) \<Rightarrow>
           obind (finalize f k stdout_fd stderr_fd outb errb) (\<lambda>(outb, errb).
             State_Monad.return (Some (Inr
               \<lparr>co_stdout = outb, co_stderr = errb, co_exit_code = c,
                co_killed_by_timeout = (kill_time \<noteq> None), co_signal = sg\<rparr>)))
       | Inr None \<Rightarrow>
           timeout_step k pid timeout start kill_time \<bind> (\<lambda>(kill_time, give_up).
             if give_up
             then lift_prog (drop_fd k stderr_fd \<bind> (\<lambda>_. drop_fd k stdout_fd \<bind> (\<lambda>_. State_Monad.return (Inl unkillable))))
             else sleep_ms REAP_POLL_INTERVAL_MS \<bind> (\<lambda>_.
               wait_loop n f k pid stdout_fd stderr_fd timeout start outb errb kill_time)))))"

definition wait_with_timeout ::
  "nat \<Rightarrow> nat \<Rightarrow> kernel \<Rightarrow> i32 \<Rightarrow> int option \<Rightarrow> int option \<Rightarrow> nat \<Rightarrow> CollectedOutput result option prog" where
  "wait_with_timeout n f k pid stdout_fd stderr_fd timeout = do {
     set_pipes_nonblocking k stdout_fd stderr_fd;
     start \<leftarrow> now k;
     wait_loop n f k pid stdout_fd stderr_fd timeout start [] [] None
   }"

section \<open>What a wait collects\<close>

fun event_bytes :: "int option \<Rightarrow> event \<Rightarrow> u8 list" where
  "event_bytes fd (ReadFd fd' n (Inr bs)) = (if fd = Some fd' then bs else [])"
| "event_bytes fd e = []"

definition bytes_read :: "int option \<Rightarrow> event list \<Rightarrow> u8 list" where
  "bytes_read fd es = concat (map (event_bytes fd) es)"

fun event_kill :: "event \<Rightarrow> (i32 \<times> i32) list" where
  "event_kill (KillPid p s x) = [(p, s)]"
| "event_kill e = []"

definition kills :: "event list \<Rightarrow> (i32 \<times> i32) list" where
  "kills es = concat (map event_kill es)"

lemma trace_parts [simp]:
  "bytes_read fd [] = []" "bytes_read fd (e # es) = event_bytes fd e @ bytes_read fd es"
  "bytes_read fd (es @ fs) = bytes_read fd es @ bytes_read fd fs"
  "kills [] = []" "kills (e # es) = event_kill e @ kills es" "kills (es @ fs) = kills es @ kills fs"
  by (simp_all add: bytes_read_def kills_def)

lemma event_bytes_None [simp]: "event_bytes None e = []"
  by (cases "(None :: int option, e)" rule: event_bytes.cases) auto

lemma bytes_read_None [simp]: "bytes_read None es = []"
  by (induction es) simp_all

text \<open>Programs that read nothing and kill nobody, and programs that only read from one stream.\<close>

definition only_reads :: "int option \<Rightarrow> event list \<Rightarrow> bool" where
  "only_reads fd es \<longleftrightarrow> kills es = [] \<and> (\<forall>fd'. fd' \<noteq> fd \<longrightarrow> bytes_read fd' es = [])"

lemma drain_fd_spec:
  "run_state (drain_fd f k fd buf) w = (Some b, w') \<Longrightarrow>
     \<exists>es. trace w' = trace w @ es \<and> b = buf @ bytes_read (Some fd) es \<and> only_reads (Some fd) es"
proof (induction f arbitrary: buf w)
  case (Suc f)
  define x where "x = k_read_fd k (trace w) fd 4096"
  let ?e = "ReadFd fd 4096 x"
  show ?case
  proof (cases "\<exists>c cs. x = Inr (c # cs)")
    case True
    then obtain c cs where x: "x = Inr (c # cs)" by blast
    then have "run_state (drain_fd f k fd (buf @ c # cs)) (log_event ?e w) = (Some b, w')"
      using Suc.prems by (auto simp: read_fd_def run_simps x_def [symmetric])
    from Suc.IH [OF this] obtain es where "trace w' = trace (log_event ?e w) @ es"
      "b = (buf @ c # cs) @ bytes_read (Some fd) es" "only_reads (Some fd) es" by blast
    then show ?thesis using x by (intro exI [of _ "?e # es"]) (auto simp: only_reads_def)
  next
    case False
    then have x: "x = Inr [] \<or> (\<exists>e. x = Inl e)" by (metis list.exhaust sum.exhaust)
    then have "b = buf" "w' = log_event ?e w"
      using Suc.prems by (auto simp: read_fd_def run_simps x_def [symmetric])
    moreover have "event_bytes fd' ?e = []" for fd' using x by auto
    ultimately show ?thesis by (intro exI [of _ "[?e]"]) (auto simp: only_reads_def)
  qed
qed (simp add: run_simps)

lemma read_available_spec:
  "run_state (read_available f k fd buf) w = (Some b, w') \<Longrightarrow>
     \<exists>es. trace w' = trace w @ es \<and> b = buf @ bytes_read fd es \<and> only_reads fd es"
  by (cases fd) (auto simp: read_available_def run_simps only_reads_def bytes_read_def dest!: drain_fd_spec)

lemma drain_owned_fd_spec:
  "run_state (drain_owned_fd f k fd buf) w = (Some b, w') \<Longrightarrow>
     \<exists>es. trace w' = trace w @ es \<and> b = buf @ bytes_read fd es \<and> only_reads fd es"
  by (cases fd) (auto simp: drain_owned_fd_def run_simps only_reads_def bytes_read_def dest!: drain_fd_spec)

definition calm :: "event \<Rightarrow> bool" where
  "calm e \<longleftrightarrow> event_kill e = [] \<and> (\<forall>fd. event_bytes fd e = [])"

lemma calm_events: "list_all calm es \<Longrightarrow> kills es = [] \<and> bytes_read fd es = []"
  by (induction es) (auto simp: calm_def)

lemma calm_simps [simp]:
  "calm (Raw c r)" "calm (WaitPid p b x)" "calm (Clock t)" "calm (SleepMs m)"
  by (simp_all add: calm_def)

lemma emits_drop_fd: "emits calm (drop_fd k fd)"
  unfolding drop_fd_def close_raw_def raw_call_def by (auto intro!: emits_intros split: option.splits)

lemma emits_set_pipes_nonblocking: "emits calm (set_pipes_nonblocking k a b)"
  unfolding set_pipes_nonblocking_def set_nonblock_def raw_call_def by (auto intro!: emits_intros split: option.splits)

text \<open>How an exit is reported.\<close>

definition exit_of :: "wait_status \<Rightarrow> (i32 \<times> i32 option) option" where
  "exit_of st = (case st of Exited c \<Rightarrow> Some (c, None) | Signaled s \<Rightarrow> Some (128 + s, Some s) | _ \<Rightarrow> None)"

lemma try_reap_spec:
  assumes "run_state (try_reap f k pid) w = (Some r, w')"
  shows "\<exists>es. trace w' = trace w @ es \<and> list_all calm es \<and>
    (\<forall>x. r = Inr (Some x) \<longrightarrow> (\<exists>st. WaitPid pid True (Inr st) \<in> set es \<and> exit_of st = Some x))"
proof -
  have retry: "run_state (waitpid_retry f k pid True) w = (Some a, w') \<Longrightarrow>
      \<exists>es. trace w' = trace w @ es \<and> list_all calm es \<and> WaitPid pid True a \<in> set es" for a w
  proof (induction f arbitrary: w)
    case (Suc f)
    then obtain x where "run_state (if x = Inl EINTR then waitpid_retry f k pid True else State_Monad.return (Some x))
        (log_event (WaitPid pid True x) w) = (Some a, w')"
      by (auto simp: waitpid_def run_simps)
    then show ?case using Suc.IH [of "log_event (WaitPid pid True x) w"]
      by (auto simp: run_simps split: if_splits)
  qed (simp add: run_simps)
  obtain a where a: "run_state (waitpid_retry f k pid True) w = (Some a, w')"
    "r = (case a of
         Inl e \<Rightarrow> Inl (SandboxError_new ErrorKind.Exec
                (''waitpid for child '' @ show_int (sint pid) @ '': '' @ k_nix_errno k e))
       | Inr (Exited c) \<Rightarrow> Inr (Some (c, None))
       | Inr (Signaled sig) \<Rightarrow> Inr (Some (128 + sig, Some sig))
       | Inr _ \<Rightarrow> Inr None)"
    using assms by (auto simp: try_reap_def run_simps)
  obtain es where "trace w' = trace w @ es" "list_all calm es" "WaitPid pid True a \<in> set es" using retry [OF a(1)] by blast
  then show ?thesis using a(2) by (auto simp: exit_of_def split: sum.splits wait_status.splits)
qed

definition timed_out :: "nat \<Rightarrow> nat \<Rightarrow> event list \<Rightarrow> bool" where
  "timed_out timeout start es \<longleftrightarrow> (\<exists>t. Clock t \<in> set es \<and> timeout < t - start)"

lemma timed_out_append [simp]:
  "timed_out timeout start (e # es) \<longleftrightarrow> (\<exists>t. e = Clock t \<and> timeout < t - start) \<or> timed_out timeout start es"
  "timed_out timeout start (es @ fs) \<longleftrightarrow> timed_out timeout start es \<or> timed_out timeout start fs"
  by (auto simp: timed_out_def)

lemma timeout_step_spec:
  assumes "run_state (timeout_step k pid timeout start kt) w = ((kt', g), w')"
  shows "\<exists>es. trace w' = trace w @ es \<and> (\<forall>fd. bytes_read fd es = [])
     \<and> ((kt' = kt \<and> kills es = [])
        \<or> (kt = None \<and> kt' \<noteq> None \<and> kills es = [(pid, SIGKILL), (- pid, SIGKILL)] \<and> timed_out timeout start es))"
  using assms
  by (auto simp: timeout_step_def elapsed_def now_def kill_child_def kill_def run_simps timed_out_def split: if_splits option.splits)

text \<open>The invariant of the loop: what has been read is what was collected, and the child is killed at
  most once, only after the limit.\<close>

definition wait_post ::
  "i32 \<Rightarrow> int option \<Rightarrow> int option \<Rightarrow> nat \<Rightarrow> nat \<Rightarrow> u8 list \<Rightarrow> u8 list \<Rightarrow> nat option \<Rightarrow> CollectedOutput \<Rightarrow> event list \<Rightarrow> bool" where
  "wait_post pid ofd efd timeout start outb errb kt co es \<longleftrightarrow>
     co_stdout co = outb @ bytes_read ofd es \<and> co_stderr co = errb @ bytes_read efd es
     \<and> (\<exists>st. WaitPid pid True (Inr st) \<in> set es \<and> exit_of st = Some (co_exit_code co, co_signal co))
     \<and> (kt \<noteq> None \<longrightarrow> co_killed_by_timeout co \<and> kills es = [])
     \<and> (kt = None \<longrightarrow>
          (if co_killed_by_timeout co
           then kills es = [(pid, SIGKILL), (- pid, SIGKILL)] \<and> timed_out timeout start es
           else kills es = []))"

lemma finalize_spec:
  assumes "run_state (finalize f k ofd efd outb errb) w = (Some (a, b), w')" and "ofd \<noteq> efd \<or> ofd = None"
  shows "\<exists>es. trace w' = trace w @ es \<and> a = outb @ bytes_read ofd es \<and> b = errb @ bytes_read efd es \<and> kills es = []"
proof -
  obtain w1 w2 where 1: "run_state (drain_owned_fd f k ofd outb) w = (Some a, w1)"
    and 2: "run_state (drain_owned_fd f k efd errb) w1 = (Some b, w2)"
    and 3: "run_state (drop_fd k ofd \<bind> (\<lambda>_. drop_fd k efd \<bind> (\<lambda>_. State_Monad.return (a, b)))) w2 = ((a, b), w')"
    using assms(1) by (auto simp: finalize_def run_simps)
  have "emits calm (drop_fd k ofd \<bind> (\<lambda>_. drop_fd k efd \<bind> (\<lambda>_. State_Monad.return (a, b))))"
    by (intro emits_intros emits_drop_fd)
  from emits_run [OF this 3] obtain e3 where e3: "trace w' = trace w2 @ e3" "list_all calm e3" by blast
  obtain e1 where e1: "trace w1 = trace w @ e1" "a = outb @ bytes_read ofd e1" "only_reads ofd e1"
    using drain_owned_fd_spec [OF 1] by blast
  obtain e2 where e2: "trace w2 = trace w1 @ e2" "b = errb @ bytes_read efd e2" "only_reads efd e2"
    using drain_owned_fd_spec [OF 2] by blast
  have "bytes_read ofd e2 = []" "bytes_read efd e1 = []"
    using assms(2) e1(3) e2(3) by (cases ofd; cases efd; auto simp: only_reads_def)+
  then show ?thesis
    using e1 e2 e3 calm_events [OF e3(2)] by (intro exI [of _ "e1 @ e2 @ e3"]) (auto simp: only_reads_def)
qed

lemma wait_loop_spec:
  assumes "run_state (wait_loop n f k pid ofd efd timeout start outb errb kt) w = (Some (Inr co), w')"
    and fds: "ofd \<noteq> efd \<or> ofd = None"
  shows "\<exists>es. trace w' = trace w @ es \<and> wait_post pid ofd efd timeout start outb errb kt co es"
  using assms(1)
proof (induction n arbitrary: outb errb kt w)
  case (Suc n)
  obtain o1 w1 o2 w2 r w3 where 1: "run_state (read_available f k ofd outb) w = (Some o1, w1)"
    and 2: "run_state (read_available f k efd errb) w1 = (Some o2, w2)"
    and 3: "run_state (try_reap f k pid) w2 = (Some r, w3)"
    and rest: "run_state (case r of
         Inl e \<Rightarrow> lift_prog (drop_fd k efd \<bind> (\<lambda>_. drop_fd k ofd \<bind> (\<lambda>_. State_Monad.return (Inl e))))
       | Inr (Some (c, sg)) \<Rightarrow>
           obind (finalize f k ofd efd o1 o2) (\<lambda>(outb, errb).
             State_Monad.return (Some (Inr
               \<lparr>co_stdout = outb, co_stderr = errb, co_exit_code = c,
                co_killed_by_timeout = (kt \<noteq> None), co_signal = sg\<rparr>)))
       | Inr None \<Rightarrow>
           timeout_step k pid timeout start kt \<bind> (\<lambda>(kill_time, give_up).
             if give_up
             then lift_prog (drop_fd k efd \<bind> (\<lambda>_. drop_fd k ofd \<bind> (\<lambda>_. State_Monad.return (Inl unkillable))))
             else sleep_ms REAP_POLL_INTERVAL_MS \<bind> (\<lambda>_.
               wait_loop n f k pid ofd efd timeout start o1 o2 kill_time))) w3 = (Some (Inr co), w')"
    using Suc.prems unfolding wait_loop.simps run_obind_iff by blast
  obtain e1 where e1: "trace w1 = trace w @ e1" "o1 = outb @ bytes_read ofd e1" "only_reads ofd e1"
    using read_available_spec [OF 1] by blast
  obtain e2 where e2: "trace w2 = trace w1 @ e2" "o2 = errb @ bytes_read efd e2" "only_reads efd e2"
    using read_available_spec [OF 2] by blast
  obtain e3 where e3: "trace w3 = trace w2 @ e3" "list_all calm e3"
    "\<forall>x. r = Inr (Some x) \<longrightarrow> (\<exists>st. WaitPid pid True (Inr st) \<in> set e3 \<and> exit_of st = Some x)"
    using try_reap_spec [OF 3] by blast
  have cross: "bytes_read ofd e2 = []" "bytes_read efd e1 = []"
    using fds e1(3) e2(3) by (cases ofd; cases efd; auto simp: only_reads_def)+
  note parts = e1 e2 e3 cross calm_events [OF e3(2)]
  show ?case
  proof (cases r)
    case (Inl e)
    then show ?thesis using rest by (auto simp: run_simps)
  next
    case (Inr reaped)
    show ?thesis
    proof (cases reaped)
      case (Some x)
      obtain c sg where x: "x = (c, sg)" by force
      obtain a b where ab: "run_state (finalize f k ofd efd o1 o2) w3 = (Some (a, b), w')"
        "co = \<lparr>co_stdout = a, co_stderr = b, co_exit_code = c, co_killed_by_timeout = (kt \<noteq> None), co_signal = sg\<rparr>"
        using rest Inr Some x by (auto simp: run_simps)
      obtain e4 where "trace w' = trace w3 @ e4" "a = o1 @ bytes_read ofd e4" "b = o2 @ bytes_read efd e4" "kills e4 = []"
        using finalize_spec [OF ab(1) fds] by blast
      then show ?thesis using parts ab(2) Inr Some x
        by (intro exI [of _ "e1 @ e2 @ e3 @ e4"]) (auto simp: wait_post_def only_reads_def)
    next
      case None
      obtain kt' g w4 where 4: "run_state (timeout_step k pid timeout start kt) w3 = ((kt', g), w4)"
        by (metis prod.exhaust)
      then have "\<not> g" using rest Inr None by (auto simp: run_simps)
      then have rec: "run_state (wait_loop n f k pid ofd efd timeout start o1 o2 kt')
          (log_event (SleepMs REAP_POLL_INTERVAL_MS) w4) = (Some (Inr co), w')"
        using rest Inr None 4 by (auto simp: sleep_ms_def run_simps)
      obtain e4 where e4: "trace w4 = trace w3 @ e4" "\<forall>fd. bytes_read fd e4 = []"
        "(kt' = kt \<and> kills e4 = [])
         \<or> (kt = None \<and> kt' \<noteq> None \<and> kills e4 = [(pid, SIGKILL), (- pid, SIGKILL)] \<and> timed_out timeout start e4)"
        using timeout_step_spec [OF 4] by blast
      obtain e5 where e5: "trace w' = trace w4 @ SleepMs REAP_POLL_INTERVAL_MS # e5"
        "wait_post pid ofd efd timeout start o1 o2 kt' co e5"
        using Suc.IH [OF rec] by auto
      have "wait_post pid ofd efd timeout start outb errb kt co (e1 @ e2 @ e3 @ e4 @ [SleepMs REAP_POLL_INTERVAL_MS] @ e5)"
        using e4(2,3) e5(2) parts by (auto simp: wait_post_def only_reads_def)
      then show ?thesis using e4(1) e5(1) parts by (intro exI) auto
    qed
  qed
qed (simp add: run_simps)

lemmas wait_run_defs = wait_with_timeout_def set_pipes_nonblocking_def set_nonblock_def raw_call_def now_def
  read_available_def read_fd_def try_reap_def waitpid_def timeout_step_def elapsed_def kill_child_def kill_def
  finalize_def drain_owned_fd_def drop_fd_def close_raw_def sleep_ms_def POST_KILL_GRACE_def wp_simps

section \<open>The wait ends\<close>

text \<open>The clock never goes back and a sleep of 10 ms takes at least that long; a
  stream pauses or ends within \<open>f\<close> reads, and \<open>waitpid\<close> is not interrupted \<open>f\<close> times in a row.\<close>

definition clock_advances :: "kernel \<Rightarrow> bool" where
  "clock_advances k \<longleftrightarrow> (\<forall>h es. k_now k h \<le> k_now k (h @ es)) \<and> (\<forall>h. k_now k h + 10000000 \<le> k_now k (h @ [SleepMs 10]))"

primrec reads_pause :: "nat \<Rightarrow> kernel \<Rightarrow> int \<Rightarrow> event list \<Rightarrow> bool" where
  "reads_pause 0 k fd h = False"
| "reads_pause (Suc n) k fd h =
     (case k_read_fd k h fd 4096 of
        Inr (b # bs) \<Rightarrow> reads_pause n k fd (h @ [ReadFd fd 4096 (Inr (b # bs))])
      | _ \<Rightarrow> True)"

primrec wait_answers :: "nat \<Rightarrow> kernel \<Rightarrow> i32 \<Rightarrow> event list \<Rightarrow> bool" where
  "wait_answers 0 k pid h = False"
| "wait_answers (Suc n) k pid h =
     (k_waitpid k h pid True = Inl EINTR \<longrightarrow> wait_answers n k pid (h @ [WaitPid pid True (Inl EINTR)]))"

definition calls_return :: "nat \<Rightarrow> kernel \<Rightarrow> bool" where
  "calls_return f k \<longleftrightarrow> (\<forall>h. (\<forall>fd. reads_pause f k fd h) \<and> (\<forall>pid. wait_answers f k pid h))"

lemma drain_fd_returns:
  "reads_pause f k fd (trace w) \<Longrightarrow> \<exists>b w'. run_state (drain_fd f k fd buf) w = (Some b, w')"
  by (induction f arbitrary: buf w)
    (auto simp: read_fd_def syscall_def Let_def run_state_bind split: sum.splits list.splits)

lemma waitpid_retry_returns:
  "wait_answers f k pid (trace w) \<Longrightarrow> \<exists>b w'. run_state (waitpid_retry f k pid True) w = (Some b, w')"
  by (induction f arbitrary: w) (auto simp: waitpid_def syscall_def Let_def run_state_bind)

lemma calls_return_runs:
  assumes "calls_return f k"
  shows "\<exists>b w'. run_state (drain_owned_fd f k fd buf) w = (Some b, w')"
    and "\<exists>b w'. run_state (drain_fd f k d buf) w = (Some b, w')"
    and "\<exists>b w'. run_state (waitpid_retry f k pid True) w = (Some b, w')"
  using assms drain_fd_returns waitpid_retry_returns
  by (auto simp: drain_owned_fd_def calls_return_def split: option.splits)

lemma appends_drain_fd: "appends (drain_fd f k fd buf)"
  by (induction f arbitrary: buf) (auto simp: read_fd_def intro!: emits_intros split: list.splits)

lemma appends_waitpid_retry: "appends (waitpid_retry f k pid b)"
  by (induction f) (auto simp: waitpid_def intro!: emits_intros)

text \<open>The common part of a round: it reads, polls and leaves the time at least where it was.\<close>

lemma round_prefix:
  assumes ret: "calls_return f k" and clock: "clock_advances k"
  obtains o1 w1 o2 w2 r w3 where "run_state (read_available f k ofd outb) w = (Some o1, w1)"
    "run_state (read_available f k efd errb) w1 = (Some o2, w2)" "run_state (try_reap f k pid) w2 = (Some r, w3)"
    "k_now k (trace w) \<le> k_now k (trace w3)"
proof -
  have avail: "\<exists>b v'. run_state (read_available f k fd buf) v = (Some b, v') \<and> k_now k (trace v) \<le> k_now k (trace v')" for fd buf v
  proof (cases fd)
    case (Some d)
    obtain b v' where run: "run_state (drain_fd f k d buf) v = (Some b, v')"
      using calls_return_runs [OF ret] by blast
    moreover obtain es where "trace v' = trace v @ es" using appends_run [OF appends_drain_fd run] by blast
    ultimately show ?thesis using clock by (auto simp: read_available_def Some clock_advances_def)
  qed (auto simp: read_available_def)
  obtain o1 w1 where 1: "run_state (read_available f k ofd outb) w = (Some o1, w1)" "k_now k (trace w) \<le> k_now k (trace w1)"
    using avail by blast
  obtain o2 w2 where 2: "run_state (read_available f k efd errb) w1 = (Some o2, w2)" "k_now k (trace w1) \<le> k_now k (trace w2)"
    using avail by blast
  obtain a w3 where a: "run_state (waitpid_retry f k pid True) w2 = (Some a, w3)"
    using calls_return_runs [OF ret] by blast
  moreover obtain es where "trace w3 = trace w2 @ es" using appends_run [OF appends_waitpid_retry a] by blast
  ultimately have "\<exists>r. run_state (try_reap f k pid) w2 = (Some r, w3)" "k_now k (trace w2) \<le> k_now k (trace w3)"
    using clock by (auto simp: try_reap_def run_simps clock_advances_def)
  then show ?thesis using that 1 2 by (meson order_trans)
qed

lemma run_timeout_kill:
  assumes "timeout < k_now k (trace w) - start"
    and "run_state (kill_child k pid) (log_event (Clock (k_now k (trace w))) w) = ((), w2)"
  shows "run_state (timeout_step k pid timeout start None) w =
     (let x = k_now k (trace w2); e = k_now k (trace w2 @ [Clock x])
      in ((Some x, e - x > POST_KILL_GRACE), log_event (Clock e) (log_event (Clock x) w2)))"
  unfolding timeout_step_def elapsed_def now_def
  using assms by (simp add: run_simps Let_def)

lemma timeout_step_cases:
  assumes "run_state (timeout_step k pid timeout start kt) w = ((kt', g), w')"
  obtains (waiting) "kt = None" "k_now k (trace w) - start \<le> timeout" "kt' = None" "\<not> g"
      "\<exists>es. trace w' = trace w @ es"
  | (killed_before) x es es' where "kt = Some x" "kt' = Some x" "trace w' = (trace w @ es) @ es'"
      "g \<longleftrightarrow> k_now k (trace w @ es) - x > POST_KILL_GRACE"
  | (killed_now) es es' es'' where "kt = None" "kt' = Some (k_now k (trace w @ es))" "trace w' = ((trace w @ es) @ es') @ es''"
      "g \<longleftrightarrow> k_now k ((trace w @ es) @ es') - k_now k (trace w @ es) > POST_KILL_GRACE"
proof -
  let ?t = "k_now k (trace w)"
  let ?w1 = "log_event (Clock ?t) w"
  show thesis
  proof (cases "?t - start > timeout \<and> kt = None")
    case True
    obtain w2 where w2: "run_state (kill_child k pid) ?w1 = ((), w2)" by (cases "run_state (kill_child k pid) ?w1") simp
    have "appends (kill_child k pid)" unfolding kill_child_def kill_def by (intro emits_intros) simp_all
    from appends_run [OF this w2] obtain es where es: "trace w2 = trace ?w1 @ es" by blast
    let ?x = "k_now k (trace w2)"
    have "kt' = Some ?x" "g \<longleftrightarrow> k_now k (trace w2 @ [Clock ?x]) - ?x > POST_KILL_GRACE"
        "w' = log_event (Clock (k_now k (trace w2 @ [Clock ?x]))) (log_event (Clock ?x) w2)"
      using assms True run_timeout_kill [OF _ w2] by (simp_all add: Let_def)
    then show thesis using True es
      by (intro killed_now [of "Clock ?t # es" "[Clock ?x]" "[Clock (k_now k (trace w2 @ [Clock ?x]))]"]) simp_all
  next
    case False
    show thesis
    proof (cases kt)
      case None
      then show thesis using assms False
        by (intro waiting) (simp_all add: timeout_step_def elapsed_def now_def run_simps, auto)
    next
      case (Some x)
      then have "kt' = Some x" "trace w' = (trace w @ [Clock ?t]) @ [Clock (k_now k (trace w @ [Clock ?t]))]"
          "g \<longleftrightarrow> k_now k (trace w @ [Clock ?t]) - x > POST_KILL_GRACE"
        using assms by (simp_all add: timeout_step_def elapsed_def now_def run_simps) (auto simp: run_simps)
      then show thesis using Some
        by (intro killed_before [of x "[Clock ?t]" "[Clock (k_now k (trace w @ [Clock ?t]))]"]) simp_all
    qed
  qed
qed

lemma timeout_step_clock:
  assumes run: "run_state (timeout_step k pid timeout start kt) w = ((kt', g), w')" and clock: "clock_advances k"
  shows "k_now k (trace w) \<le> k_now k (trace w')"
    and "kt' = None \<Longrightarrow> kt = None \<and> k_now k (trace w) \<le> start + timeout \<and> \<not> g"
    and "kt' = Some x \<Longrightarrow> kt = Some x \<or> (kt = None \<and> x \<le> k_now k (trace w'))"
    and "kt = Some x \<Longrightarrow> \<not> g \<Longrightarrow> k_now k (trace w) \<le> x + POST_KILL_GRACE"
proof -
  have mono: "k_now k h \<le> k_now k (h @ es)" for h es using clock by (simp add: clock_advances_def)
  from run show "k_now k (trace w) \<le> k_now k (trace w')"
    by (cases rule: timeout_step_cases) (use mono in \<open>force+\<close>)
  from run show "kt = None \<and> k_now k (trace w) \<le> start + timeout \<and> \<not> g" if "kt' = None"
    by (cases rule: timeout_step_cases) (use that in auto)
  from run show "kt = Some x \<or> (kt = None \<and> x \<le> k_now k (trace w'))" if "kt' = Some x"
  proof (cases rule: timeout_step_cases)
    case (killed_now es es' es'')
    have "k_now k (trace w @ es) \<le> k_now k (((trace w @ es) @ es') @ es'')" using mono by (metis append.assoc)
    then show ?thesis using killed_now that by simp
  qed (use that in auto)
  from run show "k_now k (trace w) \<le> x + POST_KILL_GRACE" if "kt = Some x" "\<not> g"
  proof (cases rule: timeout_step_cases)
    case (killed_before y es es')
    then show ?thesis using that mono [of "trace w" es] by simp
  qed (use that in auto)
qed

definition enough_rounds :: "nat \<Rightarrow> nat \<Rightarrow> nat \<Rightarrow> nat \<Rightarrow> nat option \<Rightarrow> bool" where
  "enough_rounds n t timeout start kt \<longleftrightarrow>
     (case kt of
        None \<Rightarrow> \<exists>m. start + timeout + 10000000 < t + m * 10000000 \<and> m + 502 \<le> n
      | Some x \<Rightarrow> 0 < n \<and> x + POST_KILL_GRACE + 10000000 < t + n * 10000000)"

lemma finalize_returns:
  assumes "calls_return f k"
  shows "\<exists>x w'. run_state (finalize f k ofd efd outb errb) w = (Some x, w')"
proof -
  obtain a w1 where 1: "run_state (drain_owned_fd f k ofd outb) w = (Some a, w1)"
    using calls_return_runs(1) [OF assms] by blast
  obtain b w2 where 2: "run_state (drain_owned_fd f k efd errb) w1 = (Some b, w2)"
    using calls_return_runs(1) [OF assms] by blast
  show ?thesis unfolding finalize_def
    using 1 2 by (simp add: run_state_obind run_state_lift_prog split: prod.splits)
qed

lemma enough_rounds_step:
  assumes "enough_rounds (Suc n) t timeout start kt" "t \<le> t3" "t3 \<le> t4" "t4 + 10000000 \<le> t5"
    and "kt' = None \<Longrightarrow> kt = None \<and> t3 \<le> start + timeout"
    and "\<And>x. kt' = Some x \<Longrightarrow> kt = Some x \<or> (kt = None \<and> x \<le> t4)"
    and "\<And>x. kt = Some x \<Longrightarrow> t3 \<le> x + POST_KILL_GRACE"
  shows "enough_rounds n t5 timeout start kt'"
proof (cases kt')
  case None
  then obtain m where m: "start + timeout + 10000000 < t + m * 10000000" "m + 502 \<le> Suc n"
    using assms(1,5) by (auto simp: enough_rounds_def)
  then obtain m' where "m = Suc m'" using assms(2,5) None by (cases m) auto
  then show ?thesis using None m assms(2,3,4) by (auto simp: enough_rounds_def intro!: exI [of _ m'])
next
  case (Some x)
  show ?thesis
  proof (cases kt)
    case None
    then show ?thesis using Some assms(1,4,6) by (auto simp: enough_rounds_def POST_KILL_GRACE_def)
  next
    case (Some y)
    then show ?thesis using \<open>kt' = Some x\<close> assms(1-4,6,7) by (auto simp: enough_rounds_def)
  qed
qed

lemma wait_loop_ends:
  assumes ret: "calls_return f k" and clock: "clock_advances k"
  shows "enough_rounds n (k_now k (trace w)) timeout start kt \<Longrightarrow>
    \<exists>r w'. run_state (wait_loop n f k pid ofd efd timeout start outb errb kt) w = (Some r, w')"
proof (induction n arbitrary: outb errb kt w)
  case 0
  then show ?case by (auto simp: enough_rounds_def split: option.splits)
next
  case (Suc n)
  obtain o1 w1 o2 w2 r w3 where 1: "run_state (read_available f k ofd outb) w = (Some o1, w1)"
    and 2: "run_state (read_available f k efd errb) w1 = (Some o2, w2)"
    and 3: "run_state (try_reap f k pid) w2 = (Some r, w3)" and t3: "k_now k (trace w) \<le> k_now k (trace w3)"
    by (rule round_prefix [OF ret clock])
  note prefix = 1 2 3 run_state_obind run_state_lift_prog
  show ?case
  proof (cases r)
    case (Inl e)
    then show ?thesis by (simp add: prefix split: prod.splits)
  next
    case (Inr reaped)
    show ?thesis
    proof (cases reaped)
      case (Some x)
      then show ?thesis using Inr finalize_returns [OF ret, of ofd efd o1 o2 w3]
        by (cases x) (auto simp: prefix split: prod.splits)
    next
      case None
      obtain kt' g w4 where 4: "run_state (timeout_step k pid timeout start kt) w3 = ((kt', g), w4)"
        by (metis prod.exhaust)
      let ?w5 = "log_event (SleepMs 10) w4"
      have t5: "k_now k (trace w4) + 10000000 \<le> k_now k (trace ?w5)" using clock by (simp add: clock_advances_def)
      note c = timeout_step_clock [OF 4 clock]
      show ?thesis
      proof (cases g)
        case True
        then show ?thesis using Inr None 4 by (simp add: prefix run_state_bind split: prod.splits)
      next
        case False
        have "enough_rounds n (k_now k (trace ?w5)) timeout start kt'"
          using Suc.prems t3 c(1) t5 by (rule enough_rounds_step) (use c False in blast)+
        from Suc.IH [OF this] show ?thesis
          using Inr None 4 False by (simp add: prefix run_state_bind sleep_ms_def syscall_def REAP_POLL_INTERVAL_MS_def)
      qed
    qed
  qed
qed
text \<open>C30: What a wait reports is what happened. When \<open>wait_with_timeout\<close> returns an output, its two
  byte strings are exactly the bytes read from the two pipes, in order and none left out; its exit
  code and signal are those of an exit status that \<open>waitpid\<close> returned for the child; and the child and
  its process group are killed with \<open>SIGKILL\<close> exactly once, after a clock reading past the limit, if
  the output says it was killed by the timeout, and not at all otherwise.\<close>

theorem wait_collects_output:
  assumes run: "run_state (wait_with_timeout n f k pid ofd efd timeout) w = (Some (Inr co), w')"
    and fds: "ofd \<noteq> efd \<or> ofd = None"
  shows "\<exists>es start. trace w' = trace w @ es \<and> Clock start \<in> set es
     \<and> co_stdout co = bytes_read ofd es \<and> co_stderr co = bytes_read efd es
     \<and> (\<exists>st. WaitPid pid True (Inr st) \<in> set es \<and> exit_of st = Some (co_exit_code co, co_signal co))
     \<and> (if co_killed_by_timeout co
        then kills es = [(pid, SIGKILL), (- pid, SIGKILL)] \<and> timed_out timeout start es
        else kills es = [])"
proof -
  obtain w1 where 1: "run_state (set_pipes_nonblocking k ofd efd) w = ((), w1)"
    by (cases "run_state (set_pipes_nonblocking k ofd efd) w") simp
  define start where "start = k_now k (trace w1)"
  have "run_state (wait_loop n f k pid ofd efd timeout start [] [] None) (log_event (Clock start) w1) = (Some (Inr co), w')"
    using run 1 by (simp add: wait_with_timeout_def now_def syscall_def Let_def run_state_bind start_def)
  from wait_loop_spec [OF this fds] obtain es2 where 2: "trace w' = trace w1 @ Clock start # es2"
    "wait_post pid ofd efd timeout start [] [] None co es2" by auto
  obtain es1 where 3: "trace w1 = trace w @ es1" "list_all calm es1"
    using emits_run [OF emits_set_pipes_nonblocking 1] by blast
  show ?thesis
    using 2 3 calm_events [OF 3(2)] by (intro exI [of _ "es1 @ Clock start # es2"] exI [of _ start]) (auto simp: wait_post_def)
qed

text \<open>A child that writes one byte and then hangs until it is killed; its clock advances by one second
  with every call.\<close>

definition hanging_child :: kernel where
  "hanging_child = granting_kernel\<lparr>
     k_read_fd := (\<lambda>h fd n. if list_ex (\<lambda>e. e = ReadFd 5 4096 (Inr [7])) h then Inl 11 else Inr [7]),
     k_waitpid := (\<lambda>h p f. if list_ex (\<lambda>e. e = KillPid p SIGKILL True) h then Inr (Signaled 9) else Inr StillAlive),
     k_now := (\<lambda>h. 1000000000 * length h)\<rparr>"

theorem wait_collects_output_witness:
  "\<exists>w' es start. run_state (wait_with_timeout 2 2 hanging_child 42 (Some 5) None 1000000000) initial_world =
       (Some (Inr \<lparr>co_stdout = [7], co_stderr = [], co_exit_code = 137, co_killed_by_timeout = True, co_signal = Some 9\<rparr>), w')
     \<and> trace w' = es \<and> kills es = [(42, SIGKILL), (- 42, SIGKILL)] \<and> timed_out 1000000000 start es"
proof -
  let ?m = "wait_with_timeout 2 2 hanging_child 42 (Some 5) None 1000000000"
  let ?co = "\<lparr>co_stdout = [7], co_stderr = [], co_exit_code = 137, co_killed_by_timeout = True, co_signal = Some 9\<rparr>"
  have "wp ?m (\<lambda>r w'. r = Some (Inr ?co)) initial_world"
    by (simp add: numeral_2_eq_2 wait_run_defs Let_def hanging_child_def granting_kernel_def initial_world_def)
  then obtain w' where run: "run_state ?m initial_world = (Some (Inr ?co), w')"
    by (auto simp: wp_def split: prod.splits)
  show ?thesis using wait_collects_output [OF run] run by (simp add: initial_world_def) blast
qed

text \<open>C31: The wait with a time limit ends: with a clock that advances while the loop sleeps, pipes that
  run dry and a \<open>waitpid\<close> that answers, \<open>wait_with_timeout\<close> returns within one polling round per ten
  milliseconds of the limit plus 504, whether or not the child ever exits, even if it cannot be
  killed.\<close>

theorem wait_with_timeout_returns:
  assumes "clock_advances k" "calls_return f k" "timeout div 10000000 + 504 \<le> n"
  shows "\<exists>r w'. run_state (wait_with_timeout n f k pid ofd efd timeout) w = (Some r, w')"
proof -
  obtain w1 where 1: "run_state (set_pipes_nonblocking k ofd efd) w = ((), w1)"
    by (cases "run_state (set_pipes_nonblocking k ofd efd) w") simp
  let ?start = "k_now k (trace w1)"
  let ?w2 = "log_event (Clock ?start) w1"
  have "?start \<le> k_now k (trace ?w2)" using assms(1) by (simp add: clock_advances_def)
  moreover have "timeout + 10000000 < (timeout div 10000000 + 2) * 10000000" by simp
  ultimately have "enough_rounds n (k_now k (trace ?w2)) timeout ?start None"
    using assms(3) by (auto simp: enough_rounds_def intro!: exI [of _ "timeout div 10000000 + 2"])
  from wait_loop_ends [OF assms(2,1) this] show ?thesis
    using 1 by (simp add: wait_with_timeout_def now_def syscall_def Let_def run_state_bind)
qed

text \<open>A child that never exits, not even when killed.\<close>

definition immortal_child :: kernel where
  "immortal_child = granting_kernel\<lparr>k_read_fd := (\<lambda>h fd n. Inl 11), k_waitpid := (\<lambda>h p f. Inr StillAlive),
     k_now := (\<lambda>h. 10000000 * length (filter (\<lambda>e. e = SleepMs 10) h))\<rparr>"

theorem wait_with_timeout_returns_witness:
  "\<exists>r w'. run_state (wait_with_timeout 604 1 immortal_child 42 (Some 5) None 1000000000) initial_world = (Some r, w')"
proof -
  have "clock_advances immortal_child" by (simp add: clock_advances_def immortal_child_def)
  moreover have "calls_return 1 immortal_child"
    by (simp add: calls_return_def immortal_child_def)
  ultimately show ?thesis by (rule wait_with_timeout_returns) simp
qed

end
