(* ===== verification/Cgroup_Trace.thy ===== *)
theory Cgroup_Trace
  imports Cgroup_Limits
begin

text \<open>
  The events of the cgroup programs: they work on files, signal members and sleep, and never touch a
  descriptor, another process's exit or the proxy.
\<close>

fun file_event :: "event \<Rightarrow> bool" where
  "file_event (Raw _ _) = False"
| "file_event (MakePipe _ _) = False"
| "file_event (ReadFd _ _ _) = False"
| "file_event (WaitPid _ _ _) = False"
| "file_event (ProxyStart _) = False"
| "file_event (ProxyStop _) = False"
| "file_event _ = True"

lemma file_event_harmless: "harmless e \<Longrightarrow> file_event e"
  by (cases e) simp_all

lemmas file_harmless = emits_weaken [OF _ file_event_harmless]

lemma kill_all_files: "emits file_event (kill_all k cg)"
proof -
  have "emits file_event (kill_iterations k cg i)" for i
    by (induction i) (auto simp: get_pids_def cg_read_file_def call_defs intro!: emits_intros)
  then show ?thesis unfolding kill_all_def cg_write_file_def call_defs by (intro emits_intros) auto
qed

lemma cleanup_files: "emits file_event (cleanup k cg)"
proof -
  have "emits file_event (drain_iterations k cg i)" for i
    by (induction i) (auto simp: get_pids_def cg_read_file_def call_defs intro!: emits_intros)
  then show ?thesis unfolding cleanup_def
    by (auto simp: remove_dir_def intro!: emits_intros kill_all_files)
qed

lemma drop_cgroup_files: "emits file_event (drop_cgroup k cg)"
  unfolding drop_cgroup_def by (rule cleanup_files)

lemma try_enable_files: "emits file_event (try_enable_controllers k p cs)"
  by (induction cs) (auto simp: call_defs Let_def intro!: emits_intros)

lemma create_files: "emits file_event (CgroupManager_create k sid req)"
proof -
  have cs: "emits P (case s of Root b \<Rightarrow> f b | Delegated b \<Rightarrow> g b | CgUnavailable \<Rightarrow> m)"
    if "\<And>b. emits P (f b)" "\<And>b. emits P (g b)" "emits P m" for P s and f g :: "string \<Rightarrow> CgroupManager result prog" and m
    using that by (cases s) simp_all
  have "emits file_event (create_root k b sid req st)" "emits file_event (create_delegated k b sid req st)" for b st
    unfolding create_root_def create_delegated_def read_controllers_def call_defs Let_def
    by (intro emits_intros try_enable_files; simp)+
  then show ?thesis unfolding CgroupManager_create_def
    by (intro emits_intros cs file_harmless [OF get_cgroup_strategy_harmless])
qed

lemma configure_limits_files:
  "emits file_event (configure_memory k cfg plan cg st)" "emits file_event (configure_cpu k cfg plan cg st)"
  "emits file_event (configure_pids k cfg plan cg st)"
  unfolding configure_memory_def configure_cpu_def configure_pids_def set_memory_limit_def set_cpu_limit_def
    set_pids_limit_def cg_write_file_def call_defs Let_def
  by (intro emits_intros; simp)+

lemma configure_cgroup_files: "emits file_event (configure_cgroup k cfg plan sid pid)"
proof -
  have "emits file_event (attach_process k cfg plan pid cg a b c d)" for cg a b c d
    unfolding attach_process_def add_process_def fail_dropping_def cg_write_file_def call_defs Let_def
    by (intro emits_intros cleanup_files drop_cgroup_files) simp
  then have "emits file_event (apply_limits k cfg plan pid d cg)" for d cg
    unfolding apply_limits_def fail_dropping_def
    by (intro emits_intros configure_limits_files drop_cgroup_files)
  then show ?thesis unfolding configure_cgroup_def Let_def
    by (intro emits_intros create_files file_harmless [OF probe_cgroup_support_harmless])
qed

end
