(* ===== verification/Network.thy ===== *)
theory Network
  imports Errors
begin

text \<open>
  The domain-filtering HTTP proxy (\<open>src/network/proxy.rs\<close>) and its manager
  (\<open>src/network/manager.rs\<close>). A connection is a function from what the client sends (its lines up
  to end of file) and from the answers of the network (a parameter) to the actions the proxy takes,
  in order. The relaying of bytes after a connection is established is a single action.
\<close>

section \<open>The whitelist\<close>

definition is_allowed :: "string \<Rightarrow> string set \<Rightarrow> bool" where
  "is_allowed host allowed =
     (let domain = to_lowercase (hd (split_on (CHR '':'') host))
      in if domain \<in> allowed then True
         else (\<exists>pattern \<in> allowed.
                 case strip_prefix ''*.'' pattern of
                   Some stripped \<Rightarrow> ends_with stripped domain \<or> domain = stripped
                 | None \<Rightarrow> False))"

section \<open>Connections\<close>

datatype action =
    ToClient string
  | Connect string
  | ToRemote string
  | Tunnel \<comment> \<open>bidirectional copy of a CONNECT tunnel\<close>
  | CopyBack \<comment> \<open>copy of the response to the client\<close>

datatype connect_outcome = Connected | Refused | TimedOut

record net =
  n_connect :: "string \<Rightarrow> connect_outcome"
  n_client_ok :: "string \<Rightarrow> bool" \<comment> \<open>writing to the client succeeds\<close>
  n_remote_ok :: "string \<Rightarrow> bool"

text \<open>\<open>Ok(())\<close> is \<open>True\<close>; an IO error of a write is \<open>False\<close>.\<close>

type_synonym conn = "action list \<times> bool"

definition CRLF :: string where "CRLF = [CHR 0x0D, CHR 0x0A]"

definition send_error :: "net \<Rightarrow> nat \<Rightarrow> string \<Rightarrow> conn" where
  "send_error n c msg =
     (let body = ''<html><body><h1>'' @ show_nat c @ '' '' @ msg @ ''</h1><p>Nanobox proxy</p></body></html>'';
          response = ''HTTP/1.1 '' @ show_nat c @ '' '' @ msg @ CRLF @ ''Content-Type: text/html'' @ CRLF
            @ ''Content-Length: '' @ show_nat (length body) @ CRLF @ ''Connection: close'' @ CRLF @ CRLF @ body
      in ([ToClient response], n_client_ok n response))"

definition nth_piece :: "nat \<Rightarrow> string list \<Rightarrow> string option" where
  "nth_piece i ps = (if i < length ps then Some (ps ! i) else None)"

definition parse_port :: "nat \<Rightarrow> string \<Rightarrow> nat" where
  "parse_port dflt host_port =
     (case nth_piece 1 (split_on (CHR '':'') host_port) of
        None \<Rightarrow> dflt
      | Some p \<Rightarrow> (case parse_unsigned (2 ^ 16) p of None \<Rightarrow> dflt | Some v \<Rightarrow> v))"

text \<open>Actions done before, then the rest.\<close>

definition after :: "action \<Rightarrow> conn \<Rightarrow> conn" where
  "after a c = (a # fst c, snd c)"

definition handle_connect :: "net \<Rightarrow> string \<Rightarrow> string set \<Rightarrow> conn" where
  "handle_connect n first_line allowed =
     (let parts = split_whitespace first_line
      in if length parts < 2 then send_error n 400 ''Bad Request''
         else
           let host_port = parts ! 1;
               host = hd (split_on (CHR '':'') host_port);
               port = parse_port 443 host_port
           in if \<not> is_allowed host allowed then send_error n 403 ''Domain not in whitelist''
              else
                let addr = host @ '':'' @ show_nat port
                in case n_connect n addr of
                     Refused \<Rightarrow> after (Connect addr) (send_error n 502 ''Bad Gateway'')
                   | TimedOut \<Rightarrow> after (Connect addr) (send_error n 504 ''Gateway Timeout'')
                   | Connected \<Rightarrow>
                       let ok = ''HTTP/1.1 200 Connection Established'' @ CRLF @ CRLF
                       in if n_client_ok n ok then ([Connect addr, ToClient ok, Tunnel], True)
                          else ([Connect addr, ToClient ok], False))"

text \<open>\<open>str::find\<close>: the index of the first occurrence.\<close>

fun str_find :: "string \<Rightarrow> string \<Rightarrow> nat option" where
  "str_find p s =
     (if starts_with p s then Some 0
      else case s of [] \<Rightarrow> None | c # cs \<Rightarrow> map_option Suc (str_find p cs))"

declare str_find.simps [simp del]

definition or_else :: "'a option \<Rightarrow> 'a option \<Rightarrow> 'a option" where
  "or_else a b = (case a of Some x \<Rightarrow> Some x | None \<Rightarrow> b)"

definition rest_of_headers :: "string \<Rightarrow> string" where
  "rest_of_headers all_headers =
     (case or_else (str_find CRLF all_headers) (str_find [CHR 0x0A] all_headers) of
        None \<Rightarrow> []
      | Some i \<Rightarrow> drop (i + (if starts_with CRLF (drop i all_headers) then 2 else 1)) all_headers)"

definition request_path :: "string \<Rightarrow> string" where
  "request_path url =
     (let u = trim_start_matches ''http://'' url
      in case str_find ''/'' u of Some i \<Rightarrow> drop i u | None \<Rightarrow> ''/'')"

definition handle_http :: "net \<Rightarrow> string \<Rightarrow> string \<Rightarrow> string set \<Rightarrow> conn" where
  "handle_http n first_line all_headers allowed =
     (let parts = split_whitespace first_line
      in if length parts < 2 then send_error n 400 ''Bad Request''
         else
           let url = parts ! 1
           in if \<not> starts_with ''http://'' url then send_error n 400 ''Absolute URL required''
              else
                let host = hd (split_on (CHR '':'') (hd (split_on (CHR ''/'') (trim_start_matches ''http://'' url))))
                in if \<not> is_allowed host allowed then send_error n 403 ''Domain not in whitelist''
                   else
                     let host_port = hd (split_on (CHR ''/'') (trim_start_matches ''http://'' url));
                         target_host = hd (split_on (CHR '':'') host_port);
                         target_port = parse_port 80 host_port;
                         path = request_path url;
                         method = parts ! 0;
                         version = (if length parts > 2 then parts ! 2 else ''HTTP/1.1'');
                         headers = method @ '' '' @ path @ '' '' @ version @ CRLF @ rest_of_headers all_headers;
                         addr = target_host @ '':'' @ show_nat target_port
                     in case n_connect n addr of
                          Refused \<Rightarrow> after (Connect addr) (send_error n 502 ''Bad Gateway'')
                        | TimedOut \<Rightarrow> after (Connect addr) (send_error n 504 ''Gateway Timeout'')
                        | Connected \<Rightarrow>
                            if n_remote_ok n headers then ([Connect addr, ToRemote headers, CopyBack], True)
                            else ([Connect addr, ToRemote headers], False))"

text \<open>\<open>read_line\<close> returns the client's lines with their terminators; an error ends the connection.\<close>

fun read_headers :: "(unit + string) list \<Rightarrow> string \<Rightarrow> string option" where
  "read_headers [] acc = Some acc"
| "read_headers (Inl _ # _) acc = None"
| "read_headers (Inr line # rest) acc =
     (if line = [] then Some acc
      else if line = CRLF \<or> line = [CHR 0x0A] then Some (acc @ line)
      else read_headers rest (acc @ line))"

definition first_line_of :: "string \<Rightarrow> string" where
  "first_line_of all_headers = (case str_lines all_headers of [] \<Rightarrow> [] | l # _ \<Rightarrow> l)"

definition handle_connection :: "net \<Rightarrow> (unit + string) list \<Rightarrow> string set \<Rightarrow> conn" where
  "handle_connection n input allowed =
     (case read_headers input [] of
        None \<Rightarrow> ([], False)
      | Some all_headers \<Rightarrow>
          let first_line = first_line_of all_headers
          in if starts_with ''CONNECT '' first_line then handle_connect n first_line allowed
             else handle_http n first_line all_headers allowed)"

section \<open>The manager\<close>

record ProxiedNetwork =
  proxy_port :: u16
  proxy_url :: string
  shutdown_sent :: bool

text \<open>\<open>bind\<close> is the port of the probe listener or its error, \<open>runtime\<close> the error of starting the
  runtime, if any.\<close>

definition ProxiedNetwork_setup :: "string + u16 \<Rightarrow> string option \<Rightarrow> ProxiedNetwork result" where
  "ProxiedNetwork_setup bound runtime =
     (case bound of
        Inl e \<Rightarrow> Inl (SandboxError_new ErrorKind.Network e)
      | Inr port \<Rightarrow>
          (case runtime of
             Some e \<Rightarrow> Inl (SandboxError_new ErrorKind.Network (''Failed to create runtime: '' @ e))
           | None \<Rightarrow> Inr \<lparr>proxy_port = port, proxy_url = ''http://127.0.0.1:'' @ show_nat (unat port),
                          shutdown_sent = False\<rparr>))"

definition env_vars :: "ProxiedNetwork \<Rightarrow> (string \<times> string) list" where
  "env_vars p =
     [(''HTTP_PROXY'', proxy_url p), (''HTTPS_PROXY'', proxy_url p),
      (''http_proxy'', proxy_url p), (''https_proxy'', proxy_url p)]"

definition shutdown :: "ProxiedNetwork \<Rightarrow> ProxiedNetwork" where
  "shutdown p = p\<lparr>shutdown_sent := True\<rparr>"

section \<open>Lemmas\<close>

lemma parse_port_bound: "d < 2 ^ 16 \<Longrightarrow> parse_port d s < 2 ^ 16"
  by (auto simp: parse_port_def dest: parse_unsigned_bound split: option.splits)

lemma host_no_colon: "CHR '':'' \<notin> set (hd (split_on (CHR '':'') s))"
  by (auto simp: hd_split_on dest: set_takeWhileD)

lemma send_error_no_connect: "Connect a \<notin> set (fst (send_error n c msg))"
  by (simp add: send_error_def Let_def)

definition allowed_addr :: "string set \<Rightarrow> string \<Rightarrow> bool" where
  "allowed_addr allowed a \<longleftrightarrow>
     (\<exists>host port. a = host @ '':'' @ show_nat port \<and> port < 2 ^ 16 \<and> CHR '':'' \<notin> set host
        \<and> is_allowed host allowed)"

definition connects_allowed :: "string set \<Rightarrow> action list \<Rightarrow> bool" where
  "connects_allowed allowed acts \<longleftrightarrow> (\<forall>a. Connect a \<in> set acts \<longrightarrow> allowed_addr allowed a)"

lemma allowed_addr_parsed:
  "is_allowed (hd (split_on (CHR '':'') hp)) allowed \<Longrightarrow> d < 2 ^ 16 \<Longrightarrow>
   allowed_addr allowed (hd (split_on (CHR '':'') hp) @ CHR '':'' # show_nat (parse_port d hp))"
  unfolding allowed_addr_def using host_no_colon parse_port_bound by fastforce

lemma connects_allowed_simps [simp]:
  "connects_allowed allowed []"
  "connects_allowed allowed (Connect a # acts) \<longleftrightarrow> allowed_addr allowed a \<and> connects_allowed allowed acts"
  "connects_allowed allowed (ToClient s # acts) \<longleftrightarrow> connects_allowed allowed acts"
  "connects_allowed allowed (ToRemote s # acts) \<longleftrightarrow> connects_allowed allowed acts"
  "connects_allowed allowed (Tunnel # acts) \<longleftrightarrow> connects_allowed allowed acts"
  "connects_allowed allowed (CopyBack # acts) \<longleftrightarrow> connects_allowed allowed acts"
  "connects_allowed allowed (fst (send_error n c msg))"
  by (auto simp: connects_allowed_def send_error_no_connect)

lemma handle_connect_allowed: "connects_allowed allowed (fst (handle_connect n first_line allowed))"
  by (simp add: handle_connect_def Let_def after_def allowed_addr_parsed split: connect_outcome.split)

lemma handle_http_allowed: "connects_allowed allowed (fst (handle_http n first_line all_headers allowed))"
  by (simp add: handle_http_def Let_def after_def allowed_addr_parsed split: connect_outcome.split)

lemma is_allowed_iff:
  "is_allowed host allowed \<longleftrightarrow>
     (let domain = to_lowercase (takeWhile (\<lambda>c. c \<noteq> CHR '':'') host)
      in domain \<in> allowed \<or> (\<exists>pre suf. ''*.'' @ suf \<in> allowed \<and> domain = pre @ suf))"
proof -
  have "(case strip_prefix ''*.'' p of Some stripped \<Rightarrow> ends_with stripped d \<or> d = stripped | None \<Rightarrow> False)
      \<longleftrightarrow> (\<exists>pre suf. p = ''*.'' @ suf \<and> d = pre @ suf)" for p d
    by (cases "strip_prefix ''*.'' p")
      (auto simp: strip_prefix_Some_iff ends_with_iff strip_prefix_def starts_with_iff split: if_splits)
  then show ?thesis
    unfolding is_allowed_def Let_def hd_split_on by (auto; metis)
qed

lemma str_find_Some: "str_find p s = Some i \<Longrightarrow> starts_with p (drop i s)"
proof (induction p s arbitrary: i rule: str_find.induct)
  case (1 p s)
  then show ?case
    by (subst (asm) str_find.simps) (auto split: if_splits list.splits)
qed

lemma request_path_slash: "starts_with ''/'' (request_path url)"
  by (auto simp: request_path_def Let_def starts_with_def dest: str_find_Some split: option.split)

definition origin_form :: "string \<Rightarrow> bool" where
  "origin_form h \<longleftrightarrow>
     (\<exists>method path version rest. h = method @ '' '' @ path @ '' '' @ version @ CRLF @ rest
        \<and> starts_with ''/'' path \<and> (\<forall>c \<in> set method. \<not> is_ws c) \<and> (\<forall>c \<in> set version. \<not> is_ws c))"

lemma split_whitespace_no_ws: "p \<in> set (split_whitespace s) \<Longrightarrow> c \<in> set p \<Longrightarrow> \<not> is_ws c"
proof (induction s rule: split_whitespace.induct)
  case (1 s)
  show ?case
  proof (cases "dropWhile is_ws s")
    case Nil
    with 1(2) show ?thesis by (simp add: split_whitespace.simps [of s])
  next
    case (Cons d ds)
    have "\<not> is_ws d" using hd_dropWhile [of is_ws s] Cons by simp
    moreover have "\<forall>c \<in> set (takeWhile (Not \<circ> is_ws) ds). \<not> is_ws c" by (auto dest!: set_takeWhileD)
    ultimately show ?thesis
      using 1 Cons by (auto simp: split_whitespace.simps [of s])
  qed
qed

lemma send_error_no_remote: "ToRemote h \<notin> set (fst (send_error n c msg))"
  by (simp add: send_error_def Let_def)

lemma handle_connect_no_remote: "ToRemote h \<notin> set (fst (handle_connect n l allowed))"
  by (simp add: handle_connect_def Let_def after_def send_error_no_remote split: connect_outcome.split)

lemma handle_http_remote:
  assumes "ToRemote h \<in> set (fst (handle_http n l hs allowed))"
  shows "\<exists>url rest version. 2 \<le> length (split_whitespace l)
    \<and> h = split_whitespace l ! 0 @ '' '' @ request_path url @ '' '' @ version @ CRLF @ rest
    \<and> (version = ''HTTP/1.1'' \<or> version \<in> set (split_whitespace l))"
proof -
  let ?parts = "split_whitespace l"
  let ?version = "if length ?parts > 2 then ?parts ! 2 else ''HTTP/1.1''"
  have "2 \<le> length ?parts \<and> h = ?parts ! 0 @ '' '' @ request_path (?parts ! 1) @ '' '' @ ?version @ CRLF @ rest_of_headers hs"
    using assms
    by (auto simp: handle_http_def Let_def after_def send_error_no_remote not_less split: connect_outcome.splits if_splits)
  moreover have "?version = ''HTTP/1.1'' \<or> ?version \<in> set ?parts" by simp
  ultimately show ?thesis by blast
qed

section \<open>Properties\<close>

text \<open>C10: The proxy opens connections only to hosts that its whitelist allows: whatever the client
  sends and however the network answers, every address it connects to is a host without a colon
  that passes \<open>is_allowed\<close>, with a 16-bit port. In particular the host that is checked is the host
  that is contacted, for CONNECT tunnels and for plain requests.\<close>

theorem proxy_connects_only_to_allowed:
  "connects_allowed allowed (fst (handle_connection n input allowed))"
  unfolding handle_connection_def Let_def
  using handle_connect_allowed handle_http_allowed
  by (simp split: option.split)


text \<open>C11: A plain request is forwarded in origin form: what the proxy sends to the remote host starts
  with the client's method, a path that begins with a slash, and a version, none of them with white
  space in method or version, so that the absolute URL never reaches the origin server.\<close>

theorem forwarded_requests_are_origin_form:
  assumes "ToRemote h \<in> set (fst (handle_connection n input allowed))"
  shows "origin_form h"
proof -
  obtain l hs where "ToRemote h \<in> set (fst (handle_http n l hs allowed))"
    using assms by (auto simp: handle_connection_def Let_def handle_connect_no_remote split: option.splits if_splits)
  then obtain url rest version where h: "2 \<le> length (split_whitespace l)"
      "h = split_whitespace l ! 0 @ '' '' @ request_path url @ '' '' @ version @ CRLF @ rest"
      "version = ''HTTP/1.1'' \<or> version \<in> set (split_whitespace l)"
    using handle_http_remote by blast
  have "split_whitespace l ! 0 \<in> set (split_whitespace l)" using h(1) by (auto intro: nth_mem)
  then have "\<forall>c \<in> set (split_whitespace l ! 0). \<not> is_ws c" using split_whitespace_no_ws by blast
  moreover have "\<forall>c \<in> set version. \<not> is_ws c"
    using h(3) split_whitespace_no_ws by (auto simp: is_ws_def)
  ultimately show ?thesis using h(2) request_path_slash unfolding origin_form_def by blast
qed

definition demo_net :: net where
  "demo_net = \<lparr>n_connect = (\<lambda>a. Connected), n_client_ok = (\<lambda>s. True), n_remote_ok = (\<lambda>s. True)\<rparr>"

theorem forwarded_requests_are_origin_form_witness:
  "\<exists>h. ToRemote h \<in> set (fst (handle_connection demo_net [Inr (''GET http://a.b/x HTTP/1.1'' @ CRLF), Inr CRLF] {''a.b''}))
     \<and> origin_form h"
proof -
  have "fst (handle_connection demo_net [Inr (''GET http://a.b/x HTTP/1.1'' @ CRLF), Inr CRLF] {''a.b''})
      = [Connect ''a.b:80'', ToRemote (''GET /x HTTP/1.1'' @ CRLF @ CRLF), CopyBack]"
    by code_simp
  then have "ToRemote (''GET /x HTTP/1.1'' @ CRLF @ CRLF)
      \<in> set (fst (handle_connection demo_net [Inr (''GET http://a.b/x HTTP/1.1'' @ CRLF), Inr CRLF] {''a.b''}))"
    by simp
  with forwarded_requests_are_origin_form show ?thesis by blast
qed

text \<open>A pattern for the subdomains of \<open>example.com\<close> also admits \<open>evilexample.com\<close>, and a pattern with
  an upper-case letter admits nothing.\<close>

lemma wildcard_admits_lookalike: "is_allowed ''evilexample.com'' {''*.example.com''}"
  by code_simp

lemma uppercase_pattern_never_matches: "\<not> is_allowed ''Example.com'' {''Example.com''}"
  by code_simp

end
