(* ===== verification/Monitors.thy ===== *)
theory Monitors
  imports Fd "HOL-Library.Multiset"
begin

text \<open>
  Trace monitors. A monitor reads the events of a trace one by one and rejects, or goes to a new
  state; \<open>keeps d s m Q\<close> says that a program started in monitor state \<open>s\<close> is never rejected and that
  its result and the final monitor state satisfy \<open>Q\<close>. The rules below make this a small program logic.
  Its first use is the ownership of file descriptors.
\<close>

section \<open>Monitors\<close>

primrec steps :: "('s \<Rightarrow> event \<Rightarrow> 's option) \<Rightarrow> 's \<Rightarrow> event list \<Rightarrow> 's option" where
  "steps d s [] = Some s"
| "steps d s (e # es) = (case d s e of None \<Rightarrow> None | Some s' \<Rightarrow> steps d s' es)"

lemma steps_append: "steps d s (es @ fs) = (case steps d s es of None \<Rightarrow> None | Some s' \<Rightarrow> steps d s' fs)"
  by (induction es arbitrary: s) (auto split: option.splits)

definition keeps :: "('s \<Rightarrow> event \<Rightarrow> 's option) \<Rightarrow> 's \<Rightarrow> 'a prog \<Rightarrow> ('a \<Rightarrow> 's \<Rightarrow> bool) \<Rightarrow> bool" where
  "keeps d s m Q \<longleftrightarrow>
     (\<forall>w r w'. run_state m w = (r, w') \<longrightarrow> (\<exists>es s'. trace w' = trace w @ es \<and> steps d s es = Some s' \<and> Q r s'))"

lemma keepsD:
  assumes "keeps d s m Q" "run_state m w = (r, w')"
  obtains es s' where "trace w' = trace w @ es" "steps d s es = Some s'" "Q r s'"
  using assms unfolding keeps_def by blast

lemma keeps_new_events:
  assumes "keeps d s m Q" "run_state m w = (r, w')"
  shows "\<exists>s'. steps d s (new_events w w') = Some s' \<and> Q r s'"
  using assms by (rule keepsD) (auto simp: new_events_def)

lemma keeps_mono: "keeps d s m P \<Longrightarrow> (\<And>r s'. P r s' \<Longrightarrow> Q r s') \<Longrightarrow> keeps d s m Q"
  unfolding keeps_def by meson

named_theorems keeps_intros

lemma keeps_return [keeps_intros]: "Q x s \<Longrightarrow> keeps d s (State_Monad.return x) Q"
  by (simp add: keeps_def run_simps)

lemma keeps_bind:
  assumes "keeps d s m P" and "\<And>r s'. P r s' \<Longrightarrow> keeps d s' (f r) Q"
  shows "keeps d s (m \<bind> f) Q"
  unfolding keeps_def
proof (intro allI impI)
  fix w r w'' assume "run_state (m \<bind> f) w = (r, w'')"
  then obtain x w' where 1: "run_state m w = (x, w')" and 2: "run_state (f x) w' = (r, w'')"
    by (auto simp: run_simps)
  from keepsD [OF assms(1) 1] obtain es s' where es: "trace w' = trace w @ es" "steps d s es = Some s'" "P x s'" .
  from keepsD [OF assms(2) [OF es(3)] 2] obtain fs s'' where
    "trace w'' = trace w' @ fs" "steps d s' fs = Some s''" "Q r s''" .
  then show "\<exists>es s'. trace w'' = trace w @ es \<and> steps d s es = Some s' \<and> Q r s'"
    using es by (intro exI [of _ "es @ fs"] exI [of _ s'']) (simp add: steps_append)
qed

lemma keeps_syscall: "(\<And>r. \<exists>s'. d s (ev r) = Some s' \<and> Q r s') \<Longrightarrow> keeps d s (syscall ans ev) Q"
  unfolding keeps_def
proof (intro allI impI)
  fix w r w' assume q: "\<And>r. \<exists>s'. d s (ev r) = Some s' \<and> Q r s'" and "run_state (syscall ans ev) w = (r, w')"
  then have "w' = log_event (ev r) w" by (auto simp: run_simps)
  then show "\<exists>es s'. trace w' = trace w @ es \<and> steps d s es = Some s' \<and> Q r s'"
    using q [of r] by (intro exI [of _ "[ev r]"]) auto
qed

text \<open>The same, when only some answers are possible.\<close>

lemma keeps_syscall_ans: "(\<And>h. \<exists>s'. d s (ev (ans h)) = Some s' \<and> Q (ans h) s') \<Longrightarrow> keeps d s (syscall ans ev) Q"
  unfolding keeps_def
proof (intro allI impI)
  fix w r w' assume q: "\<And>h. \<exists>s'. d s (ev (ans h)) = Some s' \<and> Q (ans h) s'" and "run_state (syscall ans ev) w = (r, w')"
  then have "r = ans (trace w)" "w' = log_event (ev r) w" by (auto simp: run_simps)
  then show "\<exists>es s'. trace w' = trace w @ es \<and> steps d s es = Some s' \<and> Q r s'"
    using q [of "trace w"] by (intro exI [of _ "[ev r]"]) auto
qed

text \<open>Events a monitor does not look at.\<close>

definition idle :: "('s \<Rightarrow> event \<Rightarrow> 's option) \<Rightarrow> event \<Rightarrow> bool" where
  "idle d e \<longleftrightarrow> (\<forall>s. d s e = Some s)"

lemma steps_idle: "list_all (idle d) es \<Longrightarrow> steps d s es = Some s"
  by (induction es) (simp_all add: idle_def)

lemma keeps_quiet: "emits (idle d) m \<Longrightarrow> (\<And>r. Q r s) \<Longrightarrow> keeps d s m Q"
  unfolding keeps_def by (metis emits_run steps_idle)

text \<open>A quiet program in front of another.\<close>

lemma keeps_quiet_bind: "emits (idle d) m \<Longrightarrow> (\<And>r. keeps d s (f r) Q) \<Longrightarrow> keeps d s (m \<bind> f) Q"
  by (rule keeps_bind [where P = "\<lambda>r s'. s' = s"]) (auto intro: keeps_quiet)

lemma keeps_if [keeps_intros]:
  "(b \<Longrightarrow> keeps d s m Q) \<Longrightarrow> (\<not> b \<Longrightarrow> keeps d s n Q) \<Longrightarrow> keeps d s (if b then m else n) Q"
  by simp

lemma keeps_case_sum [keeps_intros]:
  "(\<And>e. r = Inl e \<Longrightarrow> keeps d s (f e) Q) \<Longrightarrow> (\<And>x. r = Inr x \<Longrightarrow> keeps d s (g x) Q) \<Longrightarrow>
     keeps d s (case r of Inl e \<Rightarrow> f e | Inr x \<Rightarrow> g x) Q"
  by (cases r) simp_all

lemma keeps_case_option [keeps_intros]:
  "(r = None \<Longrightarrow> keeps d s m Q) \<Longrightarrow> (\<And>x. r = Some x \<Longrightarrow> keeps d s (g x) Q) \<Longrightarrow>
     keeps d s (case r of None \<Rightarrow> m | Some x \<Rightarrow> g x) Q"
  by (cases r) simp_all

lemma keeps_case_prod [keeps_intros]: "(\<And>a b. r = (a, b) \<Longrightarrow> keeps d s (f a b) Q) \<Longrightarrow> keeps d s (case r of (a, b) \<Rightarrow> f a b) Q"
  by (cases r) simp

text \<open>A program that may not return is only judged when it does.\<close>

definition ends_with_post :: "('a \<Rightarrow> 's \<Rightarrow> bool) \<Rightarrow> 'a option \<Rightarrow> 's \<Rightarrow> bool" where
  "ends_with_post Q r s \<longleftrightarrow> (case r of None \<Rightarrow> True | Some x \<Rightarrow> Q x s)"

lemma ends_with_post_simps [simp]:
  "ends_with_post Q (Some x) s = Q x s" "ends_with_post Q None s"
  by (simp_all add: ends_with_post_def)

lemma keeps_obind:
  assumes "keeps d s m (ends_with_post P)" and "\<And>r s'. P r s' \<Longrightarrow> keeps d s' (f r) (ends_with_post Q)"
  shows "keeps d s (obind m f) (ends_with_post Q)"
  unfolding obind_def
  by (rule keeps_bind [OF assms(1)])
    (auto simp: ends_with_post_def [of P] split: option.splits intro: keeps_return assms(2))

lemma keeps_lift: "keeps d s m Q \<Longrightarrow> keeps d s (lift_prog m) (ends_with_post Q)"
  unfolding lift_prog_def by (rule keeps_bind, assumption) (simp add: keeps_return)

lemma keeps_quiet_obind:
  "emits (idle d) m \<Longrightarrow> (\<And>r. keeps d s (f r) (ends_with_post Q)) \<Longrightarrow> keeps d s (obind m f) (ends_with_post Q)"
  by (rule keeps_obind [where P = "\<lambda>r s'. s' = s"]) (auto intro!: keeps_quiet simp: ends_with_post_def split: option.splits)

section \<open>Ownership of descriptors\<close>

text \<open>The state is the multiset of descriptors the process has to close. A descriptor that is not held
  must not be closed.\<close>

fun opens :: "event \<Rightarrow> int multiset" where
  "opens (MakePipe b (Inr (r, w))) = {#r, w#}"
| "opens (Raw (OpenFile p) fd) = (if fd \<ge> 0 then {#fd#} else {#})"
| "opens (Raw (PidfdOpen p) fd) = (if fd \<ge> 0 then {#fd#} else {#})"
| "opens (Raw (DupFdCloexec f) fd) = (if fd \<ge> 0 then {#fd#} else {#})"
| "opens (Raw (OpenTree d p f) fd) = (if fd \<ge> 0 then {#fd#} else {#})"
| "opens (Raw (OpenWriteOnly p) fd) = (if fd \<ge> 0 then {#fd#} else {#})"
| "opens e = {#}"

fun closes :: "event \<Rightarrow> int multiset" where
  "closes (Raw (CloseFd fd) r) = {#fd#}"
| "closes e = {#}"

definition fd_step :: "int multiset \<Rightarrow> event \<Rightarrow> int multiset option" where
  "fd_step H e = (if closes e \<subseteq># H then Some (H - closes e + opens e) else None)"

lemma idle_fd_iff: "idle fd_step e \<longleftrightarrow> opens e = {#} \<and> closes e = {#}"
proof
  assume i: "idle fd_step e"
  have "closes e \<subseteq># {#}" "opens e = {#}"
    using i [unfolded idle_def, rule_format, of "{#}"] by (auto simp: fd_step_def split: if_splits)
  then show "opens e = {#} \<and> closes e = {#}" by simp
qed (auto simp: idle_def fd_step_def)

lemma keeps_close: "keeps fd_step (add_mset fd H) (close_raw k fd) (\<lambda>_ H'. H' = H)"
  unfolding close_raw_def raw_call_def by (rule keeps_syscall) (simp add: fd_step_def)

text \<open>What owners own.\<close>

definition own_opt :: "int option \<Rightarrow> int multiset" where
  "own_opt fd = (case fd of None \<Rightarrow> {#} | Some fd \<Rightarrow> {#fd#})"

definition own_guard :: "int \<Rightarrow> int multiset" where
  "own_guard fd = (if fd \<ge> 0 then {#fd#} else {#})"

lemma own_simps [simp]:
  "own_opt None = {#}" "own_opt (Some fd) = {#fd#}" "own_guard (-1) = {#}"
  by (simp_all add: own_opt_def own_guard_def)

lemma keeps_drop_fd: "keeps fd_step (own_opt fd + H) (drop_fd k fd) (\<lambda>_ H'. H' = H)"
  unfolding drop_fd_def
  by (cases fd) (auto intro!: keeps_intros keeps_bind [OF keeps_close])

lemma keeps_guard_close: "keeps fd_step (own_guard fd + H) (AutoCloseFd_close k fd) (\<lambda>(r, fd') H'. H' = H \<and> own_guard fd' = {#})"
  unfolding AutoCloseFd_close_def
  by (auto simp: own_guard_def intro!: keeps_intros keeps_bind [OF keeps_close])

lemma keeps_guard_drop: "keeps fd_step (own_guard fd + H) (AutoCloseFd_drop k fd) (\<lambda>_ H'. H' = H)"
  unfolding AutoCloseFd_drop_def by (rule keeps_bind [OF keeps_guard_close]) (auto intro!: keeps_intros)

lemma idle_fd_simps [simp]:
  "idle fd_step (ReadFile p x)" "idle fd_step (WriteFile p v u)" "idle fd_step (OpenForWrite p b)"
  "idle fd_step (CreateDir p u)" "idle fd_step (CreateDirAll p u)" "idle fd_step (RemoveDir p u)"
  "idle fd_step (PathExists p b)" "idle fd_step (PathIsDir p b)" "idle fd_step (KillPid pid sg b)"
  "idle fd_step (SleepMs ms)" "idle fd_step (ReadFd fd n y)" "idle fd_step (WaitPid pid b z)"
  "idle fd_step (Clock t)" "idle fd_step (ProxyStart port)" "idle fd_step (ProxyStop port)"
  "idle fd_step (LandlockCrate q a)"
  "idle fd_step (Raw (PidfdSendSignal fd sg) r)" "idle fd_step (Raw (WriteFd fd data) r)"
  "idle fd_step (Raw (FcntlGetFl fd) r)" "idle fd_step (Raw (FcntlSetFl fd n') r)" "idle fd_step (Raw (CloneChild fl) r)"
  "idle fd_step (Raw ForkHelper r)" "idle fd_step (Raw (Setns fd fg) r)" "idle fd_step (Raw (MoveMount fd p fg) r)"
  "idle fd_step (Raw (Mkdirat fd p md) r)" "idle fd_step (Raw (MountCall so ta ty fg da) r)" "idle fd_step (Raw (Umount2 p fg) r)"
  by (simp_all add: idle_fd_iff)

lemma keeps_seq: "keeps d s m (\<lambda>_ s'. s' = t) \<Longrightarrow> keeps d t n Q \<Longrightarrow> keeps d s (m \<bind> (\<lambda>_. n)) Q"
  by (rule keeps_bind, assumption) simp

lemma keeps_oseq:
  "keeps d s m (ends_with_post (\<lambda>_ s'. s' = t)) \<Longrightarrow> keeps d t n (ends_with_post Q) \<Longrightarrow>
     keeps d s (obind m (\<lambda>_. n)) (ends_with_post Q)"
  by (rule keeps_obind, assumption) simp

end
