(* ===== verification/Std_Streams.thy ===== *)
theory Std_Streams
  imports Monitors Errors
begin

text \<open>
  Standard streams of a spawned child (\<open>src/stdio.rs\<close>): how a stream is configured, the descriptors it
  resolves to on the two sides, and who closes them.
\<close>

section \<open>Configuration\<close>

text \<open>An owned descriptor is its number.\<close>

datatype Stdio = Inherit | Null | Pipe | Owned int

definition default_stdin :: Stdio where "default_stdin = Null"
definition default_stdout :: Stdio where "default_stdout = Pipe"
definition default_stderr :: Stdio where "default_stderr = Pipe"

datatype StreamRole = Stdin | Stdout | Stderr

definition StreamRole_fmt :: "StreamRole \<Rightarrow> string" where
  "StreamRole_fmt role = (case role of Stdin \<Rightarrow> ''stdin'' | Stdout \<Rightarrow> ''stdout'' | Stderr \<Rightarrow> ''stderr'')"

text \<open>Dropping a configuration that was not used closes the descriptor it owns.\<close>

definition drop_stdio :: "kernel \<Rightarrow> Stdio \<Rightarrow> unit prog" where
  "drop_stdio k s = (case s of Owned fd \<Rightarrow> drop_fd k (Some fd) | _ \<Rightarrow> State_Monad.return ())"

section \<open>Resolved streams\<close>

record StdioSlot =
  child_fd :: "int option"
  parent_fd :: "int option"
  close_in_parent :: bool
  close_in_child :: "int option"

definition resolve :: "kernel \<Rightarrow> Stdio \<Rightarrow> StreamRole \<Rightarrow> StdioSlot result prog" where
  "resolve k stdio role =
     (case stdio of
        Inherit \<Rightarrow> State_Monad.return (Inr
          \<lparr>child_fd = None, parent_fd = None, close_in_parent = False, close_in_child = None\<rparr>)
      | Null \<Rightarrow> do {
          fd \<leftarrow> raw_call k (OpenFile ''/dev/null'');
          State_Monad.return (if fd < 0
            then Inl (SandboxError_new ErrorKind.Io
                   (''open /dev/null for '' @ StreamRole_fmt role @ '': '' @ k_strerror k (- fd)))
            else Inr \<lparr>child_fd = Some fd, parent_fd = None, close_in_parent = True, close_in_child = None\<rparr>)
        }
      | Pipe \<Rightarrow> do {
          p \<leftarrow> make_pipe k False;
          State_Monad.return (case p of
            Inl e \<Rightarrow> Inl (SandboxError_new ErrorKind.Io
                       (''create pipe for '' @ StreamRole_fmt role @ '': '' @ k_nix_errno k e))
          | Inr (r, w) \<Rightarrow>
              (case (case role of Stdin \<Rightarrow> (r, w, Some w) | _ \<Rightarrow> (w, r, Some r)) of
                 (child, parent, child_closes) \<Rightarrow>
                   Inr \<lparr>child_fd = Some child, parent_fd = Some parent, close_in_parent = True,
                        close_in_child = child_closes\<rparr>))
        }
      | Owned raw \<Rightarrow>
          if raw \<le> 2 then do {
            drop_fd k (Some raw);
            State_Monad.return (Inl (SandboxError_new ErrorKind.Config
              (''Stdio::Owned fd must not be 0, 1, or 2 (would close the parent'' @ [CHR 0x27] @
               ''s own standard streams); got '' @ show_int raw)))
          }
          else State_Monad.return (Inr
            \<lparr>child_fd = Some raw, parent_fd = None, close_in_parent = True, close_in_child = None\<rparr>))"

definition close_child_fd_in_parent :: "kernel \<Rightarrow> StdioSlot \<Rightarrow> StdioSlot prog" where
  "close_child_fd_in_parent k s =
     (if close_in_parent s
      then drop_fd k (child_fd s) \<bind> (\<lambda>_. State_Monad.return (s\<lparr>close_in_parent := False, child_fd := None\<rparr>))
      else State_Monad.return s)"

text \<open>The descriptor handed out, and the slot without it.\<close>

definition take_parent_fd :: "StdioSlot \<Rightarrow> int option \<times> StdioSlot" where
  "take_parent_fd s = (parent_fd s, s\<lparr>parent_fd := None\<rparr>)"

text \<open>The drop of a slot, followed by the drop of its fields.\<close>

definition drop_slot :: "kernel \<Rightarrow> StdioSlot \<Rightarrow> unit prog" where
  "drop_slot k s = do {
     (if close_in_parent s then drop_fd k (child_fd s) else State_Monad.return ());
     drop_fd k (parent_fd s)
   }"

section \<open>Ownership\<close>

definition own_stdio :: "Stdio \<Rightarrow> int multiset" where
  "own_stdio s = (case s of Owned fd \<Rightarrow> {#fd#} | _ \<Rightarrow> {#})"

definition own_slot :: "StdioSlot \<Rightarrow> int multiset" where
  "own_slot s = (if close_in_parent s then own_opt (child_fd s) else {#}) + own_opt (parent_fd s)"

lemma own_stdio_simps [simp]:
  "own_stdio (Owned fd) = {#fd#}" "own_stdio Inherit = {#}" "own_stdio Null = {#}" "own_stdio Pipe = {#}"
  by (simp_all add: own_stdio_def)

lemma keeps_drop_stdio: "keeps fd_step (own_stdio s + H) (drop_stdio k s) (\<lambda>_ H'. H' = H)"
  using keeps_drop_fd [where H = H and fd = "Some _"] unfolding drop_stdio_def
  by (cases s) (auto intro: keeps_return)

lemma keeps_drop_slot: "keeps fd_step (own_slot s + H) (drop_slot k s) (\<lambda>_ H'. H' = H)"
proof -
  have "keeps fd_step (own_slot s + H) (if close_in_parent s then drop_fd k (child_fd s) else State_Monad.return ())
      (\<lambda>_ H'. H' = own_opt (parent_fd s) + H)"
    using keeps_drop_fd [where H = "own_opt (parent_fd s) + H"]
    by (auto simp: own_slot_def add.assoc intro: keeps_return)
  then show ?thesis unfolding drop_slot_def by (rule keeps_bind) (auto intro: keeps_drop_fd)
qed

text \<open>A stream that resolves owns what it was given or opened; one that fails owns nothing.\<close>

lemma keeps_resolve:
  "keeps fd_step (own_stdio s + H) (resolve k s role) (\<lambda>r H'. H' = (case r of Inl _ \<Rightarrow> H | Inr sl \<Rightarrow> own_slot sl + H))"
proof (cases s)
  case Null
  show ?thesis unfolding Null resolve_def raw_call_def Stdio.case
    by (rule keeps_bind [where P = "\<lambda>fd H'. H' = own_guard fd + H"])
      (auto intro!: keeps_syscall keeps_return simp: fd_step_def own_guard_def own_slot_def)
next
  case Pipe
  show ?thesis unfolding Pipe resolve_def make_pipe_def Stdio.case
    by (rule keeps_bind [where P = "\<lambda>p H'. H' = (case p of Inl _ \<Rightarrow> H | Inr (r, w) \<Rightarrow> {#r, w#} + H)"])
      (auto intro!: keeps_syscall keeps_return simp: fd_step_def own_slot_def split: sum.splits prod.splits StreamRole.splits)
next
  case (Owned raw)
  show ?thesis
  proof (cases "raw \<le> 2")
    case True
    then show ?thesis unfolding Owned resolve_def Stdio.case
      by (auto intro!: keeps_bind [OF keeps_drop_fd [where fd = "Some raw" and H = H, simplified]] keeps_return)
  qed (auto simp: Owned resolve_def own_slot_def intro!: keeps_return)
qed (auto simp: resolve_def own_slot_def intro!: keeps_return)

lemma keeps_close_child_fd:
  "keeps fd_step (own_slot s + H) (close_child_fd_in_parent k s)
     (\<lambda>s' H'. H' = own_slot s' + H \<and> own_slot s' = own_opt (parent_fd s) \<and> parent_fd s' = parent_fd s)"
proof (cases "close_in_parent s")
  case True
  then show ?thesis unfolding close_child_fd_in_parent_def
    by (auto simp: own_slot_def add.assoc
        intro!: keeps_return keeps_bind [OF keeps_drop_fd [where fd = "child_fd s" and H = "own_opt (parent_fd s) + H" and k = k]])
qed (auto simp: close_child_fd_in_parent_def own_slot_def intro: keeps_return)

text \<open>The end that the child has to close is the end that the parent keeps.\<close>

lemma resolve_close_in_child:
  assumes "run_state (resolve k s role) w = (Inr sl, w')"
  shows "close_in_child sl = parent_fd sl"
proof (cases s)
  case Pipe
  obtain p where p: "fst (run_state (make_pipe k False) w) = p" by blast
  show ?thesis using assms p
    by (cases p; cases role) (auto simp: Pipe resolve_def run_simps)
qed (use assms in \<open>auto simp: resolve_def run_simps split: if_splits\<close>)

end
