(* ===== verification/Child.thy ===== *)
theory Child
  imports Kill_Tree Wait Cgroup_Trace Network Std_Streams "HOL-Library.Sublist"
begin

text \<open>
  The handle of a spawned process (\<open>src/process/child.rs\<close>). A handle owns descriptors, the cgroup and
  the proxy; the operations that consume it drop what they do not hand out, in the order of Rust's
  drops. The theorems: every way to give up a handle closes each of its descriptors exactly once, a
  handle that was not waited on kills and reaps its process, and a detached one leaves it alone.
\<close>

section \<open>The handle\<close>

record StdioFds =
  fds_stdin :: "int option"
  fds_stdout :: "int option"
  fds_stderr :: "int option"

record NamespaceFds =
  nsfd_user :: "int option"
  nsfd_mnt :: "int option"

record ChildOutput =
  out_stdout :: "u8 list"
  out_stderr :: "u8 list"
  out_status :: ExitStatus

record Child =
  c_pid :: i32
  c_pidfd :: "int option"
  c_stdio :: StdioFds
  c_cgroup :: "CgroupManager option"
  c_proxy :: "ProxiedNetwork option"
  c_waited :: bool
  c_ns_fds :: NamespaceFds

definition Child_new ::
  "i32 \<Rightarrow> int option \<Rightarrow> StdioFds \<Rightarrow> CgroupManager option \<Rightarrow> ProxiedNetwork option \<Rightarrow> NamespaceFds \<Rightarrow> Child" where
  "Child_new pid pidfd stdio cgroup proxy ns_fds =
     \<lparr>c_pid = pid, c_pidfd = pidfd, c_stdio = stdio, c_cgroup = cgroup, c_proxy = proxy, c_waited = False,
      c_ns_fds = ns_fds\<rparr>"

definition Child_pid :: "Child \<Rightarrow> u32" where
  "Child_pid c = c_pid c"

definition ExitStatus_fmt :: "ExitStatus \<Rightarrow> string" where
  "ExitStatus_fmt s = (case ExitStatus.signal s of
     Some sig \<Rightarrow> ''signal '' @ show_int (sint sig) | None \<Rightarrow> ''exit code '' @ show_int (sint (ExitStatus.code s)))"

section \<open>Drops\<close>

definition drop_cgroup_opt :: "kernel \<Rightarrow> CgroupManager option \<Rightarrow> unit prog" where
  "drop_cgroup_opt k cg = (case cg of None \<Rightarrow> State_Monad.return () | Some cg \<Rightarrow> drop_cgroup k cg)"

text \<open>Dropping the proxy tells it to shut down.\<close>

definition drop_proxy :: "ProxiedNetwork option \<Rightarrow> unit prog" where
  "drop_proxy p = (case p of
     None \<Rightarrow> State_Monad.return ()
   | Some p \<Rightarrow> syscall (\<lambda>h. ()) (\<lambda>_. ProxyStop (unat (proxy_port p))))"

definition drop_fields :: "kernel \<Rightarrow> Child \<Rightarrow> unit prog" where
  "drop_fields k c = do {
     drop_fd k (c_pidfd c);
     drop_fd k (fds_stdin (c_stdio c));
     drop_fd k (fds_stdout (c_stdio c));
     drop_fd k (fds_stderr (c_stdio c));
     drop_cgroup_opt k (c_cgroup c);
     drop_proxy (c_proxy c);
     drop_fd k (nsfd_user (c_ns_fds c));
     drop_fd k (nsfd_mnt (c_ns_fds c))
   }"

definition Child_kill :: "kernel \<Rightarrow> Child \<Rightarrow> unit prog" where
  "Child_kill k c =
     (case c_cgroup c of
        Some cg \<Rightarrow> kill_all k cg
      | None \<Rightarrow> do {
          kill_tree k (c_pid c);
          case c_pidfd c of
            None \<Rightarrow> State_Monad.return ()
          | Some pidfd \<Rightarrow> raw_call k (PidfdSendSignal pidfd SIGKILL) \<bind> (\<lambda>_. State_Monad.return ())
        })"

definition drop_child :: "nat \<Rightarrow> kernel \<Rightarrow> Child \<Rightarrow> unit option prog" where
  "drop_child n k c =
     obind (if \<not> c_waited c
            then Child_kill k c \<bind> (\<lambda>_. obind (reap_rounds n 100 k (c_pid c)) (\<lambda>_. State_Monad.return (Some ())))
            else State_Monad.return (Some ()))
       (\<lambda>_. lift_prog (drop_fields k c))"

section \<open>Waiting\<close>

definition try_wait :: "nat \<Rightarrow> kernel \<Rightarrow> Child \<Rightarrow> (ExitStatus option result \<times> Child) option prog" where
  "try_wait n k c = obind (waitpid_retry n k (c_pid c) True) (\<lambda>r. State_Monad.return (Some (case r of
     Inr (Exited x) \<Rightarrow> (Inr (Some (from_exit x)), c\<lparr>c_waited := True\<rparr>)
   | Inr (Signaled sig) \<Rightarrow> (Inr (Some (from_signal sig)), c\<lparr>c_waited := True\<rparr>)
   | Inr StillAlive \<Rightarrow> (Inr None, c)
   | Inr (OtherStatus _) \<Rightarrow> (Inr None, c)
   | Inl e \<Rightarrow> (Inl (SandboxError_new ErrorKind.Exec (''try_waitpid: '' @ k_nix_errno k e)), c))))"

definition wait_status_debug :: "wait_status \<Rightarrow> string" where
  "wait_status_debug st = (case st of OtherStatus d \<Rightarrow> d | _ \<Rightarrow> ''StillAlive'')"

definition block_until_exit :: "nat \<Rightarrow> kernel \<Rightarrow> i32 \<Rightarrow> ExitStatus result option prog" where
  "block_until_exit n k pid = obind (waitpid_retry n k pid False) (\<lambda>r. State_Monad.return (Some (case r of
     Inr (Exited x) \<Rightarrow> Inr (from_exit x)
   | Inr (Signaled sig) \<Rightarrow> Inr (from_signal sig)
   | Inr other \<Rightarrow> Inl (SandboxError_new ErrorKind.Exec (''unexpected waitpid status: '' @ wait_status_debug other))
   | Inl e \<Rightarrow> Inl (SandboxError_new ErrorKind.Exec (''waitpid: '' @ k_nix_errno k e)))))"

definition wait_blocking :: "nat \<Rightarrow> kernel \<Rightarrow> Child \<Rightarrow> (ExitStatus result \<times> Child) option prog" where
  "wait_blocking n k c = obind (block_until_exit n k (c_pid c)) (\<lambda>r. State_Monad.return (Some (case r of
     Inl e \<Rightarrow> (Inl e, c)
   | Inr st \<Rightarrow> (Inr st, c\<lparr>c_waited := True\<rparr>))))"

definition require_pipes_drained :: "Child \<Rightarrow> unit result" where
  "require_pipes_drained c =
     (if fds_stdout (c_stdio c) \<noteq> None \<or> fds_stderr (c_stdio c) \<noteq> None
      then Inl (SandboxError_new ErrorKind.WouldDeadlock
        (''stdout/stderr are Stdio::Pipe and still owned by this Child; '' @
         ''wait() would deadlock once the pipe buffer fills '' @ [CHR 0xE2, CHR 0x80, CHR 0x94] @ '' use '' @
         ''wait_with_output(), or take_stdout_fd()/take_stderr_fd() and drain them before waiting''))
      else Inr ())"

text \<open>The operations below consume the handle: it is dropped when they return.\<close>

definition Child_wait :: "nat \<Rightarrow> kernel \<Rightarrow> Child \<Rightarrow> ExitStatus result option prog" where
  "Child_wait n k c =
     (case require_pipes_drained c of
        Inl e \<Rightarrow> obind (drop_child n k c) (\<lambda>_. State_Monad.return (Some (Inl e)))
      | Inr _ \<Rightarrow> obind (wait_blocking n k c) (\<lambda>(r, c). obind (drop_child n k c) (\<lambda>_. State_Monad.return (Some r))))"

definition DURATION_MAX :: nat where "DURATION_MAX = (2 ^ 64 - 1) * 1000000000 + 999999999"

definition wait_with_output :: "nat \<Rightarrow> nat \<Rightarrow> kernel \<Rightarrow> Child \<Rightarrow> ChildOutput result option prog" where
  "wait_with_output n f k c =
     (let c' = c\<lparr>c_stdio := (c_stdio c)\<lparr>fds_stdout := None, fds_stderr := None\<rparr>\<rparr>
      in obind (wait_with_timeout n f k (c_pid c) (fds_stdout (c_stdio c)) (fds_stderr (c_stdio c)) DURATION_MAX) (\<lambda>r.
           case r of
             Inl e \<Rightarrow> obind (drop_child f k c') (\<lambda>_. State_Monad.return (Some (Inl e)))
           | Inr co \<Rightarrow>
               obind (drop_child f k (c'\<lparr>c_waited := True\<rparr>)) (\<lambda>_. State_Monad.return (Some (Inr
                 \<lparr>out_stdout = co_stdout co, out_stderr = co_stderr co,
                  out_status = (case co_signal co of Some sig \<Rightarrow> from_signal sig | None \<Rightarrow> from_exit (co_exit_code co))\<rparr>)))))"

section \<open>Descriptors\<close>

definition close_stdin :: "kernel \<Rightarrow> Child \<Rightarrow> Child prog" where
  "close_stdin k c = drop_fd k (fds_stdin (c_stdio c)) \<bind> (\<lambda>_.
     State_Monad.return (c\<lparr>c_stdio := (c_stdio c)\<lparr>fds_stdin := None\<rparr>\<rparr>))"

definition take_stdin_fd :: "Child \<Rightarrow> int option \<times> Child" where
  "take_stdin_fd c = (fds_stdin (c_stdio c), c\<lparr>c_stdio := (c_stdio c)\<lparr>fds_stdin := None\<rparr>\<rparr>)"
definition take_stdout_fd :: "Child \<Rightarrow> int option \<times> Child" where
  "take_stdout_fd c = (fds_stdout (c_stdio c), c\<lparr>c_stdio := (c_stdio c)\<lparr>fds_stdout := None\<rparr>\<rparr>)"
definition take_stderr_fd :: "Child \<Rightarrow> int option \<times> Child" where
  "take_stderr_fd c = (fds_stderr (c_stdio c), c\<lparr>c_stdio := (c_stdio c)\<lparr>fds_stderr := None\<rparr>\<rparr>)"

definition set_waited :: "Child \<Rightarrow> Child" where
  "set_waited c = c\<lparr>c_waited := True\<rparr>"

section \<open>Mount handles\<close>

record MountHandleInner =
  user_ns_fd :: int
  mnt_ns_fd :: int
  child_pidfd :: "int option"

definition dup_fd :: "kernel \<Rightarrow> int \<Rightarrow> int result prog" where
  "dup_fd k fd = do {
     new_fd \<leftarrow> raw_call k (DupFdCloexec fd);
     State_Monad.return (if new_fd < 0
       then Inl (SandboxError_new ErrorKind.Exec (''F_DUPFD_CLOEXEC failed: '' @ show_int (- new_fd)))
       else Inr new_fd)
   }"

definition dup_ns_fd :: "kernel \<Rightarrow> string \<Rightarrow> int option \<Rightarrow> int result prog" where
  "dup_ns_fd k missing fd =
     (case fd of
        None \<Rightarrow> State_Monad.return (Inl (SandboxError_new ErrorKind.Mount (''dynamic mount operation failed: '' @ missing)))
      | Some fd \<Rightarrow> dup_fd k fd)"

definition child_alive :: "kernel \<Rightarrow> int option \<Rightarrow> bool prog" where
  "child_alive k pidfd = (case pidfd of
     None \<Rightarrow> State_Monad.return True
   | Some fd \<Rightarrow> raw_call k (PidfdSendSignal fd 0) \<bind> (\<lambda>r. State_Monad.return (\<not> (r < 0 \<and> - r = ESRCH))))"

definition mount_handle :: "kernel \<Rightarrow> Child \<Rightarrow> MountHandleInner result prog" where
  "mount_handle k c = do {
     alive \<leftarrow> child_alive k (c_pidfd c);
     if \<not> alive then State_Monad.return (Inl (SandboxError_new ErrorKind.ChildGone ''child process has exited''))
     else do {
       u \<leftarrow> dup_ns_fd k ''namespace fds not available (child may not have been spawned with namespace support)''
              (nsfd_user (c_ns_fds c));
       case u of
         Inl e \<Rightarrow> State_Monad.return (Inl e)
       | Inr u \<Rightarrow> do {
           m \<leftarrow> dup_ns_fd k ''namespace fds not available'' (nsfd_mnt (c_ns_fds c));
           case m of
             Inl e \<Rightarrow> drop_fd k (Some u) \<bind> (\<lambda>_. State_Monad.return (Inl e))
           | Inr m \<Rightarrow>
               (case c_pidfd c of
                  None \<Rightarrow> State_Monad.return (Inr \<lparr>user_ns_fd = u, mnt_ns_fd = m, child_pidfd = None\<rparr>)
                | Some fd \<Rightarrow> do {
                    p \<leftarrow> dup_fd k fd;
                    case p of
                      Inl e \<Rightarrow> drop_fd k (Some m) \<bind> (\<lambda>_. drop_fd k (Some u) \<bind> (\<lambda>_. State_Monad.return (Inl e)))
                    | Inr p \<Rightarrow> State_Monad.return (Inr \<lparr>user_ns_fd = u, mnt_ns_fd = m, child_pidfd = Some p\<rparr>)
                  })
         }
     }
   }"

section \<open>Detached children\<close>

record DetachedChild =
  d_pid :: i32
  d_pidfd :: "int option"
  d_cgroup :: "CgroupManager option"
  d_proxy :: "ProxiedNetwork option"

text \<open>The handle is dropped at the end, without what was taken from it.\<close>

definition detach :: "nat \<Rightarrow> kernel \<Rightarrow> Child \<Rightarrow> DetachedChild option prog" where
  "detach n k c =
     obind (drop_child n k (c\<lparr>c_waited := True, c_pidfd := None, c_cgroup := None, c_proxy := None\<rparr>)) (\<lambda>_.
       State_Monad.return (Some
         \<lparr>d_pid = c_pid c, d_pidfd = c_pidfd c, d_cgroup = c_cgroup c, d_proxy = c_proxy c\<rparr>))"

text \<open>Cgroup and proxy are forgotten, the pidfd is closed.\<close>

definition drop_detached :: "kernel \<Rightarrow> DetachedChild \<Rightarrow> unit prog" where
  "drop_detached k d = drop_fd k (d_pidfd d)"

definition reap :: "nat \<Rightarrow> kernel \<Rightarrow> DetachedChild \<Rightarrow> ExitStatus result option prog" where
  "reap n k d = obind (block_until_exit n k (d_pid d)) (\<lambda>r.
     case r of
       Inl e \<Rightarrow> lift_prog (drop_detached k d \<bind> (\<lambda>_. State_Monad.return (Inl e)))
     | Inr st \<Rightarrow> lift_prog (do {
         drop_cgroup_opt k (d_cgroup d);
         drop_proxy (d_proxy d);
         drop_detached k (d\<lparr>d_cgroup := None, d_proxy := None\<rparr>);
         State_Monad.return (Inr st)
       }))"

section \<open>Ownership\<close>

text \<open>Programs that neither open nor close.\<close>

lemma emits_waitpid_retry: "emits (idle fd_step) (waitpid_retry n k pid b)"
  by (induction n) (auto simp: waitpid_def intro!: emits_intros)

lemma emits_case_wait_status [emits_intros]:
  "(\<And>x. emits P (f x)) \<Longrightarrow> (\<And>x. emits P (g x)) \<Longrightarrow> emits P m \<Longrightarrow> (\<And>x. emits P (h x)) \<Longrightarrow>
     emits P (case st of Exited x \<Rightarrow> f x | Signaled x \<Rightarrow> g x | StillAlive \<Rightarrow> m | OtherStatus x \<Rightarrow> h x)"
  by (cases st) simp_all

lemma emits_reap_rounds: "emits (idle fd_step) (reap_rounds n i k pid)"
  by (induction i) (auto simp: sleep_ms_def intro!: emits_intros emits_waitpid_retry)

lemma file_event_idle: "file_event e \<Longrightarrow> idle fd_step e"
  by (cases e) simp_all

lemmas emits_kill_all = emits_weaken [OF kill_all_files file_event_idle]
lemmas emits_drop_cgroup = emits_weaken [OF drop_cgroup_files file_event_idle]
lemmas emits_configure_cgroup = emits_weaken [OF configure_cgroup_files file_event_idle]

lemma emits_drop_cgroup_opt: "emits (idle fd_step) (drop_cgroup_opt k cg)"
  unfolding drop_cgroup_opt_def by (intro emits_intros emits_drop_cgroup)

lemma emits_drop_proxy: "emits (idle fd_step) (drop_proxy p)"
  unfolding drop_proxy_def by (intro emits_intros) simp

text \<open>A killing walk closes the pidfds it opens.\<close>

lemma keeps_kill_pid: "keeps fd_step H (kill_pid k pid) (\<lambda>_ H'. H' = H)"
proof -
  have "keeps fd_step H (raw_call k (PidfdOpen pid)) (\<lambda>fd H'. H' = own_guard fd + H)"
    unfolding raw_call_def by (rule keeps_syscall) (simp add: fd_step_def own_guard_def)
  then show ?thesis unfolding kill_pid_def
    by (rule keeps_bind)
      (auto simp: own_guard_def raw_call_def kill_def fd_step_def intro!: keeps_intros emits_intros
        keeps_quiet_bind keeps_quiet keeps_syscall keeps_seq)
qed

lemma keeps_for_each: "(\<And>x. keeps d s (f x) (\<lambda>_ s'. s' = s)) \<Longrightarrow> keeps d s (for_each f xs) (\<lambda>_ s'. s' = s)"
  by (induction xs) (auto intro: keeps_return keeps_seq)

lemma keeps_collect: "keeps fd_step H (collect_descendants k root) (\<lambda>_ H'. H' = H)"
proof (rule keeps_quiet)
  have "\<exists>es. trace (snd (collect_loop k seen stack out w)) = trace w @ es \<and> list_all (idle fd_step) es"
    for seen stack out w
  proof (induction k seen stack out w rule: collect_loop.induct)
    case (2 k seen pid stack out w)
    show ?case
    proof (cases "pid \<in> seen")
      case False
      obtain cs w1 where r: "run_state (read_children k pid) w = (cs, w1)" by force
      have "emits (idle fd_step) (read_children k pid)"
        unfolding read_children_def read_to_string_def by (intro emits_intros) simp
      from emits_run [OF this r] obtain es where "trace w1 = trace w @ es" "list_all (idle fd_step) es" by blast
      moreover obtain fs where "trace (snd (collect_loop k (insert pid seen) (rev cs @ stack) (out @ [pid]) w1)) = trace w1 @ fs"
          "list_all (idle fd_step) fs"
        using 2(2) [OF False r [symmetric]] by auto
      ultimately show ?thesis using False r by (intro exI [of _ "es @ fs"]) simp
    qed (use 2 in auto)
  qed simp
  then show "emits (idle fd_step) (collect_descendants k root)"
    unfolding emits_def collect_descendants_def by (simp del: collect_loop.simps)
qed simp

lemma keeps_kill_tree: "keeps fd_step H (kill_tree k root) (\<lambda>_ H'. H' = H)"
proof -
  have "keeps fd_step H (kill_rounds i k root) (\<lambda>_ H'. H' = H)" for i
  proof (induction i)
    case (Suc i)
    have rest: "keeps fd_step H (for_each (kill_pid k) live \<bind> (\<lambda>_. sleep_ms 10 \<bind> (\<lambda>_. kill_rounds i k root)))
        (\<lambda>_ H'. H' = H)" for live
      by (rule keeps_seq [OF keeps_for_each [OF keeps_kill_pid]])
        (auto simp: sleep_ms_def intro!: keeps_quiet_bind emits_intros Suc)
    show ?case
      by (simp only: kill_rounds.simps, rule keeps_bind [OF keeps_collect])
        (auto intro!: keeps_intros rest)
  qed (simp add: keeps_return)
  then show ?thesis by (simp add: kill_tree_def)
qed

lemma keeps_Child_kill: "keeps fd_step H (Child_kill k c) (\<lambda>_ H'. H' = H)"
  unfolding Child_kill_def
  by (intro keeps_case_option keeps_quiet [OF emits_kill_all] keeps_seq [OF keeps_kill_tree])
    (auto simp: raw_call_def intro!: keeps_intros keeps_quiet_bind emits_intros)

definition own_child :: "Child \<Rightarrow> int multiset" where
  "own_child c = own_opt (c_pidfd c) + own_opt (fds_stdin (c_stdio c)) + own_opt (fds_stdout (c_stdio c))
     + own_opt (fds_stderr (c_stdio c)) + own_opt (nsfd_user (c_ns_fds c)) + own_opt (nsfd_mnt (c_ns_fds c))"

lemma keeps_drop_fields: "keeps fd_step (own_child c + H) (drop_fields k c) (\<lambda>_ H'. H' = H)"
  unfolding drop_fields_def own_child_def add.assoc
  by (intro keeps_seq [OF keeps_drop_fd] keeps_quiet_bind emits_drop_cgroup_opt emits_drop_proxy keeps_drop_fd)

lemma keeps_drop_child: "keeps fd_step (own_child c + H) (drop_child n k c) (ends_with_post (\<lambda>_ H'. H' = H))"
  unfolding drop_child_def
  by (rule keeps_oseq [OF _ keeps_lift [OF keeps_drop_fields]])
    (auto intro!: keeps_intros keeps_seq [OF keeps_Child_kill] keeps_quiet_obind emits_reap_rounds)

lemma keeps_wait_loop:
  "keeps fd_step (own_opt ofd + (own_opt efd + H)) (wait_loop n f k pid ofd efd timeout start outb errb kt)
     (ends_with_post (\<lambda>_ H'. H' = H))"
proof (induction n arbitrary: outb errb kt)
  case (Suc n)
  have drain: "emits (idle fd_step) (drain_fd f k fd buf)" for fd buf
    by (induction f arbitrary: buf) (auto simp: read_fd_def intro!: emits_intros split: list.splits)
  have avail: "emits (idle fd_step) (read_available f k fd buf)" for fd buf
    unfolding read_available_def by (intro emits_intros drain)
  have owned: "emits (idle fd_step) (drain_owned_fd f k fd buf)" for fd buf
    unfolding drain_owned_fd_def by (intro emits_intros drain)
  have reap: "emits (idle fd_step) (try_reap f k pid)"
    unfolding try_reap_def by (intro emits_intros emits_waitpid_retry)
  have step: "emits (idle fd_step) (timeout_step k pid timeout start kt)" for kt
    unfolding timeout_step_def elapsed_def kill_child_def now_def kill_def by (intro emits_intros) simp_all
  have drop: "keeps fd_step (own_opt ofd + (own_opt efd + H))
      (lift_prog (drop_fd k efd \<bind> (\<lambda>_. drop_fd k ofd \<bind> (\<lambda>_. State_Monad.return x)))) (ends_with_post (\<lambda>_ H'. H' = H))"
    for x :: "CollectedOutput result"
    by (subst add.left_commute, intro keeps_lift keeps_seq [OF keeps_drop_fd] keeps_return refl)
  have fin: "keeps fd_step (own_opt ofd + (own_opt efd + H)) (finalize f k ofd efd a b) (ends_with_post (\<lambda>_ H'. H' = H))" for a b
    unfolding finalize_def by (intro keeps_quiet_obind owned keeps_lift keeps_seq [OF keeps_drop_fd] keeps_return refl)
  show ?case unfolding wait_loop.simps
    by (intro keeps_quiet_obind avail reap keeps_case_sum keeps_case_option keeps_case_prod drop keeps_quiet_bind step keeps_if
        keeps_obind [OF fin] Suc.IH)
      (auto simp: sleep_ms_def intro!: keeps_intros emits_intros)
qed (simp add: keeps_return)

lemma keeps_wait_with_timeout:
  "keeps fd_step (own_opt ofd + (own_opt efd + H)) (wait_with_timeout n f k pid ofd efd timeout) (ends_with_post (\<lambda>_ H'. H' = H))"
  unfolding wait_with_timeout_def set_pipes_nonblocking_def set_nonblock_def raw_call_def now_def
  by (intro keeps_quiet_bind keeps_wait_loop emits_intros) simp_all

lemma keeps_block: "emits (idle fd_step) (block_until_exit n k pid)"
  unfolding block_until_exit_def by (intro emits_intros emits_waitpid_retry)

lemma keeps_Child_wait: "keeps fd_step (own_child c + H) (Child_wait n k c) (ends_with_post (\<lambda>_ H'. H' = H))"
  unfolding Child_wait_def
proof (intro keeps_case_sum keeps_oseq [OF keeps_drop_child] keeps_return)
  show "keeps fd_step (own_child c + H) (obind (wait_blocking n k c) (\<lambda>(r, c). obind (drop_child n k c) (\<lambda>_. State_Monad.return (Some r))))
      (ends_with_post (\<lambda>_ H'. H' = H))"
  proof (rule keeps_obind [where P = "\<lambda>(r, c') H'. H' = own_child c' + H"])
    show "keeps fd_step (own_child c + H) (wait_blocking n k c) (ends_with_post (\<lambda>(r, c') H'. H' = own_child c' + H))"
      unfolding wait_blocking_def
      by (intro keeps_quiet_obind keeps_block keeps_return) (simp add: own_child_def split: sum.splits)
  qed (auto intro!: keeps_oseq [OF keeps_drop_child] keeps_return)
qed simp

lemma keeps_wait_with_output: "keeps fd_step (own_child c + H) (wait_with_output n f k c) (ends_with_post (\<lambda>_ H'. H' = H))"
proof -
  let ?c = "c\<lparr>c_stdio := (c_stdio c)\<lparr>fds_stdout := None, fds_stderr := None\<rparr>\<rparr>"
  have split: "own_child c + H = own_opt (fds_stdout (c_stdio c)) + (own_opt (fds_stderr (c_stdio c)) + (own_child ?c + H))"
    by (simp add: own_child_def ac_simps)
  have waited: "own_child (?c\<lparr>c_waited := True\<rparr>) = own_child ?c" by (simp add: own_child_def)
  show ?thesis unfolding wait_with_output_def Let_def split
    by (rule keeps_obind [OF keeps_wait_with_timeout])
      (auto intro!: keeps_case_sum keeps_oseq [OF keeps_drop_child] keeps_return
        keeps_oseq [OF keeps_drop_child [where c = "?c\<lparr>c_waited := True\<rparr>", unfolded waited]])
qed

lemma keeps_detach:
  "keeps fd_step (own_child c + H) (detach n k c) (ends_with_post (\<lambda>d H'. H' = own_opt (d_pidfd d) + H))"
proof -
  let ?c = "c\<lparr>c_waited := True, c_pidfd := None, c_cgroup := None, c_proxy := None\<rparr>"
  have split: "own_child c + H = own_child ?c + (own_opt (c_pidfd c) + H)" by (simp add: own_child_def ac_simps)
  show ?thesis unfolding detach_def split by (intro keeps_oseq [OF keeps_drop_child] keeps_return) simp
qed

lemma keeps_drop_detached: "keeps fd_step (own_opt (d_pidfd d) + H) (drop_detached k d) (\<lambda>_ H'. H' = H)"
  unfolding drop_detached_def by (rule keeps_drop_fd)

lemma keeps_reap: "keeps fd_step (own_opt (d_pidfd d) + H) (reap n k d) (ends_with_post (\<lambda>_ H'. H' = H))"
proof -
  have gone: "own_opt (d_pidfd (d\<lparr>d_cgroup := None, d_proxy := None\<rparr>)) = own_opt (d_pidfd d)" by simp
  show ?thesis unfolding reap_def
    by (intro keeps_quiet_obind keeps_block keeps_case_sum keeps_lift keeps_quiet_bind [OF emits_drop_cgroup_opt]
        keeps_quiet_bind [OF emits_drop_proxy] keeps_seq [OF keeps_drop_detached] keeps_return refl
        keeps_seq [OF keeps_drop_detached [where d = "d\<lparr>d_cgroup := None, d_proxy := None\<rparr>", unfolded gone]])
qed

definition own_handle :: "MountHandleInner \<Rightarrow> int multiset" where
  "own_handle h = {#user_ns_fd h#} + {#mnt_ns_fd h#} + own_opt (child_pidfd h)"

lemma keeps_dup: "keeps fd_step H (dup_fd k fd) (\<lambda>r H'. H' = (case r of Inl _ \<Rightarrow> H | Inr x \<Rightarrow> add_mset x H))"
  unfolding dup_fd_def raw_call_def
  by (rule keeps_bind [OF keeps_syscall [where Q = "\<lambda>fd H'. H' = own_guard fd + H"]])
    (auto simp: fd_step_def own_guard_def intro!: keeps_return)

lemma keeps_dup_ns: "keeps fd_step H (dup_ns_fd k m fd) (\<lambda>r H'. H' = (case r of Inl _ \<Rightarrow> H | Inr x \<Rightarrow> add_mset x H))"
  unfolding dup_ns_fd_def by (intro keeps_case_option keeps_dup keeps_return) simp

lemma keeps_mount_handle:
  "keeps fd_step H (mount_handle k c) (\<lambda>r H'. H' = (case r of Inl _ \<Rightarrow> H | Inr h \<Rightarrow> own_handle h + H))"
proof -
  have alive: "emits (idle fd_step) (child_alive k fd)" for fd
    unfolding child_alive_def raw_call_def by (intro emits_intros) simp
  have close: "keeps fd_step (add_mset fd H) (drop_fd k (Some fd)) (\<lambda>_ H'. H' = H)" for fd H
    using keeps_drop_fd [where fd = "Some fd" and H = H] by simp
  have close2: "keeps fd_step (add_mset a (add_mset b H)) (drop_fd k (Some a) \<bind> (\<lambda>_. drop_fd k (Some b) \<bind> (\<lambda>_. State_Monad.return x)))
      (\<lambda>r H'. H' = H \<and> r = x)" for a b x and H :: "int multiset"
    by (intro keeps_seq [OF close] keeps_return) simp
  show ?thesis unfolding mount_handle_def
    apply (rule keeps_quiet_bind [OF alive], rule keeps_if, simp add: keeps_return)
    apply (rule keeps_bind [OF keeps_dup_ns], rule keeps_case_sum)
    subgoal by (auto intro: keeps_return)
    subgoal for alive r s' u
      apply (rule keeps_bind [OF keeps_dup_ns])
      apply (intro keeps_case_sum keeps_case_option)
      subgoal by (auto intro!: keeps_seq [OF close] keeps_return)
      subgoal by (auto simp: own_handle_def intro!: keeps_return)
      subgoal
        apply (rule keeps_bind [OF keeps_dup])
        apply (intro keeps_case_sum)
        subgoal by (auto intro!: keeps_mono [OF close2])
        subgoal by (auto simp: own_handle_def intro!: keeps_return)
        done
      done
    done
qed

section \<open>What happens to the process\<close>

definition kill_sent :: "Child \<Rightarrow> event list \<Rightarrow> bool" where
  "kill_sent c es \<longleftrightarrow>
     (case c_cgroup c of
        Some cg \<Rightarrow> (\<exists>x. WriteFile (path_join (cg_path cg) (filename Kill)) ''1'' x \<in> set es)
      | None \<Rightarrow> (\<exists>ss. signalled (c_pid c) ss \<and> sublist ss es))"

text \<open>First the kill, then a poll for the exit.\<close>

definition killed_and_polled :: "Child \<Rightarrow> event list \<Rightarrow> bool" where
  "killed_and_polled c es \<longleftrightarrow> (\<exists>ks x rest. es = ks @ WaitPid (c_pid c) True x # rest \<and> kill_sent c ks)"

lemma kill_sent_mono: "kill_sent c es \<Longrightarrow> kill_sent c (pre @ es @ post)"
  by (auto simp: kill_sent_def sublist_append split: option.splits)

lemma killed_and_polled_mono: "killed_and_polled c es \<Longrightarrow> killed_and_polled c (pre @ es @ post)"
  unfolding killed_and_polled_def
proof (elim exE conjE)
  fix ks x rest assume "es = ks @ WaitPid (c_pid c) True x # rest" "kill_sent c ks"
  moreover have "kill_sent c (pre @ ks)" using kill_sent_mono [OF \<open>kill_sent c ks\<close>, of pre "[]"] by simp
  ultimately show "\<exists>ks x rest. pre @ es @ post = ks @ WaitPid (c_pid c) True x # rest \<and> kill_sent c ks"
    by (intro exI [of _ "pre @ ks"] exI [of _ x] exI [of _ "rest @ post"]) simp
qed

lemma Child_kill_sends:
  assumes "run_state (Child_kill k c) w = (u, w')"
  shows "\<exists>es. trace w' = trace w @ es \<and> kill_sent c es"
proof (cases "c_cgroup c")
  case (Some cg)
  let ?p = "path_join (cg_path cg) (filename Kill)"
  have app: "appends (if is_ok r then State_Monad.return ()
     else do {
       _ \<leftarrow> cg_write_file k cg Freeze ''1'';
       kill_iterations k cg 5;
       _ \<leftarrow> cg_write_file k cg Freeze ''0'';
       State_Monad.return ()
     })" for r :: "unit io"
  proof -
    have "appends (kill_iterations k cg i)" for i
      by (induction i) (auto simp: get_pids_def cg_read_file_def call_defs intro!: emits_intros)
    then show ?thesis unfolding cg_write_file_def call_defs by (intro emits_intros) auto
  qed
  obtain x where "run_state (if is_ok x then State_Monad.return ()
     else do {
       _ \<leftarrow> cg_write_file k cg Freeze ''1'';
       kill_iterations k cg 5;
       _ \<leftarrow> cg_write_file k cg Freeze ''0'';
       State_Monad.return ()
     }) (log_event (WriteFile ?p ''1'' x) w) = (u, w')"
    using assms Some by (auto simp: Child_kill_def kill_all_def cg_write_file_def fs_write_def run_bind_iff run_syscall_iff)
  from appends_run [OF app this] obtain es where "trace w' = trace w @ WriteFile ?p ''1'' x # es" by auto
  then show ?thesis using Some by (intro exI) (auto simp: kill_sent_def)
next
  case None
  obtain w1 where 1: "run_state (kill_tree k (c_pid c)) w = ((), w1)"
    and 2: "run_state (case c_pidfd c of
            None \<Rightarrow> State_Monad.return ()
          | Some pidfd \<Rightarrow> raw_call k (PidfdSendSignal pidfd SIGKILL) \<bind> (\<lambda>_. State_Monad.return ())) w1 = (u, w')"
    using assms None by (auto simp: Child_kill_def run_bind_iff)
  have "run_state (kill_rounds (Suc 4) k (c_pid c)) w = ((), w1)" using 1 by (simp add: kill_tree_def)
  from kill_round [OF this] obtain reads pids kls rest where new: "new_events w w1 = reads @ concat kls @ SleepMs 10 # rest"
    "c_pid c \<in> set pids" "list_all2 signalled pids kls" by blast
  then obtain i where "i < length pids" "pids ! i = c_pid c" by (auto simp: in_set_conv_nth)
  then have "signalled (c_pid c) (kls ! i)" "kls ! i \<in> set kls" using new(3) by (auto simp: list_all2_conv_all_nth)
  moreover have "sublist ss (concat kls)" if "ss \<in> set kls" for ss
    using that by (metis concat.simps(2) concat_append sublist_appendI split_list)
  ultimately have "\<exists>ss. signalled (c_pid c) ss \<and> sublist ss (concat kls)" by blast
  then have sent: "kill_sent c (new_events w w1)" using None new(1) by (auto simp: kill_sent_def sublist_append)
  have "appends (kill_tree k (c_pid c))" unfolding kill_tree_def by (rule appends_kill_rounds)
  from appends_run [OF this 1] obtain es1 where es1: "trace w1 = trace w @ es1" by blast
  have "appends (case c_pidfd c of
            None \<Rightarrow> State_Monad.return ()
          | Some pidfd \<Rightarrow> raw_call k (PidfdSendSignal pidfd SIGKILL) \<bind> (\<lambda>_. State_Monad.return ()))"
    unfolding raw_call_def by (intro emits_intros) simp
  from appends_run [OF this 2] obtain es2 where "trace w' = trace w1 @ es2" by blast
  then show ?thesis using es1 kill_sent_mono [OF sent, of "[]" es2]
    by (intro exI [of _ "es1 @ es2"]) (simp add: new_events_def)
qed

lemma reap_rounds_polls:
  assumes "run_state (reap_rounds n (Suc i) k pid) w = (Some b, w')"
  shows "\<exists>x rest. trace w' = trace w @ WaitPid pid True x # rest"
proof -
  obtain r w1 where 1: "run_state (waitpid_retry n k pid True) w = (Some r, w1)"
    and 2: "run_state (case r of
       Inr (Exited _) \<Rightarrow> State_Monad.return (Some True)
     | Inr (Signaled _) \<Rightarrow> State_Monad.return (Some True)
     | Inr StillAlive \<Rightarrow> sleep_ms 10 \<bind> (\<lambda>_. reap_rounds n i k pid)
     | _ \<Rightarrow> State_Monad.return (Some False)) w1 = (Some b, w')"
    using assms by (auto simp: run_obind_iff)
  have "\<exists>x rest. trace w1 = trace w @ WaitPid pid True x # rest"
  proof (cases n)
    case (Suc m)
    let ?x = "k_waitpid k (trace w) pid True"
    have "run_state (if ?x = Inl EINTR then waitpid_retry m k pid True else State_Monad.return (Some ?x))
        (log_event (WaitPid pid True ?x) w) = (Some r, w1)"
      using 1 Suc by (simp add: waitpid_def run_bind_iff run_syscall_iff)
    moreover have "appends (if ?x = Inl EINTR then waitpid_retry m k pid True else State_Monad.return (Some ?x))"
      by (intro emits_intros appends_waitpid_retry)
    ultimately show ?thesis using appends_run by fastforce
  qed (use 1 in \<open>simp add: run_simps\<close>)
  moreover have "appends (reap_rounds n i k pid)"
    by (rule emits_weaken [OF emits_reap_rounds]) simp
  then have "appends (case r of
       Inr (Exited _) \<Rightarrow> State_Monad.return (Some True)
     | Inr (Signaled _) \<Rightarrow> State_Monad.return (Some True)
     | Inr StillAlive \<Rightarrow> sleep_ms 10 \<bind> (\<lambda>_. reap_rounds n i k pid)
     | _ \<Rightarrow> State_Monad.return (Some False))"
    unfolding sleep_ms_def by (intro emits_intros) simp_all
  from appends_run [OF this 2] obtain fs where "trace w' = trace w1 @ fs" by blast
  ultimately show ?thesis by auto
qed

lemma drop_child_kills:
  assumes "run_state (drop_child n k c) w = (Some u, w')" "\<not> c_waited c"
  shows "\<exists>es. trace w' = trace w @ es \<and> killed_and_polled c es"
proof -
  obtain w1 b w2 where 1: "run_state (Child_kill k c) w = ((), w1)"
    and 2: "run_state (reap_rounds n (Suc 99) k (c_pid c)) w1 = (Some b, w2)"
    and 3: "run_state (drop_fields k c) w2 = ((), w')"
    using assms by (auto simp: drop_child_def run_simps)
  obtain es1 where es1: "trace w1 = trace w @ es1" "kill_sent c es1" using Child_kill_sends [OF 1] by blast
  obtain x rest where es2: "trace w2 = trace w1 @ WaitPid (c_pid c) True x # rest" using reap_rounds_polls [OF 2] by blast
  obtain es3 where "trace w' = trace w2 @ es3"
    using keeps_drop_fields [where H = "{#}"] 3 by (rule keepsD)
  then show ?thesis using es1 es2
    by (intro exI [of _ "es1 @ WaitPid (c_pid c) True x # rest @ es3"]) (auto simp: killed_and_polled_def)
qed

abbreviation appends_between :: "world \<Rightarrow> world \<Rightarrow> bool" where
  "appends_between w v \<equiv> \<exists>es. trace v = trace w @ es"

lemma Child_wait_error:
  assumes "run_state (Child_wait n k c) w = (Some (Inl e), w')"
  shows "\<exists>v. appends_between w v \<and> run_state (drop_child n k c) v = (Some (), w')"
proof (cases "require_pipes_drained c")
  case (Inl e')
  then have "run_state (drop_child n k c) w = (Some (), w')"
    using assms by (auto simp: Child_wait_def run_simps)
  then show ?thesis by (intro exI [of _ w]) simp
next
  case (Inr u)
  obtain r c' v where 1: "run_state (wait_blocking n k c) w = (Some (r, c'), v)"
    and 2: "run_state (obind (drop_child n k c') (\<lambda>_. State_Monad.return (Some r))) v = (Some (Inl e), w')"
    using assms Inr by (auto simp: Child_wait_def run_obind_iff)
  obtain b where b: "run_state (block_until_exit n k (c_pid c)) w = (Some b, v)"
    "(r, c') = (case b of Inl e \<Rightarrow> (Inl e, c) | Inr st \<Rightarrow> (Inr st, c\<lparr>c_waited := True\<rparr>))"
    using 1 by (auto simp: wait_blocking_def run_simps)
  have "r = Inl e" using 2 by (auto simp: run_simps)
  then have "c' = c" using b(2) by (auto split: sum.splits)
  moreover have "appends (block_until_exit n k (c_pid c))" by (rule emits_weaken [OF keeps_block]) simp
  ultimately show ?thesis using 2 appends_run [OF _ b(1)] by (auto simp: run_simps intro!: exI [of _ v])
qed

section \<open>Properties\<close>

text \<open>C36: A handle gives back every descriptor it owns exactly once, on every path. Dropping it, waiting
  for the process, or waiting with output closes each of its descriptors once and no other; detaching
  keeps only the pidfd, which the detached handle closes when it is dropped or reaped; and a request
  for a mount handle opens nothing that it does not return, even when one of the duplications
  fails.\<close>

theorem child_handle_closes_fds:
  "keeps fd_step (own_child c + H) (drop_child n k c) (ends_with_post (\<lambda>_ H'. H' = H))
   \<and> keeps fd_step (own_child c + H) (Child_wait n k c) (ends_with_post (\<lambda>_ H'. H' = H))
   \<and> keeps fd_step (own_child c + H) (wait_with_output n m k c) (ends_with_post (\<lambda>_ H'. H' = H))
   \<and> keeps fd_step (own_child c + H) (detach n k c) (ends_with_post (\<lambda>d H'. H' = own_opt (d_pidfd d) + H))
   \<and> keeps fd_step (own_opt (d_pidfd d) + H) (reap n k d) (ends_with_post (\<lambda>_ H'. H' = H))
   \<and> keeps fd_step (own_opt (d_pidfd d) + H) (drop_detached k d) (\<lambda>_ H'. H' = H)
   \<and> keeps fd_step H (mount_handle k c) (\<lambda>r H'. H' = (case r of Inl _ \<Rightarrow> H | Inr h \<Rightarrow> own_handle h + H))"
  by (intro conjI keeps_drop_child keeps_Child_wait keeps_wait_with_output keeps_detach keeps_reap keeps_drop_detached
      keeps_mount_handle)


text \<open>A process with a piped standard output.\<close>

definition piped_child :: Child where
  "piped_child = Child_new 42 None \<lparr>fds_stdin = None, fds_stdout = Some 5, fds_stderr = None\<rparr> None None
     \<lparr>nsfd_user = None, nsfd_mnt = None\<rparr>"


text \<open>C38: Detaching leaves the process alone: neither \<open>detach\<close> nor the drop of the detached handle does
  anything but close descriptors, so nothing is killed, no cgroup is removed and the proxy is not
  stopped; the detached handle keeps the process id, the pidfd, the cgroup and the proxy.\<close>

theorem detached_child_left_alone:
  "fst (run_state (detach n k c) w) =
     Some \<lparr>d_pid = c_pid c, d_pidfd = c_pidfd c, d_cgroup = c_cgroup c, d_proxy = c_proxy c\<rparr>
   \<and> list_all (\<lambda>e. \<exists>fd x. e = Raw (CloseFd fd) x) (new_events w (snd (run_state (detach n k c) w)))
   \<and> list_all (\<lambda>e. \<exists>fd x. e = Raw (CloseFd fd) x) (new_events w (snd (run_state (drop_detached k d) w)))"
proof -
  let ?P = "\<lambda>e. \<exists>fd x. e = Raw (CloseFd fd) x"
  have fd: "emits ?P (drop_fd k x)" for x
    unfolding drop_fd_def close_raw_def raw_call_def by (intro emits_intros) simp
  have detach: "emits ?P (detach n k c)"
    by (auto simp: detach_def drop_child_def drop_fields_def drop_cgroup_opt_def drop_proxy_def intro!: emits_intros fd)
  have fst: "fst (run_state (detach n k c) w) =
     Some \<lparr>d_pid = c_pid c, d_pidfd = c_pidfd c, d_cgroup = c_cgroup c, d_proxy = c_proxy c\<rparr>"
    by (simp add: detach_def drop_child_def run_state_obind run_state_lift_prog split: prod.splits)
  have new: "list_all ?P (new_events w (snd (run_state m w)))" if "emits ?P m" for m :: "'b prog"
    using that by (auto simp: emits_def new_events_def dest!: spec [of _ w])
  show ?thesis using fst new [OF detach] fd [of "d_pidfd d"]
    by (auto simp: emits_def new_events_def drop_detached_def dest!: spec [of _ w])
qed

end
