(* ===== verification/Plans.thy ===== *)
theory Plans
  imports Kernel
begin

text \<open>
  Plans: the list of system calls that a sequence of fallible setup steps is meant to make, and the
  relation \<open>follows\<close> between a program and its plans. A program that follows a plan makes these calls
  in this order, stops at the first that fails, and reports success only when all went through.
\<close>

section \<open>Programs that follow a plan\<close>

text \<open>The calls that belong to a plan; creating an empty mount point and closing a descriptor are
  bookkeeping.\<close>

fun bookkeeping :: "rawcall \<Rightarrow> bool" where
  "bookkeeping (CreateFile p) = True"
| "bookkeeping (CloseFd fd) = True"
| "bookkeeping _ = False"

fun plan_call :: "event \<Rightarrow> rawcall option" where
  "plan_call (Raw c r) = (if bookkeeping c then None else Some c)"
| "plan_call e = None"

definition plan_calls :: "event list \<Rightarrow> rawcall list" where
  "plan_calls es = List.map_filter plan_call es"

lemma plan_calls_simps [simp]:
  "plan_calls [] = []"
  "plan_calls (e # es) = (case plan_call e of None \<Rightarrow> plan_calls es | Some c \<Rightarrow> c # plan_calls es)"
  "plan_calls (es @ fs) = plan_calls es @ plan_calls fs"
  by (simp_all add: plan_calls_def map_filter_def split: option.splits)

text \<open>A call succeeded, or is one whose failure the code ignores.\<close>

definition call_ok :: "rawcall set \<Rightarrow> event \<Rightarrow> bool" where
  "call_ok I e = (case e of Raw c r \<Rightarrow> 0 \<le> r \<or> c \<in> I \<or> (\<exists>fd. c = CloseFd fd) | _ \<Rightarrow> True)"

lemma call_ok_simps [simp]:
  "call_ok I (Raw c r) \<longleftrightarrow> 0 \<le> r \<or> c \<in> I \<or> (\<exists>fd. c = CloseFd fd)"
  "call_ok I (ReadFile p a) = True" "call_ok I (PathExists p b) = True" "call_ok I (PathIsDir p b) = True"
  "call_ok I (CreateDirAll p u) = True" "call_ok I (RemoveDir p u) = True" "call_ok I (WriteFile p v u) = True"
  by (simp_all add: call_ok_def)

definition seq :: "rawcall list set \<Rightarrow> rawcall list set \<Rightarrow> rawcall list set" where
  "seq L M = {a @ b | a b. a \<in> L \<and> b \<in> M}"

lemma seqI [intro]: "a \<in> L \<Longrightarrow> b \<in> M \<Longrightarrow> a @ b \<in> seq L M"
  by (auto simp: seq_def)

lemma seq_singleton [simp]: "seq {a} {b} = {a @ b}" "seq {[]} L = L"
  by (auto simp: seq_def)

lemma seq_choice [simp]:
  "seq {a} {f d | d. P d} = {a @ f d | d. P d}"
  "seq {f d | d. P d} {a} = {f d @ a | d. P d}"
  by (auto simp: seq_def)

primrec each :: "('a \<Rightarrow> rawcall list set) \<Rightarrow> 'a list \<Rightarrow> rawcall list set" where
  "each F [] = {[]}"
| "each F (x # xs) = seq (F x) (each F xs)"

text \<open>\<open>follows I L m\<close>: on success the planned calls of \<open>m\<close> are a plan of \<open>L\<close> and each went through;
  on failure they are the beginning of one, and every call but the last went through.\<close>

fun outcome :: "rawcall set \<Rightarrow> rawcall list set \<Rightarrow> 'e + unit \<Rightarrow> event list \<Rightarrow> bool" where
  "outcome I L (Inl e) es \<longleftrightarrow> (\<exists>rest. plan_calls es @ rest \<in> L) \<and> list_all (call_ok I) (butlast es)"
| "outcome I L (Inr x) es \<longleftrightarrow> plan_calls es \<in> L \<and> list_all (call_ok I) es"

lemma list_all_butlast: "list_all P xs \<Longrightarrow> list_all P (butlast xs)"
  by (auto simp: list_all_iff dest: in_set_butlastD)

lemma outcome_prepend:
  assumes "plan_calls es \<in> L" "list_all (call_ok I) es" "outcome I M r fs"
  shows "outcome I (seq L M) r (es @ fs)"
proof (cases r)
  case (Inl e)
  then obtain rest where "plan_calls fs @ rest \<in> M" "list_all (call_ok I) (butlast fs)" using assms by auto
  then show ?thesis using assms(1,2) seqI [of "plan_calls es" L "plan_calls fs @ rest" M]
    by (auto simp: Inl butlast_append list_all_butlast)
qed (use assms in auto)

lemma outcome_mono: "outcome I L r es \<Longrightarrow> L \<subseteq> M \<Longrightarrow> outcome I M r es"
  by (cases r) auto

definition follows :: "rawcall set \<Rightarrow> rawcall list set \<Rightarrow> ('e + unit) prog \<Rightarrow> bool" where
  "follows I L m \<longleftrightarrow> L \<noteq> {} \<and>
     (\<forall>w r w'. run_state m w = (r, w') \<longrightarrow>
        (\<exists>es. trace w' = trace w @ es \<and>
              outcome I L r es))"

named_theorems follows_intros

lemma followsI:
  assumes "L \<noteq> {}"
    and "\<And>w r w'. run_state m w = (r, w') \<Longrightarrow> \<exists>es. trace w' = trace w @ es \<and>
              outcome I L r es"
  shows "follows I L m"
  using assms by (simp add: follows_def)

lemma follows_run:
  "follows I L m \<Longrightarrow> run_state m w = (r, w') \<Longrightarrow> \<exists>es. trace w' = trace w @ es \<and>
              outcome I L r es"
  by (simp add: follows_def)

lemma follows_nonempty: "follows I L m \<Longrightarrow> L \<noteq> {}"
  by (simp add: follows_def)

lemma follows_and_then [follows_intros]:
  assumes m: "follows I L m" and n: "follows I M n"
  shows "follows I (seq L M) (and_then m n)"
proof (rule followsI)
  show "seq L M \<noteq> {}" using follows_nonempty [OF m] follows_nonempty [OF n] by blast
next
  fix w r w'
  assume "run_state (and_then m n) w = (r, w')"
  then obtain x v where x: "run_state m w = (x, v)"
    and rest: "run_state (case x of Inl e \<Rightarrow> State_Monad.return (Inl e) | Inr _ \<Rightarrow> n) v = (r, w')"
    by (auto simp: and_then_def run_bind_iff)
  obtain b where b: "b \<in> M" using follows_nonempty [OF n] by blast
  obtain es where es: "trace v = trace w @ es"
      "outcome I L x es"
    using follows_run [OF m x] by blast
  show "\<exists>es. trace w' = trace w @ es \<and>
          outcome I (seq L M) r es"
  proof (cases x)
    case (Inl e)
    then have "r = Inl e" "w' = v" using rest by auto
    moreover obtain a where "plan_calls es @ a \<in> L" "list_all (call_ok I) (butlast es)" using es(2) Inl by auto
    then have "outcome I (seq L M) (Inl e) es" using b seqI [of "plan_calls es @ a" L b M] by auto
    ultimately show ?thesis using es(1) by auto
  next
    case (Inr u)
    then have L: "plan_calls es \<in> L" "list_all (call_ok I) es" and "run_state n v = (r, w')"
      using es(2) rest by auto
    then obtain fs where "trace w' = trace v @ fs"
        "outcome I M r fs"
      using follows_run [OF n] by blast
    with es(1) L show ?thesis
      by (intro exI [of _ "es @ fs"]) (simp add: outcome_prepend)
  qed
qed

lemma follows_quiet:
  assumes "emits (\<lambda>e. plan_call e = None \<and> call_ok I e) m"
  shows "follows I {[]} m"
proof (rule followsI)
  fix w r w'
  assume "run_state m w = (r, w')"
  then obtain es where es: "trace w' = trace w @ es" "list_all (\<lambda>e. plan_call e = None \<and> call_ok I e) es"
    using emits_run [OF assms] by blast
  then have "plan_calls es = []" "list_all (call_ok I) es" by (auto simp: plan_calls_def map_filter_def list_all_iff)
  then show "\<exists>es. trace w' = trace w @ es \<and>
          outcome I {[]} r es"
    using es(1) by (cases r) (auto simp: list_all_butlast)
qed simp

lemma call_ok_mono: "call_ok I e \<Longrightarrow> I \<subseteq> J \<Longrightarrow> call_ok J e"
  by (cases e) (auto simp: call_ok_def)

lemma follows_weaken:
  assumes m: "follows I L m" and sub: "I \<subseteq> J" "L \<subseteq> M"
  shows "follows J M m"
proof (rule followsI)
  show "M \<noteq> {}" using follows_nonempty [OF m] sub by blast
next
  fix w r w'
  assume "run_state m w = (r, w')"
  then obtain es where es: "trace w' = trace w @ es" "outcome I L r es" using follows_run [OF m] by blast
  have "list_all (call_ok J) xs" if "list_all (call_ok I) xs" for xs
    using that call_ok_mono [OF _ sub(1)] by (auto simp: list_all_iff)
  then have "outcome J M r es" using es(2) sub(2) by (cases r) auto
  then show "\<exists>es. trace w' = trace w @ es \<and> outcome J M r es" using es(1) by blast
qed

lemma follows_map_result:
  assumes "follows I L m" "\<And>r. is_ok (g r) \<longleftrightarrow> is_ok r"
  shows "follows I L (m \<bind> (\<lambda>r. State_Monad.return (g r)))"
proof (rule followsI)
  fix w r w'
  assume "run_state (m \<bind> (\<lambda>r. State_Monad.return (g r))) w = (r, w')"
  then obtain x where x: "run_state m w = (x, w')" "r = g x" by (auto simp: run_simps)
  moreover have "outcome I L (g x) es" if "outcome I L x es" for es
    using that assms(2) [of x] by (cases x; cases "g x") auto
  ultimately show "\<exists>es. trace w' = trace w @ es \<and> outcome I L r es"
    using follows_run [OF assms(1) x(1)] by blast
qed (rule follows_nonempty [OF assms(1)])

lemma follows_ok [follows_intros]: "follows I {[]} proceed"
  by (intro follows_quiet) (simp add: proceed_def emits_intros)

lemma follows_call:
  assumes "\<not> bookkeeping c" "\<And>r. is_ok (f r) \<Longrightarrow> 0 \<le> r"
  shows "follows I {[c]} (raw_call k c \<bind> (\<lambda>r. State_Monad.return (f r)))"
proof (rule followsI)
  show "\<exists>es. trace w' = trace w @ es \<and> outcome I {[c]} r es"
    if run: "run_state (raw_call k c \<bind> (\<lambda>r. State_Monad.return (f r))) w = (r, w')" for w r w'
  proof -
    obtain x where x: "w' = log_event (Raw c x) w" "r = f x"
      using run by (auto simp: raw_call_def run_simps)
    have "outcome I {[c]} (f x) [Raw c x]"
      using assms(1) assms(2) [of x] by (cases "f x") auto
    then show ?thesis using x by (intro exI [of _ "[Raw c x]"]) simp
  qed
qed simp

lemma follows_each:
  "(\<And>x. x \<in> set xs \<Longrightarrow> follows I (F x) (f x)) \<Longrightarrow> follows I (each F xs) (try_each f xs)"
  by (induction xs) (simp_all add: follows_ok follows_and_then)

lemma each_choice:
  "each (\<lambda>x. range (g x)) xs = {concat (map2 g xs ds) | ds. length ds = length xs}"
proof (induction xs)
  case (Cons x xs)
  have "{g x d @ concat (map2 g xs ds) | d ds. length ds = length xs}
      = {concat (map2 g (x # xs) ds) | ds. length ds = length (x # xs)}" (is "?A = ?B")
  proof
    show "?A \<subseteq> ?B" by clarsimp (metis concat.simps(2) length_Cons list.simps(9) split_conv zip_Cons_Cons)
    show "?B \<subseteq> ?A" by (clarsimp simp: length_Suc_conv) blast
  qed
  moreover have "each (\<lambda>x. range (g x)) (x # xs) = ?A" using Cons.IH by (auto simp: seq_def)
  ultimately show ?case by simp
qed auto

lemma each_singleton: "each (\<lambda>x. {f x}) xs = {concat (map f xs)}"
  by (induction xs) simp_all

lemma follows_query:
  assumes "\<And>d. follows I (L d) (f d)" "\<And>d. plan_call (ev d) = None" "\<And>d. call_ok I (ev d)"
  shows "follows I (\<Union>d. L d) (syscall ans ev \<bind> f)"
proof (rule followsI)
  show "(\<Union>d. L d) \<noteq> {}" using follows_nonempty [OF assms(1)] by blast
next
  fix w r w'
  assume "run_state (syscall ans ev \<bind> f) w = (r, w')"
  then obtain d where "run_state (f d) (log_event (ev d) w) = (r, w')"
    by (auto simp: run_simps)
  from follows_run [OF assms(1) this] obtain es where
    "trace w' = trace w @ ev d # es"
    "outcome I (L d) r es"
    by auto
  then show "\<exists>es. trace w' = trace w @ es \<and>
          outcome I (\<Union>d. L d) r es"
    using assms(2,3) outcome_prepend [of "[ev d]" "{[]}" I "L d" r es]
    by (intro exI [of _ "ev d # es"]) (auto elim!: outcome_mono)
qed

text \<open>A call whose result is thrown away: it must be one of the ignored ones.\<close>

lemma follows_ignored:
  assumes "c \<in> I" "\<not> bookkeeping c" "follows I L m"
  shows "follows I (seq {[c]} L) (raw_call k c \<bind> (\<lambda>_. m))"
proof (rule followsI)
  show "seq {[c]} L \<noteq> {}" using follows_nonempty [OF assms(3)] by blast
next
  fix w r w'
  assume "run_state (raw_call k c \<bind> (\<lambda>_. m)) w = (r, w')"
  then obtain x where "run_state m (log_event (Raw c x) w) = (r, w')"
    by (auto simp: raw_call_def run_simps)
  from follows_run [OF assms(3) this] obtain es where
    "trace w' = trace w @ Raw c x # es"
    "outcome I L r es"
    by auto
  then show "\<exists>es. trace w' = trace w @ es \<and>
          outcome I (seq {[c]} L) r es"
    using assms(1,2)
      outcome_prepend [of "[Raw c x]" "{[c]}" I L r es]
    by (intro exI [of _ "Raw c x # es"]) auto
qed

end
