(* ===== verification/Mount_Ops.thy ===== *)
theory Mount_Ops
  imports Plans Config
begin

text \<open>
  Mounts: validation of dynamic mount targets (\<open>src/mount/validation.rs\<close>), translation of permissions
  to mount flags, and the mount-namespace setup the child runs (\<open>src/mount/ops.rs\<close>).
\<close>

section \<open>Validation\<close>

definition CRITICAL_PATHS :: "string list" where
  "CRITICAL_PATHS = [''/'', ''/proc'', ''/sys'', ''/dev'', ''/run'', ''/old_root'']"

definition critical_overlap :: "string \<Rightarrow> string \<Rightarrow> bool" where
  "critical_overlap target critical \<longleftrightarrow>
     (let is_exact = (target = critical);
          is_prefix = (length target > length critical \<and> take (length critical) target = critical
                       \<and> target ! length critical = CHR ''/'')
      in is_exact \<or> is_prefix)"

definition validate_mount_target :: "string \<Rightarrow> unit result" where
  "validate_mount_target target =
     (if \<not> has_root target
      then Inl (SandboxError_new ErrorKind.Mount (''invalid mount path '' @ target @ '': target path must be absolute''))
      else if list_ex (\<lambda>c. c = ParentDir) (components target)
      then Inl (SandboxError_new ErrorKind.Mount
             (''invalid mount path '' @ target @ '': target path must not contain '' @ [CHR 0x27] @ ''..'' @ [CHR 0x27] @ '' components''))
      else case find (critical_overlap target) CRITICAL_PATHS of
             Some critical \<Rightarrow> Inl (SandboxError_new ErrorKind.Mount
               (''invalid mount path '' @ target @ '': target path must not overlap with critical path '' @ critical))
           | None \<Rightarrow> Inr ())"

definition validate_mount_source :: "kernel \<Rightarrow> string \<Rightarrow> unit result prog" where
  "validate_mount_source k src = do {
     ex \<leftarrow> path_exists k src;
     State_Monad.return (if \<not> ex then Inl (SandboxError_new ErrorKind.Mount (''path not found: '' @ src)) else Inr ())
   }"

section \<open>Flags\<close>

definition MS_REMOUNT :: u64 where "MS_REMOUNT = 32"
definition MS_BIND :: u64 where "MS_BIND = 4096"
definition MS_REC :: u64 where "MS_REC = 16384"
definition MS_PRIVATE :: u64 where "MS_PRIVATE = 262144"
definition MNT_DETACH :: u64 where "MNT_DETACH = 2"

definition mount_flags_to_ms :: "MountFlags \<Rightarrow> u64" where
  "mount_flags_to_ms flags =
     (let out = 0;
          out = (if contains flags READ_ONLY then out OR MS_RDONLY else out);
          out = (if contains flags NO_EXEC then out OR MS_NOEXEC else out);
          out = (if contains flags NO_SUID then out OR MS_NOSUID else out);
          out = (if contains flags NO_DEV then out OR MS_NODEV else out)
      in out)"

definition permission_to_remount_flags :: "Permission \<Rightarrow> bool \<Rightarrow> u64" where
  "permission_to_remount_flags perm recursive =
     (let flags = MS_BIND OR MS_REMOUNT;
          flags = (if recursive then flags OR MS_REC else flags)
      in case perm of
           ReadOnly \<Rightarrow> flags OR MS_RDONLY
         | ReadWrite \<Rightarrow> flags
         | Custom mf \<Rightarrow> flags OR mount_flags_to_ms mf)"

definition remount_flags :: "Permission \<Rightarrow> bool \<Rightarrow> u64 option" where
  "remount_flags perm recursive =
     (case perm of
        ReadWrite \<Rightarrow> None
      | Custom flags \<Rightarrow> if flags = NONE then None else Some (permission_to_remount_flags perm recursive)
      | ReadOnly \<Rightarrow> Some (permission_to_remount_flags perm recursive))"

section \<open>Mount operations\<close>

definition mount_error :: "string \<Rightarrow> kernel \<Rightarrow> int \<Rightarrow> SandboxError" where
  "mount_error what k r = SandboxError_new ErrorKind.Mount (what @ '': '' @ k_nix_errno k (- r))"

text \<open>A \<open>nix\<close> call with its error context, and an IO call with the error converted by \<open>?\<close>.\<close>

definition nix_call :: "kernel \<Rightarrow> rawcall \<Rightarrow> string \<Rightarrow> unit result prog" where
  "nix_call k c what = do {
     r \<leftarrow> raw_call k c;
     State_Monad.return (if r < 0 then Inl (mount_error what k r) else Inr ())
   }"

definition io_call :: "kernel \<Rightarrow> rawcall \<Rightarrow> unit result prog" where
  "io_call k c = do {
     r \<leftarrow> raw_call k c;
     State_Monad.return (if r < 0 then Inl (from_io_error (k_strerror k (- r))) else Inr ())
   }"

definition make_dirs :: "kernel \<Rightarrow> string \<Rightarrow> unit result prog" where
  "make_dirs k p = do {
     r \<leftarrow> create_dir_all k p;
     State_Monad.return (case r of Inl e \<Rightarrow> Inl (from_io_error (io_display e)) | Inr _ \<Rightarrow> Inr ())
   }"

definition private_call :: "string \<Rightarrow> rawcall" where
  "private_call p = MountCall None p None (MS_REC OR MS_PRIVATE) None"

definition make_mounts_private :: "kernel \<Rightarrow> unit result prog" where
  "make_mounts_private k = nix_call k (private_call ''/'') ''mark all mounts as private''"

definition bind_target_setup :: "kernel \<Rightarrow> bool \<Rightarrow> string \<Rightarrow> unit result prog" where
  "bind_target_setup k recursive target =
     (if recursive then make_dirs k target
      else and_then (case path_parent target of Some parent \<Rightarrow> make_dirs k parent | None \<Rightarrow> proceed)
        (path_exists k target \<bind> (\<lambda>ex. if \<not> ex then io_call k (CreateFile target) else proceed)))"

definition bind_call :: "string \<Rightarrow> string \<Rightarrow> bool \<Rightarrow> rawcall" where
  "bind_call src target recursive =
     MountCall (Some src) target None (if recursive then MS_BIND OR MS_REC else MS_BIND) None"

definition bind_mount :: "kernel \<Rightarrow> string \<Rightarrow> string \<Rightarrow> Permission \<Rightarrow> unit result prog" where
  "bind_mount k src target perm = do {
     recursive \<leftarrow> path_is_dir k src;
     and_then (bind_target_setup k recursive target)
       (and_then (nix_call k (bind_call src target recursive) (''bind mount '' @ src @ '' -> '' @ target))
         (case remount_flags perm recursive of
            None \<Rightarrow> proceed
          | Some flags \<Rightarrow> nix_call k (MountCall None target None flags None) (''remount '' @ src @ '' -> '' @ target)))
   }"

definition tmpfs_call :: "string \<Rightarrow> u64 \<Rightarrow> rawcall" where
  "tmpfs_call target sz = MountCall None target (Some ''tmpfs'') 0 (Some (''size='' @ show_nat (unat sz)))"

definition mount_tmpfs :: "kernel \<Rightarrow> string \<Rightarrow> u64 \<Rightarrow> unit result prog" where
  "mount_tmpfs k target sz =
     and_then (make_dirs k target)
       (nix_call k (tmpfs_call target sz)
         (''tmpfs at '' @ target @ '' (size='' @ show_nat (unat sz) @ '')''))"

definition remount_procfs :: "kernel \<Rightarrow> string \<Rightarrow> unit result prog" where
  "remount_procfs k target =
     and_then (make_dirs k target)
       (raw_call k (Umount2 target MNT_DETACH) \<bind> (\<lambda>_.
          nix_call k (MountCall (Some ''proc'') target (Some ''proc'') 0 None) (''procfs at '' @ target)))"

definition apply_procfs :: "kernel \<Rightarrow> string \<Rightarrow> ProcfsMode \<Rightarrow> unit result prog" where
  "apply_procfs k target mode =
     (case mode of Remount \<Rightarrow> remount_procfs k target | Hide \<Rightarrow> mount_tmpfs k target 0 | Leave \<Rightarrow> proceed)"

definition bind_rootfs :: "kernel \<Rightarrow> string \<Rightarrow> unit result prog" where
  "bind_rootfs k root =
     nix_call k (MountCall (Some root) root None (MS_BIND OR MS_REC) None) (''bind mount rootfs at '' @ root)"

definition pivot_into :: "kernel \<Rightarrow> string \<Rightarrow> string \<Rightarrow> unit result prog" where
  "pivot_into k root old_root =
     and_then (make_dirs k old_root)
    (and_then (nix_call k (PivotRoot root old_root) (''pivot_root into sandbox at '' @ root))
    (and_then (io_call k (ChdirTo ''/''))
    (and_then (nix_call k (private_call ''/old_root'') ''mark /old_root as private mount'')
    (and_then (nix_call k (Umount2 ''/old_root'' MNT_DETACH) ''detach /old_root mount'')
       (do { r \<leftarrow> remove_dir k ''/old_root'';
             State_Monad.return (case r of Inl e \<Rightarrow> Inl (from_io_error (io_display e)) | Inr _ \<Rightarrow> Inr ()) })))))"

definition chroot_into :: "kernel \<Rightarrow> string \<Rightarrow> unit result prog" where
  "chroot_into k root =
     and_then (nix_call k (ChrootTo root) (''chroot into sandbox at '' @ root))
       (raw_call k (ChdirTo ''/'') \<bind> (\<lambda>_. proceed))"

text \<open>\<open>Path::strip_prefix("/")\<close>, or the path itself.\<close>

definition strip_root :: "string \<Rightarrow> string" where
  "strip_root p =
     (if has_root p then join ''/'' (trim_tail False (dropWhile junk_piece (split_on (CHR ''/'') (tl p)))) else p)"

definition setup_mount_namespace ::
  "kernel \<Rightarrow> string \<Rightarrow> Mount list \<Rightarrow> (string \<times> u64) list \<Rightarrow> ProcfsMode \<Rightarrow> RootfsMode \<Rightarrow> unit result prog" where
  "setup_mount_namespace k root ms tmpfs proc_mode root_mode =
     and_then (make_mounts_private k)
    (and_then (bind_rootfs k root)
    (and_then (try_each (\<lambda>m. bind_mount k (source m) (path_join root (strip_root (mount_target m))) (permission m)) ms)
    (and_then (try_each (\<lambda>(p, sz). mount_tmpfs k (path_join root (strip_root p)) sz) tmpfs)
    (and_then (apply_procfs k (path_join root ''proc'') proc_mode)
       (case root_mode of
          Pivot old_root \<Rightarrow> pivot_into k root (case old_root of Some old \<Rightarrow> old | None \<Rightarrow> path_join root ''old_root'')
        | Chroot \<Rightarrow> chroot_into k root)))))"

definition setup_bind_mounts ::
  "kernel \<Rightarrow> Mount list \<Rightarrow> (string \<times> u64) list \<Rightarrow> ProcfsMode \<Rightarrow> unit result prog" where
  "setup_bind_mounts k ms tmpfs proc_mode =
     and_then (make_mounts_private k)
    (and_then (try_each (\<lambda>m. bind_mount k (source m) (mount_target m) (permission m)) ms)
    (and_then (try_each (\<lambda>(p, sz). mount_tmpfs k p sz) tmpfs)
       (apply_procfs k ''/proc'' proc_mode)))"

section \<open>Plans\<close>

text \<open>
  The mount calls a successful setup makes, as a list: the abstract counterpart of the programs
  above. Whether a source is a directory is the kernel's answer at the time of the mount.
\<close>

definition bind_plan :: "string \<Rightarrow> string \<Rightarrow> Permission \<Rightarrow> bool \<Rightarrow> rawcall list" where
  "bind_plan src target perm recursive =
     bind_call src target recursive
     # (case remount_flags perm recursive of None \<Rightarrow> [] | Some flags \<Rightarrow> [MountCall None target None flags None])"

definition procfs_plan :: "string \<Rightarrow> ProcfsMode \<Rightarrow> rawcall list" where
  "procfs_plan target mode =
     (case mode of
        Remount \<Rightarrow> [Umount2 target MNT_DETACH, MountCall (Some ''proc'') target (Some ''proc'') 0 None]
      | Hide \<Rightarrow> [tmpfs_call target 0]
      | Leave \<Rightarrow> [])"

definition root_plan :: "string \<Rightarrow> RootfsMode \<Rightarrow> rawcall list" where
  "root_plan root mode =
     (case mode of
        Pivot old_root \<Rightarrow>
          [PivotRoot root (case old_root of Some old \<Rightarrow> old | None \<Rightarrow> path_join root ''old_root''),
           ChdirTo ''/'', private_call ''/old_root'', Umount2 ''/old_root'' MNT_DETACH]
      | Chroot \<Rightarrow> [ChrootTo root, ChdirTo ''/''])"

definition binds_plan :: "(string \<Rightarrow> string) \<Rightarrow> Mount list \<Rightarrow> bool list \<Rightarrow> rawcall list" where
  "binds_plan at ms ds = concat (map2 (\<lambda>m d. bind_plan (source m) (at (mount_target m)) (permission m) d) ms ds)"

definition tmpfs_plan :: "(string \<Rightarrow> string) \<Rightarrow> (string \<times> u64) list \<Rightarrow> rawcall list" where
  "tmpfs_plan at tmpfs = map (\<lambda>(p, sz). tmpfs_call (at p) sz) tmpfs"

definition below :: "string \<Rightarrow> string \<Rightarrow> string" where
  "below root p = path_join root (strip_root p)"

definition namespace_plan ::
  "string \<Rightarrow> Mount list \<Rightarrow> bool list \<Rightarrow> (string \<times> u64) list \<Rightarrow> ProcfsMode \<Rightarrow> RootfsMode \<Rightarrow> rawcall list" where
  "namespace_plan root ms ds tmpfs proc_mode root_mode =
     private_call ''/'' # MountCall (Some root) root None (MS_BIND OR MS_REC) None
     # binds_plan (below root) ms ds @ tmpfs_plan (below root) tmpfs
     @ procfs_plan (path_join root ''proc'') proc_mode @ root_plan root root_mode"

definition bind_mounts_plan :: "Mount list \<Rightarrow> bool list \<Rightarrow> (string \<times> u64) list \<Rightarrow> ProcfsMode \<Rightarrow> rawcall list" where
  "bind_mounts_plan ms ds tmpfs proc_mode =
     private_call ''/'' # binds_plan id ms ds @ tmpfs_plan id tmpfs @ procfs_plan ''/proc'' proc_mode"

section \<open>The setup follows its plan\<close>

lemma follows_make_dirs [follows_intros]: "follows I {[]} (make_dirs k p)"
  by (intro follows_quiet) (auto simp: make_dirs_def create_dir_all_def call_ok_def intro!: emits_intros)

lemma follows_nix_call: "\<not> bookkeeping c \<Longrightarrow> follows I {[c]} (nix_call k c what)"
  unfolding nix_call_def by (rule follows_call) (simp_all split: if_splits)

lemma follows_io_call: "\<not> bookkeeping c \<Longrightarrow> follows I {[c]} (io_call k c)"
  unfolding io_call_def by (rule follows_call) (simp_all split: if_splits)

lemma follows_create_file: "follows I {[]} (io_call k (CreateFile p))"
proof (rule followsI)
  show "\<exists>es. trace w' = trace w @ es \<and> outcome I {[]} r es"
    if "run_state (io_call k (CreateFile p)) w = (r, w')" for w r w'
    using that by (auto simp: io_call_def raw_call_def run_simps split: if_splits)
qed simp

lemma follows_bind_target_setup [follows_intros]: "follows I {[]} (bind_target_setup k d target)"
proof -
  have create: "follows I {[]} (if \<not> ex then io_call k (CreateFile target) else proceed)" for ex
    by (simp add: follows_create_file follows_ok)
  have "follows I (\<Union>ex::bool. {[]}) (path_exists k target \<bind> (\<lambda>ex. if \<not> ex then io_call k (CreateFile target) else proceed))"
    unfolding path_exists_def by (rule follows_query, rule create) (simp_all add: call_ok_def)
  then have "follows I {[]} (path_exists k target \<bind> (\<lambda>ex. if \<not> ex then io_call k (CreateFile target) else proceed))"
    by simp
  moreover have "follows I {[]} (case path_parent target of Some parent \<Rightarrow> make_dirs k parent | None \<Rightarrow> proceed)"
    by (simp add: follows_ok follows_make_dirs split: option.split)
  ultimately have "follows I (seq {[]} {[]}) (and_then (case path_parent target of Some parent \<Rightarrow> make_dirs k parent | None \<Rightarrow> proceed)
      (path_exists k target \<bind> (\<lambda>ex. if \<not> ex then io_call k (CreateFile target) else proceed)))"
    by (intro follows_and_then)
  then show ?thesis by (simp add: bind_target_setup_def follows_make_dirs)
qed

text \<open>The failures the code ignores: detaching a procfs that is mounted at the target, and the change
  of directory after a \<open>chroot\<close>.\<close>

definition ignored :: "string \<Rightarrow> RootfsMode \<Rightarrow> rawcall set" where
  "ignored target mode = {Umount2 target MNT_DETACH} \<union> (if mode = Chroot then {ChdirTo ''/''} else {})"

lemma follows_bind_mount: "follows I (range (bind_plan src target perm)) (bind_mount k src target perm)"
proof -
  have remount: "follows I {case remount_flags perm d of None \<Rightarrow> [] | Some flags \<Rightarrow> [MountCall None target None flags None]}
      (case remount_flags perm d of None \<Rightarrow> proceed
       | Some flags \<Rightarrow> nix_call k (MountCall None target None flags None) what)" for d what
    by (simp add: follows_ok follows_nix_call split: option.split)
  have bind: "follows I {[bind_call src target d]} (nix_call k (bind_call src target d) what)" for d what
    by (rule follows_nix_call) (simp add: bind_call_def)
  have "follows I {bind_plan src target perm d}
     (and_then (bind_target_setup k d target)
       (and_then (nix_call k (bind_call src target d) (''bind mount '' @ src @ '' -> '' @ target))
         (case remount_flags perm d of
            None \<Rightarrow> proceed
          | Some flags \<Rightarrow> nix_call k (MountCall None target None flags None) (''remount '' @ src @ '' -> '' @ target))))" for d
    using follows_and_then [OF follows_bind_target_setup follows_and_then [OF bind remount]]
    by (simp add: bind_plan_def)
  then have "follows I (\<Union>d. {bind_plan src target perm d}) (bind_mount k src target perm)"
    unfolding bind_mount_def path_is_dir_def by (rule follows_query) (simp_all add: call_ok_def)
  then show ?thesis by (simp add: UNION_singleton_eq_range)
qed

lemma follows_mount_tmpfs: "follows I {[tmpfs_call target sz]} (mount_tmpfs k target sz)"
proof -
  have "follows I {[tmpfs_call target sz]} (nix_call k (tmpfs_call target sz) what)" for what
    by (rule follows_nix_call) (simp add: tmpfs_call_def)
  from follows_and_then [OF follows_make_dirs this] show ?thesis by (simp add: mount_tmpfs_def)
qed

lemma follows_apply_procfs:
  assumes "Umount2 target MNT_DETACH \<in> I"
  shows "follows I {procfs_plan target mode} (apply_procfs k target mode)"
proof -
  have "follows I {procfs_plan target Remount} (remount_procfs k target)"
    using follows_and_then [OF follows_make_dirs follows_ignored [OF assms _ follows_nix_call]]
    by (simp add: remount_procfs_def procfs_plan_def)
  then show ?thesis
    by (simp add: apply_procfs_def procfs_plan_def follows_ok follows_mount_tmpfs split: ProcfsMode.split)
qed

lemma follows_root:
  assumes "mode = Chroot \<Longrightarrow> ChdirTo ''/'' \<in> I"
  shows "follows I {root_plan root mode}
    (case mode of
       Pivot old_root \<Rightarrow> pivot_into k root (case old_root of Some old \<Rightarrow> old | None \<Rightarrow> path_join root ''old_root'')
     | Chroot \<Rightarrow> chroot_into k root)"
proof (cases mode)
  case (Pivot old_root)
  have priv: "follows I {[private_call p]} (nix_call k (private_call p) what)" for p what
    by (rule follows_nix_call) (simp add: private_call_def)
  have removed: "follows I {[]} (remove_dir k p \<bind> (\<lambda>r. State_Monad.return
      (case r of Inl e \<Rightarrow> Inl (from_io_error (io_display e)) | Inr _ \<Rightarrow> Inr ())))" for p
    by (intro follows_quiet) (auto simp: remove_dir_def call_ok_def intro!: emits_intros)
  have pivot: "follows I {[PivotRoot root p]} (nix_call k (PivotRoot root p) what)" for p what
    by (rule follows_nix_call) simp
  have chdir: "follows I {[ChdirTo p]} (io_call k (ChdirTo p))" for p
    by (rule follows_io_call) simp
  have detach: "follows I {[Umount2 p f]} (nix_call k (Umount2 p f) what)" for p f what
    by (rule follows_nix_call) simp
  show ?thesis
    using follows_and_then [OF follows_make_dirs follows_and_then [OF pivot follows_and_then [OF chdir
        follows_and_then [OF priv follows_and_then [OF detach removed]]]]]
    by (simp add: Pivot pivot_into_def root_plan_def split: option.split)
next
  case Chroot
  have chroot: "follows I {[ChrootTo root]} (nix_call k (ChrootTo root) what)" for what
    by (rule follows_nix_call) simp
  have chdir: "follows I (seq {[ChdirTo ''/'']} {[]}) (raw_call k (ChdirTo ''/'') \<bind> (\<lambda>_. proceed))"
    using assms [OF Chroot] by (intro follows_ignored follows_ok) simp_all
  show ?thesis
    using follows_and_then [OF chroot chdir] by (simp add: Chroot chroot_into_def root_plan_def)
qed

lemma follows_binds:
  "follows I {binds_plan at ms ds | ds. length ds = length ms}
     (try_each (\<lambda>m. bind_mount k (source m) (at (mount_target m)) (permission m)) ms)"
  unfolding binds_plan_def each_choice [symmetric] by (rule follows_each) (rule follows_bind_mount)

lemma follows_tmpfs:
  "follows I {tmpfs_plan at tmpfs} (try_each (\<lambda>(p, sz). mount_tmpfs k (at p) sz) tmpfs)"
proof -
  have "follows I (each (\<lambda>(p, sz). {[tmpfs_call (at p) sz]}) tmpfs) (try_each (\<lambda>(p, sz). mount_tmpfs k (at p) sz) tmpfs)"
    by (rule follows_each) (auto simp: follows_mount_tmpfs)
  moreover have "each (\<lambda>(p, sz). {[tmpfs_call (at p) sz]}) tmpfs = {tmpfs_plan at tmpfs}"
    by (induction tmpfs) (auto simp: tmpfs_plan_def)
  ultimately show ?thesis by simp
qed

lemma follows_private: "follows I {[private_call ''/'']} (make_mounts_private k)"
  unfolding make_mounts_private_def by (rule follows_nix_call) (simp add: private_call_def)

lemma setup_mount_namespace_follows:
  "follows (ignored (path_join root ''proc'') mode)
     {namespace_plan root ms ds tmpfs proc_mode mode | ds. length ds = length ms}
     (setup_mount_namespace k root ms tmpfs proc_mode mode)"
proof -
  let ?I = "ignored (path_join root ''proc'') mode"
  have rootfs: "follows ?I {[MountCall (Some root) root None (MS_BIND OR MS_REC) None]} (bind_rootfs k root)"
    unfolding bind_rootfs_def by (rule follows_nix_call) simp
  have proc: "follows ?I {procfs_plan (path_join root ''proc'') proc_mode} (apply_procfs k (path_join root ''proc'') proc_mode)"
    by (rule follows_apply_procfs) (simp add: ignored_def)
  have new_root: "follows ?I {root_plan root mode}
      (case mode of
         Pivot old_root \<Rightarrow> pivot_into k root (case old_root of Some old \<Rightarrow> old | None \<Rightarrow> path_join root ''old_root'')
       | Chroot \<Rightarrow> chroot_into k root)"
    by (rule follows_root) (simp add: ignored_def)
  show ?thesis
    using follows_and_then [OF follows_private [of _ k] follows_and_then [OF rootfs
        follows_and_then [OF follows_binds [of _ "below root" ms k]
        follows_and_then [OF follows_tmpfs [of _ "below root" tmpfs k] follows_and_then [OF proc new_root]]]]]
    by (simp add: setup_mount_namespace_def namespace_plan_def below_def [abs_def])
qed

lemma setup_bind_mounts_follows:
  "follows {Umount2 ''/proc'' MNT_DETACH} {bind_mounts_plan ms ds tmpfs proc_mode | ds. length ds = length ms}
     (setup_bind_mounts k ms tmpfs proc_mode)"
proof -
  have proc: "follows {Umount2 ''/proc'' MNT_DETACH} {procfs_plan ''/proc'' proc_mode} (apply_procfs k ''/proc'' proc_mode)"
    by (rule follows_apply_procfs) simp
  show ?thesis
    using follows_and_then [OF follows_private [of _ k] follows_and_then [OF follows_binds [of _ id ms k]
        follows_and_then [OF follows_tmpfs [of _ id tmpfs k] proc]]]
    by (simp add: setup_bind_mounts_def bind_mounts_plan_def)
qed

section \<open>Paths below the root file system\<close>

lemma strip_root_rooted:
  assumes "has_root t"
  shows "\<not> has_root (strip_root t)"
    and "filter (\<lambda>p. \<not> junk_piece p) (split_on (CHR ''/'') (strip_root t))
       = filter (\<lambda>p. \<not> junk_piece p) (split_on (CHR ''/'') (tl t))"
proof -
  let ?ps = "split_on (CHR ''/'') (tl t)"
  define qs where "qs = trim_tail False (dropWhile junk_piece ?ps)"
  have strip: "strip_root t = join ''/'' qs" using assms by (simp add: strip_root_def qs_def)
  have "prefix qs (dropWhile junk_piece ?ps)" unfolding qs_def by (rule trim_tail_prefix)
  then obtain zs where zs: "dropWhile junk_piece ?ps = qs @ zs" by (auto simp: prefix_def)
  have sub: "set qs \<subseteq> set ?ps"
  proof
    fix q assume "q \<in> set qs"
    then have "q \<in> set (dropWhile junk_piece ?ps)" by (simp add: zs)
    then show "q \<in> set ?ps" by (rule set_dropWhileD)
  qed
  have h: "\<not> junk_piece (hd qs)" if "qs \<noteq> []"
    using hd_dropWhile [of junk_piece ?ps] that by (simp add: zs)
  have pieces: "list_all (\<lambda>p. CHR ''/'' \<notin> set p) qs"
    using sub split_on_pieces by (auto simp: list_all_iff)
  have filt: "filter (\<lambda>p. \<not> junk_piece p) qs = filter (\<lambda>p. \<not> junk_piece p) ?ps"
    unfolding qs_def filter_trim_tail by (rule filter_not_dropWhile)
  show "\<not> has_root (strip_root t)"
  proof (cases qs)
    case (Cons q rs)
    then have "q \<noteq> []" "hd q \<noteq> CHR ''/''" using h pieces by (auto simp: list_all_iff) (metis list.set_sel(1))
    then show ?thesis by (cases q) (simp_all add: strip Cons join_Cons)
  qed (simp add: strip)
  show "filter (\<lambda>p. \<not> junk_piece p) (split_on (CHR ''/'') (strip_root t)) = filter (\<lambda>p. \<not> junk_piece p) ?ps"
    using filt pieces by (cases "qs = []") (simp_all add: strip split_on_join flip: filt)
qed

lemma components_below:
  assumes "root \<noteq> []" "has_root t"
  shows "components (below root t) = components root @ tl (components t)"
proof -
  obtain s where t: "t = CHR ''/'' # s" using assms(2) by (auto simp: has_root_def)
  show ?thesis
    using components_path_join [OF assms(1) strip_root_rooted(1) [OF assms(2)]] strip_root_rooted(2) [OF assms(2)]
    by (simp add: below_def t components_rooted)
qed

lemma critical_overlap_name:
  assumes "CHR ''/'' \<notin> set c"
  shows "critical_overlap (CHR ''/'' # s) (CHR ''/'' # c) \<longleftrightarrow> takeWhile (\<lambda>x. x \<noteq> CHR ''/'') s = c"
proof
  assume "critical_overlap (CHR ''/'' # s) (CHR ''/'' # c)"
  then consider "s = c" | "length c < length s" "take (length c) s = c" "s ! length c = CHR ''/''"
    by (auto simp: critical_overlap_def Let_def)
  then show "takeWhile (\<lambda>x. x \<noteq> CHR ''/'') s = c"
  proof cases
    case 1
    then show ?thesis using assms by (auto simp: takeWhile_eq_all_conv)
  next
    case 2
    obtain r where "s = c @ CHR ''/'' # r"
      using id_take_nth_drop [OF 2(1)] unfolding 2(2,3) by blast
    moreover have "takeWhile (\<lambda>x. x \<noteq> CHR ''/'') (c @ CHR ''/'' # r) = c"
      using assms by (subst takeWhile_append2) auto
    ultimately show ?thesis by simp
  qed
next
  assume c: "takeWhile (\<lambda>x. x \<noteq> CHR ''/'') s = c"
  show "critical_overlap (CHR ''/'' # s) (CHR ''/'' # c)"
  proof (cases "dropWhile (\<lambda>x. x \<noteq> CHR ''/'') s")
    case Nil
    then have "s = c" using takeWhile_dropWhile_id [of "\<lambda>x. x \<noteq> CHR ''/''" s] unfolding c Nil by simp
    then show ?thesis by (simp add: critical_overlap_def)
  next
    case (Cons x r)
    have "x = CHR ''/''" using hd_dropWhile [of "\<lambda>x. x \<noteq> CHR ''/''" s] by (simp add: Cons)
    moreover have "s = c @ x # r" using takeWhile_dropWhile_id [of "\<lambda>x. x \<noteq> CHR ''/''" s] unfolding c Cons by simp
    ultimately have "s = c @ CHR ''/'' # r" by simp
    then show ?thesis by (simp add: critical_overlap_def)
  qed
qed

lemma critical_overlap_root: "critical_overlap (CHR ''/'' # s) ''/'' \<longleftrightarrow> s = [] \<or> hd s = CHR ''/''"
  by (cases s) (auto simp: critical_overlap_def)


definition canonical_names :: "string list \<Rightarrow> bool" where
  "canonical_names ps \<longleftrightarrow> list_all (\<lambda>p. \<not> junk_piece p \<and> CHR ''/'' \<notin> set p) ps"

lemma canonical_target:
  assumes "canonical_names (p # ps)"
  shows "components (CHR ''/'' # join ''/'' (p # ps)) = RootDir # map piece_component (p # ps)"
    and "takeWhile (\<lambda>x. x \<noteq> CHR ''/'') (join ''/'' (p # ps)) = p"
proof -
  have split: "split_on (CHR ''/'') (join ''/'' (p # ps)) = p # ps"
    using assms by (intro split_on_join) (auto simp: canonical_names_def list_all_iff)
  have "filter (\<lambda>p. \<not> junk_piece p) (p # ps) = p # ps"
    using assms by (simp only: filter_id_conv) (auto simp: canonical_names_def list_all_iff)
  then show "components (CHR ''/'' # join ''/'' (p # ps)) = RootDir # map piece_component (p # ps)"
    by (simp only: components_rooted split)
  show "takeWhile (\<lambda>x. x \<noteq> CHR ''/'') (join ''/'' (p # ps)) = p"
    using hd_split_on [of "CHR ''/''" "join ''/'' (p # ps)"] by (simp only: split list.sel)
qed

lemma validate_ok_iff:
  "validate_mount_target t = Inr () \<longleftrightarrow>
     has_root t \<and> ParentDir \<notin> set (components t) \<and> \<not> list_ex (critical_overlap t) CRITICAL_PATHS"
proof -
  have "list_ex (critical_overlap t) CRITICAL_PATHS \<longleftrightarrow> find (critical_overlap t) CRITICAL_PATHS \<noteq> None"
    by (auto simp: find_None_iff list_ex_iff)
  then show ?thesis by (auto simp: validate_mount_target_def list_ex_iff split: option.split)
qed

lemma critical_overlap_names:
  assumes "p \<noteq> []" "takeWhile (\<lambda>x. x \<noteq> CHR ''/'') s = p"
  shows "list_ex (critical_overlap (CHR ''/'' # s)) CRITICAL_PATHS
      \<longleftrightarrow> p \<in> {''proc'', ''sys'', ''dev'', ''run'', ''old_root''}"
proof -
  have "\<not> critical_overlap (CHR ''/'' # s) ''/''"
    using assms by (cases s) (auto simp: critical_overlap_root split: if_splits)
  then show ?thesis using assms(2) by (auto simp: CRITICAL_PATHS_def critical_overlap_name)
qed

lemma ParentDir_piece: "ParentDir \<in> set (map piece_component ps) \<longleftrightarrow> ''..'' \<in> set ps"
  by (auto simp: piece_component_def)

section \<open>Properties\<close>


definition demo_mounts :: "Mount list" where
  "demo_mounts = [\<lparr>source = ''/usr'', mount_target = ''/usr'', permission = ReadOnly\<rparr>]"


fun restricts :: "Permission \<Rightarrow> MountFlags \<Rightarrow> bool" where
  "restricts ReadOnly f = (f = READ_ONLY)"
| "restricts ReadWrite f = False"
| "restricts (Custom flags) f = contains flags f"

lemma bit_MS:
  "bit MS_BIND n \<longleftrightarrow> n = 12" "bit MS_REMOUNT n \<longleftrightarrow> n = 5" "bit MS_REC n \<longleftrightarrow> n = 14"
  "bit MS_RDONLY n \<longleftrightarrow> n = 0" "bit MS_NOSUID n \<longleftrightarrow> n = 1" "bit MS_NODEV n \<longleftrightarrow> n = 2" "bit MS_NOEXEC n \<longleftrightarrow> n = 3"
proof -
  have e: "MS_BIND = 2 ^ 12" "MS_REMOUNT = 2 ^ 5" "MS_REC = 2 ^ 14" "MS_RDONLY = 2 ^ 0" "MS_NOSUID = 2 ^ 1"
    "MS_NODEV = 2 ^ 2" "MS_NOEXEC = 2 ^ 3"
    by (simp_all add: MS_BIND_def MS_REMOUNT_def MS_REC_def MS_RDONLY_def MS_NOSUID_def MS_NODEV_def MS_NOEXEC_def)
  have b: "bit (2 ^ m :: u64) n \<longleftrightarrow> n = m" if "m < 64" for m
    using that by (auto simp: bit_exp_iff)
  show "bit MS_BIND n \<longleftrightarrow> n = 12" "bit MS_REMOUNT n \<longleftrightarrow> n = 5" "bit MS_REC n \<longleftrightarrow> n = 14"
    "bit MS_RDONLY n \<longleftrightarrow> n = 0" "bit MS_NOSUID n \<longleftrightarrow> n = 1" "bit MS_NODEV n \<longleftrightarrow> n = 2" "bit MS_NOEXEC n \<longleftrightarrow> n = 3"
    unfolding e by (rule b, simp)+
qed

lemma distinct_flags: "READ_ONLY \<noteq> NO_EXEC" "READ_ONLY \<noteq> NO_SUID" "READ_ONLY \<noteq> NO_DEV"
  by (simp_all add: READ_ONLY_def NO_EXEC_def NO_SUID_def NO_DEV_def MS_RDONLY_def MS_NOEXEC_def MS_NOSUID_def MS_NODEV_def)

lemma contains_NONE:
  "\<not> contains NONE READ_ONLY" "\<not> contains NONE NO_EXEC" "\<not> contains NONE NO_SUID" "\<not> contains NONE NO_DEV"
  by (simp_all add: contains_def NONE_def READ_ONLY_def NO_EXEC_def NO_SUID_def NO_DEV_def
      MS_RDONLY_def MS_NOEXEC_def MS_NOSUID_def MS_NODEV_def)

lemma bit_mount_flags:
  "bit (mount_flags_to_ms flags) n =
     ((n = 0 \<and> contains flags READ_ONLY) \<or> (n = 1 \<and> contains flags NO_SUID)
      \<or> (n = 2 \<and> contains flags NO_DEV) \<or> (n = 3 \<and> contains flags NO_EXEC))"
  by (auto simp: mount_flags_to_ms_def Let_def bit_or_iff bit_MS)

text \<open>C24: Permissions are never dropped. When a bind mount needs no remount, its permission asks for
  no restriction; otherwise the remount flags are exactly \<open>MS_BIND\<close>, \<open>MS_REMOUNT\<close>, \<open>MS_REC\<close> for a
  directory, and the bit of each restriction that the permission asks for.\<close>

theorem remount_flags_complete:
  "case remount_flags perm recursive of
     None \<Rightarrow> \<not> restricts perm READ_ONLY \<and> \<not> restricts perm NO_EXEC \<and> \<not> restricts perm NO_SUID \<and> \<not> restricts perm NO_DEV
   | Some flags \<Rightarrow> \<forall>n. bit flags n =
       (n = 12 \<or> n = 5 \<or> (n = 14 \<and> recursive) \<or> (n = 0 \<and> restricts perm READ_ONLY) \<or> (n = 1 \<and> restricts perm NO_SUID)
        \<or> (n = 2 \<and> restricts perm NO_DEV) \<or> (n = 3 \<and> restricts perm NO_EXEC))"
  by (cases perm)
     (auto simp: remount_flags_def permission_to_remount_flags_def Let_def bit_or_iff bit_MS bit_mount_flags
       contains_NONE distinct_flags distinct_flags [symmetric])

text \<open>C25: On canonical absolute paths, with no empty or \<open>.\<close> component, the validation of dynamic mount
  targets does what its documentation says: a target is accepted exactly when it is not the root,
  has no \<open>..\<close> component, and its first component is none of the critical directories.\<close>

theorem validate_canonical_target:
  assumes "canonical_names ps"
  shows "validate_mount_target (CHR ''/'' # join ''/'' ps) = Inr () \<longleftrightarrow>
     ps \<noteq> [] \<and> ''..'' \<notin> set ps \<and> hd ps \<notin> {''proc'', ''sys'', ''dev'', ''run'', ''old_root''}"
proof (cases ps)
  case Nil
  then show ?thesis by (simp add: validate_ok_iff CRITICAL_PATHS_def critical_overlap_root)
next
  case (Cons p rs)
  then have "p \<noteq> []" using assms by (simp add: canonical_names_def)
  note overlap = critical_overlap_names [OF this canonical_target(2)] and comps = canonical_target(1)
  have "ParentDir \<in> set (components (CHR ''/'' # join ''/'' (p # rs))) \<longleftrightarrow> ''..'' \<in> set (p # rs)"
    using assms ParentDir_piece [of "p # rs"] by (simp only: Cons comps) auto
  then show ?thesis
    using overlap assms by (simp only: validate_ok_iff Cons) auto
qed

theorem validate_canonical_target_witness:
  "validate_mount_target ''/data/input'' = Inr ()"
  using validate_canonical_target [of "[''data'', ''input'']"] by (simp add: canonical_names_def)

text \<open>The comparison with the critical paths is on bytes, so a \<open>.\<close> component hides one.\<close>

lemma dotted_critical_target_accepted:
  "validate_mount_target ''/./proc'' = Inr () \<and> path_eq ''/./proc'' ''/proc''"
  by code_simp

text \<open>C26: A configured mount whose target is absolute is placed at the root file system's path
  followed by the target's own components, so it stays below the root file system unless one of
  them is \<open>..\<close>.\<close>

theorem mount_targets_below_rootfs:
  assumes "root \<noteq> []" "has_root t"
  shows "components (below root t) = components root @ tl (components t)
       \<and> path_starts_with (below root t) root"
  using components_below [OF assms] by (simp add: path_starts_with_def)

theorem mount_targets_below_rootfs_witness:
  "path_starts_with (below ''/srv/root/'' ''/data//x'') ''/srv/root''"
  using mount_targets_below_rootfs [of "''/srv/root/''" "''/data//x''"] by (simp add: path_starts_with_def components_def)

text \<open>Targets of configured mounts are not validated: a \<open>..\<close> leads out of the root file system.\<close>

lemma dotdot_target_leaves_rootfs:
  "components (below ''/srv/root'' ''/../../etc'')
     = [RootDir, Normal ''srv'', Normal ''root'', ParentDir, ParentDir, Normal ''etc'']"
  by code_simp

end
