(* ===== verification/Seccomp_Presets.thy ===== *)
theory Seccomp_Presets
  imports Seccomp_Bpf
begin

text \<open>
  The preset system-call lists of \<open>src/seccomp/presets.rs\<close>. A system call is named by its
  \<open>SYS_*\<close> constant; the numbers come from the \<open>libc\<close> crate and are a parameter (\<open>sysno\<close>) of the
  build target, as are the architecture and the \<open>landlock\<close> feature, which select the
  \<open>cfg\<close>-gated lists.
\<close>

record target =
  target_arch :: arch
  landlock_feature :: bool
  sysno :: "string \<Rightarrow> i64" \<comment> \<open>\<open>SyscallNumber\<close> is \<open>c_long\<close>\<close>

text \<open>\<open>nr as i32\<close> keeps the low 32 bits.\<close>

definition as_i32 :: "i64 \<Rightarrow> i32" where
  "as_i32 nr = ucast nr"

section \<open>The lists\<close>

definition STRICT_SYSCALLS :: "string list" where
  "STRICT_SYSCALLS =
    [''SYS_read'', ''SYS_write'', ''SYS_readv'', ''SYS_writev'', ''SYS_close'', ''SYS_fstat'',
     ''SYS_lseek'', ''SYS_pread64'', ''SYS_openat'', ''SYS_faccessat'', ''SYS_readlinkat'',
     ''SYS_getdents64'', ''SYS_newfstatat'', ''SYS_brk'', ''SYS_mmap'', ''SYS_munmap'',
     ''SYS_mprotect'', ''SYS_mremap'', ''SYS_madvise'', ''SYS_execve'', ''SYS_exit'',
     ''SYS_exit_group'', ''SYS_clone'', ''SYS_clone3'', ''SYS_wait4'', ''SYS_getpid'',
     ''SYS_getppid'', ''SYS_getuid'', ''SYS_getgid'', ''SYS_geteuid'', ''SYS_getegid'',
     ''SYS_getresuid'', ''SYS_getresgid'', ''SYS_set_tid_address'', ''SYS_set_robust_list'',
     ''SYS_getrandom'', ''SYS_prctl'', ''SYS_rseq'', ''SYS_uname'', ''SYS_clock_gettime'',
     ''SYS_futex'', ''SYS_sched_yield'', ''SYS_prlimit64'', ''SYS_rt_sigaction'',
     ''SYS_rt_sigprocmask'', ''SYS_rt_sigreturn'', ''SYS_sigaltstack'', ''SYS_pipe2'',
     ''SYS_dup'', ''SYS_dup3'', ''SYS_fcntl'', ''SYS_ioctl'']"

definition STRICT_SYSCALLS_X86_ONLY :: "target \<Rightarrow> string list" where
  "STRICT_SYSCALLS_X86_ONLY t = (if target_arch t = X86_64 then
    [''SYS_access'', ''SYS_readlink'', ''SYS_pipe'', ''SYS_dup2'', ''SYS_fork'', ''SYS_getpgrp'',
     ''SYS_arch_prctl'']
   else [])"

definition STANDARD_SYSCALLS :: "string list" where
  "STANDARD_SYSCALLS =
    [''SYS_read'', ''SYS_write'', ''SYS_openat'', ''SYS_close'', ''SYS_fstat'',
     ''SYS_newfstatat'', ''SYS_faccessat'', ''SYS_readlinkat'', ''SYS_getcwd'', ''SYS_dup'',
     ''SYS_dup3'', ''SYS_fcntl'', ''SYS_flock'', ''SYS_fsync'', ''SYS_fdatasync'',
     ''SYS_truncate'', ''SYS_ftruncate'', ''SYS_getdents64'', ''SYS_lseek'', ''SYS_mmap'',
     ''SYS_munmap'', ''SYS_mprotect'', ''SYS_mremap'', ''SYS_brk'', ''SYS_madvise'',
     ''SYS_clone'', ''SYS_clone3'', ''SYS_execve'', ''SYS_wait4'', ''SYS_waitid'',
     ''SYS_getpid'', ''SYS_getppid'', ''SYS_gettid'', ''SYS_exit'', ''SYS_exit_group'',
     ''SYS_clock_gettime'', ''SYS_clock_getres'', ''SYS_clock_nanosleep'', ''SYS_nanosleep'',
     ''SYS_gettimeofday'', ''SYS_getrlimit'', ''SYS_setrlimit'', ''SYS_prlimit64'',
     ''SYS_getrusage'', ''SYS_rt_sigaction'', ''SYS_rt_sigprocmask'', ''SYS_rt_sigreturn'',
     ''SYS_sigaltstack'', ''SYS_rt_sigpending'', ''SYS_rt_sigsuspend'', ''SYS_kill'',
     ''SYS_tgkill'', ''SYS_readv'', ''SYS_writev'', ''SYS_pread64'', ''SYS_pwrite64'',
     ''SYS_ppoll'', ''SYS_epoll_create1'', ''SYS_epoll_ctl'', ''SYS_epoll_pwait'', ''SYS_pipe2'',
     ''SYS_socket'', ''SYS_connect'', ''SYS_accept'', ''SYS_accept4'', ''SYS_sendto'',
     ''SYS_recvfrom'', ''SYS_sendmsg'', ''SYS_recvmsg'', ''SYS_bind'', ''SYS_listen'',
     ''SYS_getsockname'', ''SYS_getpeername'', ''SYS_setsockopt'', ''SYS_getsockopt'',
     ''SYS_socketpair'', ''SYS_shutdown'', ''SYS_futex'', ''SYS_sched_yield'',
     ''SYS_set_tid_address'', ''SYS_set_robust_list'', ''SYS_get_robust_list'',
     ''SYS_close_range'', ''SYS_getrandom'', ''SYS_prctl'', ''SYS_uname'', ''SYS_sysinfo'',
     ''SYS_ioctl'', ''SYS_rseq'', ''SYS_splice'', ''SYS_copy_file_range'', ''SYS_umask'',
     ''SYS_getuid'', ''SYS_getgid'', ''SYS_geteuid'', ''SYS_getegid'', ''SYS_getgroups'',
     ''SYS_getresuid'', ''SYS_getresgid'']"

definition STANDARD_SYSCALLS_X86_ONLY :: "target \<Rightarrow> string list" where
  "STANDARD_SYSCALLS_X86_ONLY t = (if target_arch t = X86_64 then
    [''SYS_open'', ''SYS_stat'', ''SYS_lstat'', ''SYS_access'', ''SYS_readlink'',
     ''SYS_getdents'', ''SYS_dup2'', ''SYS_fork'', ''SYS_vfork'', ''SYS_getpgrp'',
     ''SYS_select'', ''SYS_poll'', ''SYS_epoll_create'', ''SYS_epoll_wait'', ''SYS_pipe'',
     ''SYS_arch_prctl'', ''SYS_fadvise64'']
   else [])"

definition PERMISSIVE_EXTRA_SYSCALLS :: "string list" where
  "PERMISSIVE_EXTRA_SYSCALLS =
    [''SYS_linkat'', ''SYS_unlinkat'', ''SYS_renameat'', ''SYS_renameat2'', ''SYS_mkdirat'',
     ''SYS_fchmod'', ''SYS_fchmodat'', ''SYS_fchown'', ''SYS_fchownat'', ''SYS_utimensat'',
     ''SYS_execveat'', ''SYS_pidfd_open'', ''SYS_pidfd_send_signal'', ''SYS_msync'',
     ''SYS_mincore'', ''SYS_preadv'', ''SYS_pwritev'', ''SYS_tee'', ''SYS_vmsplice'',
     ''SYS_process_madvise'', ''SYS_eventfd2'', ''SYS_timerfd_create'', ''SYS_timerfd_settime'',
     ''SYS_timerfd_gettime'', ''SYS_timer_create'', ''SYS_timer_settime'', ''SYS_timer_gettime'',
     ''SYS_timer_delete'', ''SYS_clock_adjtime'', ''SYS_signalfd4'', ''SYS_inotify_init1'',
     ''SYS_inotify_add_watch'', ''SYS_inotify_rm_watch'', ''SYS_sched_getaffinity'',
     ''SYS_sched_setaffinity'', ''SYS_sched_get_priority_max'', ''SYS_sched_get_priority_min'',
     ''SYS_syslog'', ''SYS_futex_waitv'', ''SYS_setgroups'', ''SYS_epoll_pwait2'',
     ''SYS_landlock_create_ruleset'', ''SYS_landlock_add_rule'', ''SYS_landlock_restrict_self'']"

definition PERMISSIVE_EXTRA_SYSCALLS_X86_ONLY :: "target \<Rightarrow> string list" where
  "PERMISSIVE_EXTRA_SYSCALLS_X86_ONLY t = (if target_arch t = X86_64 then
    [''SYS_link'', ''SYS_unlink'', ''SYS_rename'', ''SYS_mkdir'', ''SYS_rmdir'', ''SYS_chmod'',
     ''SYS_chown'', ''SYS_lchown'', ''SYS_time'', ''SYS_eventfd'', ''SYS_inotify_init'',
     ''SYS_signalfd'']
   else [])"

definition BLOCKED_SYSCALLS :: "string list" where
  "BLOCKED_SYSCALLS =
    [''SYS_ptrace'', ''SYS_kcmp'', ''SYS_process_vm_readv'', ''SYS_process_vm_writev'',
     ''SYS_open_by_handle_at'', ''SYS_kexec_load'', ''SYS_kexec_file_load'', ''SYS_init_module'',
     ''SYS_finit_module'', ''SYS_delete_module'', ''SYS_reboot'', ''SYS_swapon'',
     ''SYS_swapoff'', ''SYS_mount'', ''SYS_umount2'', ''SYS_pivot_root'', ''SYS_chroot'',
     ''SYS_setns'', ''SYS_unshare'', ''SYS_userfaultfd'', ''SYS_bpf'', ''SYS_perf_event_open'',
     ''SYS_acct'', ''SYS_vhangup'', ''SYS_personality'', ''SYS_open_tree'', ''SYS_move_mount'',
     ''SYS_mount_setattr'']"

definition BLOCKED_SYSCALLS_X86_ONLY :: "target \<Rightarrow> string list" where
  "BLOCKED_SYSCALLS_X86_ONLY t = (if target_arch t = X86_64 then
    [''SYS_iopl'', ''SYS_ioperm'', ''SYS_modify_ldt'']
   else [])"

definition LANDLOCK_CHILD_SYSCALLS :: "target \<Rightarrow> string list" where
  "LANDLOCK_CHILD_SYSCALLS t = (if landlock_feature t then [''SYS_landlock_restrict_self''] else [])"

section \<open>Facts of the lists\<close>

definition strict_names :: "target \<Rightarrow> string list" where
  "strict_names t = STRICT_SYSCALLS @ STRICT_SYSCALLS_X86_ONLY t @ LANDLOCK_CHILD_SYSCALLS t"

definition standard_names :: "target \<Rightarrow> string list" where
  "standard_names t = STANDARD_SYSCALLS @ STANDARD_SYSCALLS_X86_ONLY t @ LANDLOCK_CHILD_SYSCALLS t"

definition blocked_names :: "target \<Rightarrow> string list" where
  "blocked_names t = BLOCKED_SYSCALLS @ BLOCKED_SYSCALLS_X86_ONLY t"

definition permissive_names :: "target \<Rightarrow> string list" where
  "permissive_names t =
     STANDARD_SYSCALLS @ STANDARD_SYSCALLS_X86_ONLY t
     @ PERMISSIVE_EXTRA_SYSCALLS @ PERMISSIVE_EXTRA_SYSCALLS_X86_ONLY t"

lemmas preset_defs =
  strict_names_def standard_names_def blocked_names_def permissive_names_def
  STRICT_SYSCALLS_def STRICT_SYSCALLS_X86_ONLY_def STANDARD_SYSCALLS_def
  STANDARD_SYSCALLS_X86_ONLY_def PERMISSIVE_EXTRA_SYSCALLS_def
  PERMISSIVE_EXTRA_SYSCALLS_X86_ONLY_def BLOCKED_SYSCALLS_def BLOCKED_SYSCALLS_X86_ONLY_def
  LANDLOCK_CHILD_SYSCALLS_def

text \<open>Every name a preset mentions on some target, and the blocked ones among them.\<close>

definition x86_all :: target where
  "x86_all = \<lparr>target_arch = X86_64, landlock_feature = True, sysno = (\<lambda>_. 0)\<rparr>"

definition all_names :: "string list" where
  "all_names = strict_names x86_all @ permissive_names x86_all @ blocked_names x86_all"

lemma preset_lengths:
  "length (strict_names t) \<le> 255" "length (standard_names t) \<le> 255"
  "length (permissive_names t @ blocked_names t) \<le> 255"
  by (simp_all add: preset_defs)

lemma exit_in_presets:
  "''SYS_exit'' \<in> set (strict_names t)" "''SYS_exit_group'' \<in> set (strict_names t)"
  "''SYS_exit'' \<in> set (standard_names t)" "''SYS_exit_group'' \<in> set (standard_names t)"
  by (simp_all add: preset_defs)

lemma names_subset_all:
  "set (strict_names t) \<subseteq> set all_names" "set (standard_names t) \<subseteq> set all_names"
  "set (permissive_names t) \<subseteq> set all_names" "set (blocked_names t) \<subseteq> set all_names"
  by (auto simp: all_names_def x86_all_def strict_names_def standard_names_def
      permissive_names_def blocked_names_def STRICT_SYSCALLS_X86_ONLY_def
      STANDARD_SYSCALLS_X86_ONLY_def PERMISSIVE_EXTRA_SYSCALLS_X86_ONLY_def
      BLOCKED_SYSCALLS_X86_ONLY_def LANDLOCK_CHILD_SYSCALLS_def split: if_splits)

lemma blocked_disjoint_all:
  "list_all (\<lambda>s. s \<notin> set (strict_names x86_all) \<and> s \<notin> set (permissive_names x86_all))
     (blocked_names x86_all)"
  by (simp add: preset_defs x86_all_def)

lemma names_mono:
  "set (strict_names t) \<subseteq> set (strict_names x86_all)"
  "set (standard_names t) \<subseteq> set (strict_names x86_all) \<union> set (permissive_names x86_all)"
  "set (permissive_names t) \<subseteq> set (permissive_names x86_all)"
  "set (blocked_names t) \<subseteq> set (blocked_names x86_all)"
  by (auto simp: x86_all_def strict_names_def standard_names_def
      permissive_names_def blocked_names_def STRICT_SYSCALLS_X86_ONLY_def
      STANDARD_SYSCALLS_X86_ONLY_def PERMISSIVE_EXTRA_SYSCALLS_X86_ONLY_def
      BLOCKED_SYSCALLS_X86_ONLY_def LANDLOCK_CHILD_SYSCALLS_def split: if_splits)

lemma blocked_disjoint:
  assumes "s \<in> set (blocked_names t)"
  shows "s \<notin> set (strict_names t)" "s \<notin> set (standard_names t)" "s \<notin> set (permissive_names t)"
  using assms blocked_disjoint_all names_mono [of t] by (auto simp: list_all_iff)

end
