(* ===== verification/Seccomp_Builder.thy ===== *)
theory Seccomp_Builder
  imports Seccomp_Presets
begin

text \<open>
  \<open>SeccompFilterBuilder\<close> (\<open>src/seccomp/builder.rs\<close>): the presets as rule lists, the rule-adding
  methods, \<open>dedup_rules\<close> and \<open>build\<close>.
  The specification is \<open>policy\<close>, the last-inserted rule for a number or else the default; the
  refinement lemmas connect \<open>build\<close> to it.
\<close>

section \<open>Operations\<close>

record SeccompFilterBuilder =
  b_default_action :: SeccompAction
  b_rules :: "Rule list"

definition SeccompFilterBuilder_new :: "SeccompAction \<Rightarrow> SeccompFilterBuilder" where
  "SeccompFilterBuilder_new da = \<lparr>b_default_action = da, b_rules = []\<rparr>"

abbreviation rule_for :: "target \<Rightarrow> SeccompAction \<Rightarrow> string \<Rightarrow> Rule" where
  "rule_for t act s \<equiv> \<lparr>syscall_nr = as_i32 (sysno t s), action = to_bpf_ret act\<rparr>"

definition strict :: "target \<Rightarrow> SeccompFilterBuilder" where
  "strict t =
     \<lparr>b_default_action = KillProcess,
      b_rules = map (rule_for t Allow)
        (STRICT_SYSCALLS @ STRICT_SYSCALLS_X86_ONLY t @ LANDLOCK_CHILD_SYSCALLS t)\<rparr>"

definition standard :: "target \<Rightarrow> SeccompFilterBuilder" where
  "standard t =
     \<lparr>b_default_action = KillProcess,
      b_rules = map (rule_for t Allow)
        (STANDARD_SYSCALLS @ STANDARD_SYSCALLS_X86_ONLY t @ LANDLOCK_CHILD_SYSCALLS t)\<rparr>"

definition permissive :: "target \<Rightarrow> SeccompFilterBuilder" where
  "permissive t =
     (let rules = map (rule_for t Allow) (STANDARD_SYSCALLS @ STANDARD_SYSCALLS_X86_ONLY t);
          rules = foldl (\<lambda>rules s. rules @ [rule_for t Allow s]) rules
            (PERMISSIVE_EXTRA_SYSCALLS @ PERMISSIVE_EXTRA_SYSCALLS_X86_ONLY t);
          rules = foldl (\<lambda>rules s. rules @ [rule_for t KillProcess s]) rules
            (BLOCKED_SYSCALLS @ BLOCKED_SYSCALLS_X86_ONLY t)
      in \<lparr>b_default_action = Allow, b_rules = rules\<rparr>)"

definition set_default_action :: "SeccompAction \<Rightarrow> SeccompFilterBuilder \<Rightarrow> SeccompFilterBuilder" where
  "set_default_action act b = b\<lparr>b_default_action := act\<rparr>"

definition add_rule :: "i64 \<Rightarrow> SeccompAction \<Rightarrow> SeccompFilterBuilder \<Rightarrow> SeccompFilterBuilder" where
  "add_rule nr act b = b\<lparr>b_rules := b_rules b @ [\<lparr>syscall_nr = as_i32 nr, action = to_bpf_ret act\<rparr>]\<rparr>"

definition allow :: "i64 \<Rightarrow> SeccompFilterBuilder \<Rightarrow> SeccompFilterBuilder" where
  "allow nr b = add_rule nr Allow b"

definition deny :: "i64 \<Rightarrow> SeccompFilterBuilder \<Rightarrow> SeccompFilterBuilder" where
  "deny nr b = add_rule nr KillProcess b"

definition deny_with_errno :: "i64 \<Rightarrow> u16 \<Rightarrow> SeccompFilterBuilder \<Rightarrow> SeccompFilterBuilder" where
  "deny_with_errno nr errno b = add_rule nr (Errno errno) b"

definition log_rule :: "i64 \<Rightarrow> SeccompFilterBuilder \<Rightarrow> SeccompFilterBuilder" where
  "log_rule nr b = add_rule nr Log b"

definition allow_all :: "i64 list \<Rightarrow> SeccompFilterBuilder \<Rightarrow> SeccompFilterBuilder" where
  "allow_all nrs b = foldl (\<lambda>b nr. allow nr b) b nrs"

definition deny_all :: "i64 list \<Rightarrow> SeccompFilterBuilder \<Rightarrow> SeccompFilterBuilder" where
  "deny_all nrs b = foldl (\<lambda>b nr. deny nr b) b nrs"

definition remove_rules :: "i64 \<Rightarrow> SeccompFilterBuilder \<Rightarrow> SeccompFilterBuilder" where
  "remove_rules nr b = b\<lparr>b_rules := filter (\<lambda>r. syscall_nr r \<noteq> as_i32 nr) (b_rules b)\<rparr>"

text \<open>\<open>sort_by_key\<close> is stable and orders \<open>i32\<close> values as signed integers.\<close>

definition dedup_rules :: "Rule list \<Rightarrow> Rule list" where
  "dedup_rules rules =
     (let sorted = sort_key (\<lambda>r. sint (syscall_nr r)) rules;
          sorted = rev sorted;
          sorted = dedup_by (\<lambda>a b. syscall_nr a = syscall_nr b) sorted
      in rev sorted)"

definition exit_error :: SandboxError where
  "exit_error = SandboxError_new ErrorKind.Seccomp
     ''filter build failed: exit and exit_group must remain callable''"

definition build :: "target \<Rightarrow> SeccompFilterBuilder \<Rightarrow> SeccompFilter result" where
  "build t b =
     (let sorted = dedup_rules (b_rules b);
          exit_nr = as_i32 (sysno t ''SYS_exit'');
          exit_group_nr = as_i32 (sysno t ''SYS_exit_group'');
          allow_ret = to_bpf_ret Allow;
          log_ret = to_bpf_ret Log;
          exit_blocked = list_ex (\<lambda>r. syscall_nr r = exit_nr \<and> action r \<noteq> allow_ret \<and> action r \<noteq> log_ret) sorted;
          exit_group_blocked = list_ex (\<lambda>r. syscall_nr r = exit_group_nr \<and> action r \<noteq> allow_ret \<and> action r \<noteq> log_ret) sorted;
          default_allows = (case b_default_action b of Allow \<Rightarrow> True | Log \<Rightarrow> True | _ \<Rightarrow> False);
          exit_has_allow = list_ex (\<lambda>r. syscall_nr r = exit_nr \<and> (action r = allow_ret \<or> action r = log_ret)) sorted;
          exit_group_has_allow = list_ex (\<lambda>r. syscall_nr r = exit_group_nr \<and> (action r = allow_ret \<or> action r = log_ret)) sorted
      in if exit_blocked \<or> exit_group_blocked \<or> (\<not> default_allows \<and> \<not> exit_has_allow)
            \<or> (\<not> default_allows \<and> \<not> exit_group_has_allow)
         then Inl exit_error
         else
           let unique_count = length sorted
           in case compile_bpf (target_arch t) (b_default_action b) sorted of
                Inl e \<Rightarrow> Inl e
              | Inr program \<Rightarrow>
                  Inr \<lparr>f_default_action = b_default_action b, f_program = program,
                       f_rule_count = unique_count\<rparr>)"

section \<open>The specification: last rule wins\<close>

definition effective :: "Rule list \<Rightarrow> i32 \<Rightarrow> Rule option" where
  "effective rules nr = find (\<lambda>r. syscall_nr r = nr) (rev rules)"

definition policy :: "SeccompFilterBuilder \<Rightarrow> i32 \<Rightarrow> u32" where
  "policy b nr = (case effective (b_rules b) nr of
                    Some r \<Rightarrow> action r | None \<Rightarrow> to_bpf_ret (b_default_action b))"

definition callable_ret :: "u32 \<Rightarrow> bool" where
  "callable_ret v \<longleftrightarrow> v = to_bpf_ret Allow \<or> v = to_bpf_ret Log"

section \<open>Deduplication\<close>

lemma find_conv_filter: "find P xs = (case filter P xs of [] \<Rightarrow> None | x # _ \<Rightarrow> Some x)"
  by (induction xs) auto

lemma find_append: "find P (xs @ ys) = (case find P xs of None \<Rightarrow> find P ys | Some x \<Rightarrow> Some x)"
  by (induction xs) auto

lemma find_None_if_key_absent: "key \<notin> f ` set xs \<Longrightarrow> find (\<lambda>a. f a = key) xs = None"
  by (auto simp: find_None_iff)

lemma find_rev_distinct:
  "distinct (map f xs) \<Longrightarrow> find (\<lambda>a. f a = key) (rev xs) = find (\<lambda>a. f a = key) xs"
proof (induction xs)
  case (Cons x xs)
  then show ?case
    by (cases "f x = key") (auto simp: find_append find_None_if_key_absent split: option.splits)
qed simp

lemma list_ex_find_distinct:
  "distinct (map f xs) \<Longrightarrow>
   list_ex (\<lambda>a. f a = key \<and> Q a) xs \<longleftrightarrow> (\<exists>a. find (\<lambda>a. f a = key) xs = Some a \<and> Q a)"
proof (induction xs)
  case (Cons x xs)
  then show ?case
    by (cases "f x = key") (auto simp: list_ex_iff image_iff)
qed simp

lemma sint_eq_iff [simp]: "sint a = sint b \<longleftrightarrow> a = b"
  by (auto intro: signed_word_eqI)

lemma same_nr_eq: "(\<lambda>a b. syscall_nr a = syscall_nr b) = (\<lambda>a b. sint (syscall_nr a) = sint (syscall_nr b))"
  by (simp add: fun_eq_iff)

lemma sorted_rev_sort_key:
  "sorted_wrt (\<lambda>a b. f a \<ge> f b) (rev (sort_key f xs))"
  using sorted_sort_key [of f xs] by (simp add: sorted_wrt_rev sorted_map)

lemma dedup_rules_alt:
  "dedup_rules rules = rev (dedup_by (\<lambda>a b. sint (syscall_nr a) = sint (syscall_nr b))
     (rev (sort_key (\<lambda>r. sint (syscall_nr r)) rules)))"
  by (simp only: dedup_rules_def Let_def same_nr_eq)

lemma dedup_rules_sorted: "sorted_wrt (\<lambda>a b. sint (syscall_nr a) < sint (syscall_nr b)) (dedup_rules rules)"
  unfolding dedup_rules_alt sorted_wrt_rev
  by (rule dedup_by_strict [OF sorted_rev_sort_key])

lemma dedup_rules_distinct: "distinct (map syscall_nr (dedup_rules rules))"
proof -
  have "sorted_wrt (<) (map (\<lambda>r. sint (syscall_nr r)) (dedup_rules rules))"
    using dedup_rules_sorted by (simp add: sorted_wrt_map)
  then have "distinct (map sint (map syscall_nr (dedup_rules rules)))"
    by (simp add: comp_def strict_sorted_iff)
  then show ?thesis by (subst (asm) distinct_map) blast
qed

lemma find_dedup_rules: "find (\<lambda>r. syscall_nr r = nr) (dedup_rules rules) = effective rules nr"
proof -
  let ?k = "\<lambda>r. sint (syscall_nr r)"
  have key: "(\<lambda>r. syscall_nr r = nr) = (\<lambda>r. ?k r = sint nr)" by (simp add: fun_eq_iff)
  have "find (\<lambda>r. syscall_nr r = nr) (dedup_rules rules)
      = find (\<lambda>r. syscall_nr r = nr) (rev (dedup_rules rules))"
    using find_rev_distinct [OF dedup_rules_distinct] by simp
  also have "\<dots> = find (\<lambda>r. ?k r = sint nr) (rev (sort_key ?k rules))"
    unfolding key dedup_rules_alt rev_rev_ident by (rule find_dedup_by [OF sorted_rev_sort_key])
  also have "\<dots> = find (\<lambda>r. ?k r = sint nr) (rev rules)"
    unfolding find_conv_filter rev_filter [symmetric] sort_key_stable by (rule refl)
  finally show ?thesis by (simp only: effective_def key)
qed

lemma nrs_dedup_rules: "syscall_nr ` set (dedup_rules rules) = syscall_nr ` set rules"
proof -
  have "sint ` syscall_nr ` set (dedup_rules rules) = sint ` syscall_nr ` set rules"
    using key_dedup_by [of "\<lambda>r. sint (syscall_nr r)" "rev (sort_key (\<lambda>r. sint (syscall_nr r)) rules)"]
    by (simp add: dedup_rules_alt image_image)
  moreover have "inj (sint :: i32 \<Rightarrow> int)" by (rule injI) simp
  ultimately show ?thesis by (simp only: inj_image_eq_iff)
qed

lemma length_dedup_rules: "length (dedup_rules rules) = card (syscall_nr ` set rules)"
  using distinct_card [OF dedup_rules_distinct [of rules]] by (simp add: nrs_dedup_rules)

section \<open>What \<open>build\<close> returns\<close>

lemma callable_default: "callable_ret (to_bpf_ret a) \<longleftrightarrow> a = Allow \<or> a = Log"
  by (auto simp: callable_ret_def to_bpf_ret_inj simp del: to_bpf_ret.simps)

lemma callable_check:
  assumes "srt = dedup_rules (b_rules b)"
    and "dflt = (case b_default_action b of Allow \<Rightarrow> True | Log \<Rightarrow> True | _ \<Rightarrow> False)"
  shows "list_ex (\<lambda>r. syscall_nr r = nr \<and> action r \<noteq> to_bpf_ret Allow \<and> action r \<noteq> to_bpf_ret Log) srt
      \<or> (\<not> dflt \<and> \<not> list_ex (\<lambda>r. syscall_nr r = nr \<and> (action r = to_bpf_ret Allow \<or> action r = to_bpf_ret Log)) srt)
    \<longleftrightarrow> \<not> callable_ret (policy b nr)"
proof -
  have dflt: "dflt \<longleftrightarrow> callable_ret (to_bpf_ret (b_default_action b))"
    by (cases "b_default_action b") (simp_all add: assms(2) callable_default del: to_bpf_ret.simps)
  show ?thesis
    unfolding assms(1) list_ex_find_distinct [OF dedup_rules_distinct] find_dedup_rules dflt
    by (cases "effective (b_rules b) nr") (auto simp: policy_def callable_ret_def)
qed

lemma build_eq:
  "build t b =
     (if \<not> callable_ret (policy b (as_i32 (sysno t ''SYS_exit'')))
         \<or> \<not> callable_ret (policy b (as_i32 (sysno t ''SYS_exit_group'')))
      then Inl exit_error
      else if length (dedup_rules (b_rules b)) > 255
      then Inl (overflow_error (length (dedup_rules (b_rules b))) (length (dedup_rules (b_rules b))))
      else Inr \<lparr>f_default_action = b_default_action b,
                f_program = bpf_program (target_arch t) (b_default_action b) (dedup_rules (b_rules b)),
                f_rule_count = length (dedup_rules (b_rules b))\<rparr>)"
  unfolding build_def Let_def callable_check [OF refl refl, symmetric] compile_bpf_eq
  by (simp split: if_splits)

lemma build_InrD:
  assumes "build t b = Inr f"
  shows "f_program f = bpf_program (target_arch t) (b_default_action b) (dedup_rules (b_rules b))"
    "length (dedup_rules (b_rules b)) \<le> 255" "f_rule_count f = length (dedup_rules (b_rules b))"
    "f_default_action f = b_default_action b"
    "callable_ret (policy b (as_i32 (sysno t ''SYS_exit'')))"
    "callable_ret (policy b (as_i32 (sysno t ''SYS_exit_group'')))"
  using assms by (auto simp: build_eq split: if_splits)

context cbpf_machine
begin

text \<open>On any machine that runs classic BPF as documented, a built filter answers what the rule
  list says.\<close>

lemma built_filter_policy:
  assumes "build t b = Inr f"
  shows "exec (f_program f) d 0 a =
     Some (if sd_arch d = AUDIT_ARCH (target_arch t) then policy b (sd_nr d) else to_bpf_ret KillProcess)"
  using build_InrD [OF assms]
  by (simp add: exec_program find_dedup_rules policy_def del: to_bpf_ret.simps)

end

section \<open>The rule-adding methods on the policy\<close>

lemma policy_add_rule [simp]:
  "policy (add_rule nr act b) = (policy b) (as_i32 nr := to_bpf_ret act)"
  by (auto simp: policy_def add_rule_def effective_def fun_eq_iff split: option.split)

lemma effective_remove:
  "effective (filter (\<lambda>r. syscall_nr r \<noteq> x) rules) nr = (if nr = x then None else effective rules nr)"
proof -
  have "find (\<lambda>r. syscall_nr r = nr) (filter (\<lambda>r. syscall_nr r \<noteq> x) rs)
      = (if nr = x then None else find (\<lambda>r. syscall_nr r = nr) rs)" for rs
    by (induction rs) auto
  from this [of "rev rules"] show ?thesis by (simp only: effective_def rev_filter)
qed

lemma policy_remove [simp]:
  "policy (remove_rules nr b) = (policy b) (as_i32 nr := to_bpf_ret (b_default_action b))"
  by (auto simp: policy_def remove_rules_def effective_remove fun_eq_iff split: option.split)

lemma policy_fold_add:
  "policy (foldl (\<lambda>b nr. add_rule nr act b) b nrs) nr =
     (if nr \<in> as_i32 ` set nrs then to_bpf_ret act else policy b nr)"
  by (induction nrs arbitrary: b) auto

section \<open>The presets\<close>

lemma effective_append:
  "effective (xs @ ys) nr = (case effective ys nr of None \<Rightarrow> effective xs nr | Some r \<Rightarrow> Some r)"
  by (simp add: effective_def find_append split: option.split)

lemma effective_map_rule_for:
  "effective (map (rule_for t act) names) nr =
     (if nr \<in> (as_i32 \<circ> sysno t) ` set names then Some \<lparr>syscall_nr = nr, action = to_bpf_ret act\<rparr> else None)"
proof (induction names rule: rev_induct)
  case (snoc n names)
  then show ?case by (auto simp: effective_def)
qed (simp add: effective_def)

lemma strict_policy:
  "policy (strict t) nr =
     to_bpf_ret (if nr \<in> (as_i32 \<circ> sysno t) ` set (strict_names t) then Allow else KillProcess)"
  unfolding strict_def policy_def SeccompFilterBuilder.simps strict_names_def [symmetric]
    effective_map_rule_for by simp

lemma standard_policy:
  "policy (standard t) nr =
     to_bpf_ret (if nr \<in> (as_i32 \<circ> sysno t) ` set (standard_names t) then Allow else KillProcess)"
  unfolding standard_def policy_def SeccompFilterBuilder.simps standard_names_def [symmetric]
    effective_map_rule_for by simp

lemma permissive_rules:
  "b_rules (permissive t) = map (rule_for t Allow) (permissive_names t) @ map (rule_for t KillProcess) (blocked_names t)"
  by (simp add: permissive_def foldl_snoc_map permissive_names_def blocked_names_def Let_def
      del: to_bpf_ret.simps)

lemma permissive_policy:
  "policy (permissive t) nr =
     to_bpf_ret (if nr \<in> (as_i32 \<circ> sysno t) ` set (blocked_names t) then KillProcess else Allow)"
  unfolding policy_def permissive_rules effective_append effective_map_rule_for
  by (simp add: permissive_def Let_def)

lemma length_dedup_le: "length (dedup_rules rules) \<le> length rules"
  using length_dedup_by_le [of _ "rev (sort_key (\<lambda>r. sint (syscall_nr r)) rules)"]
  by (simp add: dedup_rules_alt)

lemma preset_builds:
  "is_ok (build t (strict t))" "is_ok (build t (standard t))"
proof -
  have "length (b_rules (strict t)) \<le> 255" "length (b_rules (standard t)) \<le> 255"
    using preset_lengths [of t]
    by (simp_all add: strict_def standard_def strict_names_def standard_names_def)
  then have "length (dedup_rules (b_rules (strict t))) \<le> 255"
    "length (dedup_rules (b_rules (standard t))) \<le> 255"
    using length_dedup_le le_trans by blast+
  then show "is_ok (build t (strict t))" "is_ok (build t (standard t))"
    using exit_in_presets [of t]
    by (simp_all add: build_eq strict_policy standard_policy callable_default del: to_bpf_ret.simps)
qed

text \<open>Distinct system calls have distinct numbers, also as \<open>i32\<close>.\<close>

definition sysno_distinct :: "target \<Rightarrow> bool" where
  "sysno_distinct t \<longleftrightarrow> inj_on (as_i32 \<circ> sysno t) (set all_names)"

lemma sysno_in_image:
  assumes "sysno_distinct t" "s \<in> set all_names" "set names \<subseteq> set all_names"
  shows "as_i32 (sysno t s) \<in> (as_i32 \<circ> sysno t) ` set names \<longleftrightarrow> s \<in> set names"
  using inj_on_image_mem_iff [of "as_i32 \<circ> sysno t" "set all_names" s "set names"] assms
  by (simp add: sysno_distinct_def)

lemma exit_in_all: "''SYS_exit'' \<in> set all_names" "''SYS_exit_group'' \<in> set all_names"
  using exit_in_presets [of x86_all] names_subset_all(1) [of x86_all] by blast+

lemma exit_not_blocked: "''SYS_exit'' \<notin> set (blocked_names t)" "''SYS_exit_group'' \<notin> set (blocked_names t)"
  using blocked_disjoint [of _ t] exit_in_presets [of t] by blast+

lemma permissive_builds:
  assumes "sysno_distinct t"
  shows "is_ok (build t (permissive t))"
proof -
  have "length (b_rules (permissive t)) \<le> 255"
    using preset_lengths(3) [of t] by (simp add: permissive_rules)
  then have "length (dedup_rules (b_rules (permissive t))) \<le> 255"
    using length_dedup_le le_trans by blast
  moreover have "callable_ret (policy (permissive t) (as_i32 (sysno t s)))"
    if "s \<in> set all_names" "s \<notin> set (blocked_names t)" for s
    using sysno_in_image [OF assms that(1) names_subset_all(4)] that(2)
    by (simp add: permissive_policy callable_default del: to_bpf_ret.simps)
  ultimately show ?thesis
    using exit_in_all exit_not_blocked by (simp add: build_eq)
qed

section \<open>Properties\<close>

text \<open>C1: A filter that \<open>build\<close> returns decides every system call as the rule list says: on the
  target's architecture the last rule added for the number wins and the default action applies
  without one, and a call from another architecture kills the process. This holds on every
  machine that runs the five instructions as the classic-BPF documentation says.\<close>

theorem build_implements_policy:
  assumes "cbpf_machine exec" and "build t b = Inr f"
  shows "exec (f_program f) d 0 a =
     Some (if sd_arch d = AUDIT_ARCH (target_arch t) then policy b (sd_nr d) else to_bpf_ret KillProcess)"
  using cbpf_machine.built_filter_policy [OF assms] .

definition demo_target :: target where
  "demo_target = \<lparr>target_arch = X86_64, landlock_feature = False,
     sysno = (\<lambda>s. if s = ''SYS_exit'' then 60 else 231)\<rparr>"

definition filter_demo :: SeccompFilterBuilder where
  "filter_demo = deny_with_errno 39 1 (log_rule 60 (allow_all [231, 39, 60] (SeccompFilterBuilder_new KillThread)))"

lemma filter_demo_verdict:
  "policy filter_demo nr =
     (if nr = 39 then to_bpf_ret (Errno 1) else if nr = 60 then to_bpf_ret Log
      else if nr = 231 then to_bpf_ret Allow else to_bpf_ret KillThread)"
  by (simp add: filter_demo_def deny_with_errno_def log_rule_def allow_all_def allow_def as_i32_def
      SeccompFilterBuilder_new_def policy_def [of "SeccompFilterBuilder.make _ _"] policy_def [of "\<lparr>b_default_action = KillThread, b_rules = []\<rparr>"]
      effective_def del: to_bpf_ret.simps)

lemma demo_build: "build demo_target filter_demo = Inr (projr (build demo_target filter_demo))"
proof -
  have "length (b_rules filter_demo) \<le> 255"
    by (simp add: filter_demo_def deny_with_errno_def log_rule_def allow_all_def allow_def add_rule_def
        SeccompFilterBuilder_new_def)
  then have "length (dedup_rules (b_rules filter_demo)) \<le> 255"
    using length_dedup_le le_trans by blast
  then show ?thesis
    by (simp add: build_eq filter_demo_verdict demo_target_def as_i32_def callable_default del: to_bpf_ret.simps)
qed

theorem build_implements_policy_witness:
  "cbpf_exec (f_program (projr (build demo_target filter_demo))) \<lparr>sd_nr = 39, sd_arch = 0xC000003E\<rparr> 0 0
     = Some 0x00050001"
  using build_implements_policy [OF linux.cbpf_machine_axioms demo_build,
      of "\<lparr>sd_nr = 39, sd_arch = 0xC000003E\<rparr>" 0]
  by (simp add: filter_demo_verdict demo_target_def SECCOMP_RET_ERRNO_def)

text \<open>C2: \<open>build\<close> succeeds exactly when the effective verdicts for \<open>exit\<close> and \<open>exit_group\<close> are Allow or
  Log and at most 255 different system calls have rules; otherwise it returns a seccomp error. The
  filter it returns reports that number of rules and the builder's default action.\<close>

theorem build_ok_iff:
  "case build t b of
     Inr f \<Rightarrow> callable_ret (policy b (as_i32 (sysno t ''SYS_exit'')))
       \<and> callable_ret (policy b (as_i32 (sysno t ''SYS_exit_group'')))
       \<and> card (syscall_nr ` set (b_rules b)) \<le> 255
       \<and> f_rule_count f = card (syscall_nr ` set (b_rules b)) \<and> f_default_action f = b_default_action b
   | Inl e \<Rightarrow> kind e = ErrorKind.Seccomp
       \<and> \<not> (callable_ret (policy b (as_i32 (sysno t ''SYS_exit'')))
             \<and> callable_ret (policy b (as_i32 (sysno t ''SYS_exit_group'')))
             \<and> card (syscall_nr ` set (b_rules b)) \<le> 255)"
  by (auto simp: build_eq length_dedup_rules exit_error_def simp del: to_bpf_ret.simps)

text \<open>C3: The program of a built filter has five instructions without rules and \<open>2 N + 6\<close> with \<open>N\<close>
  rules, fits the kernel's limit and the 16-bit length field, ends in a return, and every jump
  lands inside it.\<close>

theorem built_program_loadable:
  assumes "build t b = Inr f"
  shows "program_len f = (if b_rules b = [] then 5 else 2 * f_rule_count f + 6)
    \<and> program_len f \<le> BPF_MAXINSNS \<and> program_len f < 2 ^ 16
    \<and> jumps_in_bounds (f_program f) \<and> ends_in_ret (f_program f)"
proof -
  have "dedup_rules (b_rules b) = [] \<longleftrightarrow> b_rules b = []"
    using nrs_dedup_rules [of "b_rules b"] by auto
  then show ?thesis
    using build_InrD [OF assms]
    by (simp add: program_len_def length_bpf_program bpf_program_jumps bpf_program_ends_in_ret
        BPF_MAXINSNS_def)
qed

theorem built_program_loadable_witness:
  "jumps_in_bounds (f_program (projr (build demo_target filter_demo)))"
  using built_program_loadable [OF demo_build] by simp

text \<open>C5: \<open>dedup_rules\<close> returns the rules in strictly increasing order of signed system-call number, one
  for each number of the input, each of them the last input rule with its number.\<close>

theorem dedup_rules_last_wins:
  "sorted_wrt (\<lambda>a b. sint (syscall_nr a) < sint (syscall_nr b)) (dedup_rules rules)
   \<and> syscall_nr ` set (dedup_rules rules) = syscall_nr ` set rules
   \<and> find (\<lambda>r. syscall_nr r = nr) (dedup_rules rules) = effective rules nr"
  by (simp add: dedup_rules_sorted nrs_dedup_rules find_dedup_rules)

text \<open>C4: On every target whose system calls have different numbers, all three presets build, and
  each of them kills the process at every system call of the block list; Strict and Standard
  allow exactly the calls of their lists and kill at any other number.\<close>

theorem presets_block_dangerous:
  assumes "sysno_distinct t" and "s \<in> set (blocked_names t)" and "b \<in> {strict t, standard t, permissive t}"
  shows "is_ok (build t b) \<and> policy b (as_i32 (sysno t s)) = to_bpf_ret KillProcess
    \<and> policy (strict t) nr = to_bpf_ret (if nr \<in> (as_i32 \<circ> sysno t) ` set (strict_names t) then Allow else KillProcess)
    \<and> policy (standard t) nr = to_bpf_ret (if nr \<in> (as_i32 \<circ> sysno t) ` set (standard_names t) then Allow else KillProcess)"
proof -
  have s: "s \<in> set all_names" using assms(2) names_subset_all(4) by blast
  have "is_ok (build t b)" using assms(1,3) preset_builds permissive_builds by auto
  moreover have "policy b (as_i32 (sysno t s)) = to_bpf_ret KillProcess"
    using assms(2,3) blocked_disjoint [OF assms(2)] sysno_in_image [OF assms(1) s names_subset_all(1)]
      sysno_in_image [OF assms(1) s names_subset_all(2)] sysno_in_image [OF assms(1) s names_subset_all(4)]
    by (auto simp: strict_policy standard_policy permissive_policy simp del: to_bpf_ret.simps)
  ultimately show ?thesis
    by (simp add: strict_policy standard_policy del: to_bpf_ret.simps)
qed

text \<open>A numbering by position in the list of names.\<close>

fun position :: "string \<Rightarrow> string list \<Rightarrow> nat" where
  "position s [] = 0"
| "position s (x # xs) = (if s = x then 0 else Suc (position s xs))"

lemma position_lt: "s \<in> set xs \<Longrightarrow> position s xs < length xs \<and> xs ! position s xs = s"
  by (induction xs) auto

definition x86_numbered :: target where
  "x86_numbered = \<lparr>target_arch = X86_64, landlock_feature = True, sysno = (\<lambda>s. of_nat (position s all_names))\<rparr>"

lemma x86_numbered_distinct: "sysno_distinct x86_numbered"
proof -
  have len: "length all_names < 2 ^ 32"
    by (simp add: all_names_def preset_defs x86_all_def)
  have val: "unat (as_i32 (sysno x86_numbered s)) = position s all_names" if "s \<in> set all_names" for s
    using position_lt [OF that] len
    by (simp add: x86_numbered_def as_i32_def unsigned_ucast_eq unat_of_nat take_bit_eq_mod)
  show ?thesis unfolding sysno_distinct_def
    by (rule inj_onI) (metis comp_apply position_lt val)
qed

theorem presets_block_dangerous_witness:
  "policy (standard x86_numbered) (as_i32 (sysno x86_numbered ''SYS_ptrace'')) = to_bpf_ret KillProcess"
proof -
  have "''SYS_ptrace'' \<in> set (blocked_names x86_numbered)"
    by (simp add: blocked_names_def BLOCKED_SYSCALLS_def)
  then show ?thesis
    using presets_block_dangerous [OF x86_numbered_distinct, of "''SYS_ptrace''" "standard x86_numbered"]
    by blast
qed

text \<open>C6: Each rule-adding method changes the verdict of its own system call and of no other:
  \<open>allow\<close>, \<open>deny\<close>, \<open>deny_with_errno\<close> and \<open>log\<close> set it, \<open>remove\<close> returns it to the default, and the
  two batch methods set it for every number of the batch.\<close>

theorem builder_methods_policy:
  "policy (allow x b) = (policy b) (as_i32 x := to_bpf_ret Allow)
   \<and> policy (deny x b) = (policy b) (as_i32 x := to_bpf_ret KillProcess)
   \<and> policy (deny_with_errno x e b) = (policy b) (as_i32 x := to_bpf_ret (Errno e))
   \<and> policy (log_rule x b) = (policy b) (as_i32 x := to_bpf_ret Log)
   \<and> policy (remove_rules x b) = (policy b) (as_i32 x := to_bpf_ret (b_default_action b))
   \<and> policy (allow_all xs b) nr = (if nr \<in> as_i32 ` set xs then to_bpf_ret Allow else policy b nr)
   \<and> policy (deny_all xs b) nr = (if nr \<in> as_i32 ` set xs then to_bpf_ret KillProcess else policy b nr)"
  by (simp add: allow_def deny_def deny_with_errno_def log_rule_def allow_all_def deny_all_def
      policy_fold_add del: to_bpf_ret.simps)

end
