(* ===== verification/Child_Setup.thy ===== *)
theory Child_Setup
  imports Mount_Ops Fd Seccomp_Builder
begin

text \<open>
  The child side of a spawn (\<open>src/process/child_setup.rs\<close>) with the installation of the seccomp filter
  (\<open>src/seccomp/filter.rs\<close>, \<open>src/seccomp/bpf.rs\<close>). The caller's hook is a parameter of the payload.
  The theorems: the target program is executed only after every setup step went through in its
  order, a failing step is reported with its stage and stops the child, and nothing but closing
  descriptors and \<open>setpgid\<close> happens before the parent's ready byte.
\<close>

section \<open>Resource limits\<close>

record PreparedRlimits =
  nofile :: "u64 option"
  fsize :: "u64 option"
  cpu_secs :: "u64 option"

definition prepare_rlimits :: "ResourceConfig \<Rightarrow> PreparedRlimits" where
  "prepare_rlimits cfg =
     \<lparr>nofile = map_option ucast (max_open_files cfg),
      fsize = max_file_size cfg,
      cpu_secs = (case map_option as_secs (cpu_time_limit cfg) of
                    Some s \<Rightarrow> if s > 0 then Some s else None
                  | None \<Rightarrow> None)\<rparr>"

definition RLIMIT_CPU :: nat where "RLIMIT_CPU = 0"
definition RLIMIT_FSIZE :: nat where "RLIMIT_FSIZE = 1"
definition RLIMIT_NOFILE :: nat where "RLIMIT_NOFILE = 7"

definition setrlimit :: "kernel \<Rightarrow> nat \<Rightarrow> u64 \<Rightarrow> unit prog" where
  "setrlimit k res v = raw_call k (Setrlimit res v) \<bind> (\<lambda>_. State_Monad.return ())"

definition install_rlimits :: "kernel \<Rightarrow> PreparedRlimits \<Rightarrow> unit prog" where
  "install_rlimits k p = do {
     (case nofile p of None \<Rightarrow> State_Monad.return () | Some v \<Rightarrow> setrlimit k RLIMIT_NOFILE v);
     (case fsize p of None \<Rightarrow> State_Monad.return () | Some v \<Rightarrow> setrlimit k RLIMIT_FSIZE v);
     case cpu_secs p of None \<Rightarrow> State_Monad.return () | Some v \<Rightarrow> setrlimit k RLIMIT_CPU v
   }"

section \<open>Seccomp\<close>

definition prepare_seccomp :: "target \<Rightarrow> SeccompProfile \<Rightarrow> SeccompFilter option result" where
  "prepare_seccomp t profile =
     (case profile of
        Disabled \<Rightarrow> Inr None
      | StrictProfile \<Rightarrow> map_sum id Some (build t (strict t))
      | Standard \<Rightarrow> map_sum id Some (build t (standard t))
      | Permissive \<Rightarrow> map_sum id Some (build t (permissive t))
      | CustomFilter f \<Rightarrow> Inr (Some f))"

definition set_no_new_privs :: "kernel \<Rightarrow> unit result prog" where
  "set_no_new_privs k = do {
     ret \<leftarrow> raw_call k PrSetNoNewPrivs;
     State_Monad.return (if ret \<noteq> 0
       then Inl (SandboxError_new ErrorKind.Seccomp ''failed to load security filter: Failed to set PR_SET_NO_NEW_PRIVS'')
       else Inr ())
   }"

text \<open>The length of the program is passed as a \<open>u16\<close>: the kernel sees that many instructions.\<close>

definition fprog :: "sock_filter list \<Rightarrow> sock_filter list" where
  "fprog program = take (unat (of_nat (length program) :: u16)) program"

definition load_filter :: "kernel \<Rightarrow> sock_filter list \<Rightarrow> unit result prog" where
  "load_filter k program = do {
     ret \<leftarrow> raw_call k (SeccompSetModeFilter (fprog program));
     if ret = 0 then State_Monad.return (Inr ())
     else if - ret = ENOSYS then do {
       ret \<leftarrow> raw_call k (PrSetSeccomp (fprog program));
       State_Monad.return (if ret \<noteq> 0
         then Inl (SandboxError_new ErrorKind.Seccomp
                (''failed to load security filter: prctl(PR_SET_SECCOMP) failed: errno '' @ show_int (- ret)))
         else Inr ())
     }
     else State_Monad.return (Inl (SandboxError_new ErrorKind.Seccomp
            (''failed to load security filter: seccomp(SECCOMP_SET_MODE_FILTER) failed: errno '' @ show_int (- ret))))
   }"

definition install :: "kernel \<Rightarrow> SeccompFilter \<Rightarrow> unit result prog" where
  "install k f = and_then (set_no_new_privs k) (load_filter k (f_program f))"

definition install_seccomp :: "kernel \<Rightarrow> SeccompFilter \<Rightarrow> unit result prog" where
  "install_seccomp k f = install k f"

section \<open>The payload\<close>

record ChildCtx =
  ctx_uid :: u32
  ctx_gid :: u32
  has_user_ns :: bool
  has_mount_ns :: bool
  has_pid_ns :: bool
  has_net_ns :: bool

type_synonym ChildSetup = "ChildCtx \<Rightarrow> unit result prog"

record ChildPayload =
  ready_read_fd :: int
  error_write_fd :: int
  parent_ready_write_fd :: int
  parent_error_read_fd :: int
  stdin_close_in_child :: "int option"
  stdout_close_in_child :: "int option"
  stderr_close_in_child :: "int option"
  stdio_fds :: "int option \<times> int option \<times> int option"
  p_hostname :: "string option"
  p_filesystem :: FilesystemConfig
  p_working_dir :: string
  p_rlimits :: PreparedRlimits
  p_seccomp :: "SeccompFilter option"
  p_child_hook :: "ChildSetup option"
  p_ctx :: ChildCtx
  p_argv :: "string list"
  p_envp :: "string list"

section \<open>The sequence\<close>

definition PIPE_BUF :: nat where "PIPE_BUF = 4096"

definition child_frame :: "ChildStage \<Rightarrow> string \<Rightarrow> u8 list" where
  "child_frame stage msg = stage_tag stage # take (PIPE_BUF - 1) (as_bytes msg)"

text \<open>How the child ends: it exits with a code, or \<open>execvpe\<close> replaced it.\<close>

datatype child_end = ChildExit int | ChildExec

definition child_abort :: "nat \<Rightarrow> kernel \<Rightarrow> int \<Rightarrow> ChildStage \<Rightarrow> string \<Rightarrow> child_end option prog" where
  "child_abort n k error_write stage msg =
     obind (write_all_raw n k error_write (child_frame stage msg)) (\<lambda>_.
       lift_prog (close_raw k error_write \<bind> (\<lambda>_. State_Monad.return (ChildExit 1))))"

type_synonym step_error = "ChildStage \<times> string"

text \<open>A step whose error is reported at a stage.\<close>

definition at_stage :: "ChildStage \<Rightarrow> ('e \<Rightarrow> string) \<Rightarrow> ('e + unit) prog \<Rightarrow> (step_error + unit) prog" where
  "at_stage stage msg m = m \<bind> (\<lambda>r. State_Monad.return (map_sum (\<lambda>e. (stage, msg e)) id r))"

definition dup2_step :: "kernel \<Rightarrow> int option \<times> int \<Rightarrow> (step_error + unit) prog" where
  "dup2_step k st = (case st of (slot, tgt) \<Rightarrow>
     (case slot of
        None \<Rightarrow> proceed
      | Some fd \<Rightarrow> do {
          r \<leftarrow> raw_call k (Dup2 fd tgt);
          if r < 0 then State_Monad.return (Inl (ChildStage.Dup2, ''dup2 stdio failed''))
          else close_raw k fd \<bind> (\<lambda>_. State_Monad.return (Inr ()))
        }))"

definition stdio_steps :: "ChildPayload \<Rightarrow> (int option \<times> int) list" where
  "stdio_steps pl = (case stdio_fds pl of (i, out, err) \<Rightarrow> [(i, 0), (out, 1), (err, 2)])"

definition hostname_step :: "kernel \<Rightarrow> ChildPayload \<Rightarrow> (step_error + unit) prog" where
  "hostname_step k pl =
     (case p_hostname pl of
        None \<Rightarrow> proceed
      | Some h \<Rightarrow> raw_call k (Sethostname h) \<bind> (\<lambda>r. State_Monad.return
          (if r < 0 then Inl (ChildStage.Sethostname, ''set hostname: '' @ k_nix_errno k (- r)) else Inr ())))"

definition mount_step :: "kernel \<Rightarrow> ChildPayload \<Rightarrow> (step_error + unit) prog" where
  "mount_step k pl =
     (let fs = p_filesystem pl
      in case rootfs fs of
           Some root \<Rightarrow> at_stage ChildStage.Mount (\<lambda>e. ''mount namespace: '' @ SandboxError_fmt e)
             (setup_mount_namespace k root (mounts fs) (tmpfs_mounts fs) (procfs fs) (rootfs_mode fs))
         | None \<Rightarrow> at_stage ChildStage.Mount (\<lambda>e. ''mount setup: '' @ SandboxError_fmt e)
             (setup_bind_mounts k (mounts fs) (tmpfs_mounts fs) (procfs fs)))"

definition chdir_step :: "kernel \<Rightarrow> ChildPayload \<Rightarrow> (step_error + unit) prog" where
  "chdir_step k pl =
     path_exists k (p_working_dir pl) \<bind> (\<lambda>ex.
       if ex then raw_call k (ChdirTo (p_working_dir pl)) \<bind> (\<lambda>r. State_Monad.return
         (if r < 0 then Inl (ChildStage.Chdir, ''chdir: '' @ k_strerror k (- r)) else Inr ()))
       else proceed)"

definition rlimits_step :: "kernel \<Rightarrow> ChildPayload \<Rightarrow> (step_error + unit) prog" where
  "rlimits_step k pl = install_rlimits k (p_rlimits pl) \<bind> (\<lambda>_. proceed)"

definition seccomp_step :: "kernel \<Rightarrow> ChildPayload \<Rightarrow> (step_error + unit) prog" where
  "seccomp_step k pl =
     (case p_seccomp pl of
        None \<Rightarrow> proceed
      | Some f \<Rightarrow> at_stage ChildStage.Seccomp (\<lambda>e. ''seccomp: '' @ SandboxError_fmt e) (install_seccomp k f))"

definition hook_step :: "ChildPayload \<Rightarrow> (step_error + unit) prog" where
  "hook_step pl =
     (case p_child_hook pl of
        None \<Rightarrow> proceed
      | Some hook \<Rightarrow> at_stage ChildStage.Hook SandboxError_fmt (hook (p_ctx pl)))"

text \<open>The built-in steps between the ready byte and the hook, in the order of the source.\<close>

definition builtin_steps :: "kernel \<Rightarrow> ChildPayload \<Rightarrow> (step_error + unit) prog" where
  "builtin_steps k pl =
     and_then (try_each (dup2_step k) (stdio_steps pl))
    (and_then (hostname_step k pl)
    (and_then (mount_step k pl)
    (and_then (chdir_step k pl)
    (and_then (rlimits_step k pl)
       (seccomp_step k pl)))))"

definition close_opt :: "kernel \<Rightarrow> int option \<Rightarrow> unit prog" where
  "close_opt k fd = (case fd of None \<Rightarrow> State_Monad.return () | Some fd \<Rightarrow> close_raw k fd \<bind> (\<lambda>_. State_Monad.return ()))"

definition close_inherited :: "kernel \<Rightarrow> ChildPayload \<Rightarrow> unit prog" where
  "close_inherited k pl = do {
     _ \<leftarrow> close_raw k (parent_ready_write_fd pl);
     _ \<leftarrow> close_raw k (parent_error_read_fd pl);
     close_opt k (stdin_close_in_child pl);
     close_opt k (stdout_close_in_child pl);
     close_opt k (stderr_close_in_child pl)
   }"

definition exec_sandboxed :: "nat \<Rightarrow> kernel \<Rightarrow> ChildPayload \<Rightarrow> child_end option prog" where
  "exec_sandboxed n k pl = do {
     close_inherited k pl;
     _ \<leftarrow> raw_call k Setpgid;
     r \<leftarrow> read_raw k (ready_read_fd pl) 1;
     if r \<noteq> Inr [0] then close_raw k (ready_read_fd pl) \<bind> (\<lambda>_. State_Monad.return (Some (ChildExit 1)))
     else do {
       _ \<leftarrow> close_raw k (ready_read_fd pl);
       outc \<leftarrow> and_then (builtin_steps k pl) (hook_step pl);
       case outc of
         Inl (stage, msg) \<Rightarrow> child_abort n k (error_write_fd pl) stage msg
       | Inr _ \<Rightarrow> do {
           _ \<leftarrow> close_raw k (error_write_fd pl);
           r \<leftarrow> raw_call k (Execvpe (p_argv pl) (p_envp pl));
           State_Monad.return (Some (if r < 0 then ChildExit 127 else ChildExec))
         }
     }
   }"

section \<open>The plan of the child\<close>

definition dup2_plan :: "int option \<times> int \<Rightarrow> rawcall list" where
  "dup2_plan st = (case st of (None, _) \<Rightarrow> [] | (Some fd, tgt) \<Rightarrow> [Dup2 fd tgt])"

definition fs_plan :: "FilesystemConfig \<Rightarrow> bool list \<Rightarrow> rawcall list" where
  "fs_plan fs ds =
     (case rootfs fs of
        Some root \<Rightarrow> namespace_plan root (mounts fs) ds (tmpfs_mounts fs) (procfs fs) (rootfs_mode fs)
      | None \<Rightarrow> bind_mounts_plan (mounts fs) ds (tmpfs_mounts fs) (procfs fs))"

definition fs_ignored :: "FilesystemConfig \<Rightarrow> rawcall set" where
  "fs_ignored fs =
     (case rootfs fs of
        Some root \<Rightarrow> ignored (path_join root ''proc'') (rootfs_mode fs)
      | None \<Rightarrow> {Umount2 ''/proc'' MNT_DETACH})"

definition rlimits_plan :: "PreparedRlimits \<Rightarrow> rawcall list" where
  "rlimits_plan p =
     (case nofile p of None \<Rightarrow> [] | Some v \<Rightarrow> [Setrlimit RLIMIT_NOFILE v])
     @ (case fsize p of None \<Rightarrow> [] | Some v \<Rightarrow> [Setrlimit RLIMIT_FSIZE v])
     @ (case cpu_secs p of None \<Rightarrow> [] | Some v \<Rightarrow> [Setrlimit RLIMIT_CPU v])"

definition seccomp_plan :: "SeccompFilter option \<Rightarrow> bool \<Rightarrow> rawcall list" where
  "seccomp_plan f fallback =
     (case f of
        None \<Rightarrow> []
      | Some f \<Rightarrow> PrSetNoNewPrivs # SeccompSetModeFilter (fprog (f_program f))
                  # (if fallback then [PrSetSeccomp (fprog (f_program f))] else []))"

text \<open>What the kernel decides: which mount sources are directories, whether the working directory
  exists, and whether \<open>seccomp(2)\<close> is missing.\<close>

definition child_plan :: "ChildPayload \<Rightarrow> bool list \<Rightarrow> bool \<Rightarrow> bool \<Rightarrow> rawcall list" where
  "child_plan pl ds wd fallback =
     concat (map dup2_plan (stdio_steps pl))
     @ (case p_hostname pl of None \<Rightarrow> [] | Some h \<Rightarrow> [Sethostname h])
     @ fs_plan (p_filesystem pl) ds
     @ (if wd then [ChdirTo (p_working_dir pl)] else [])
     @ rlimits_plan (p_rlimits pl)
     @ seccomp_plan (p_seccomp pl) fallback"

definition child_plans :: "ChildPayload \<Rightarrow> rawcall list set" where
  "child_plans pl = {child_plan pl ds wd fallback | ds wd fallback. length ds = length (mounts (p_filesystem pl))}"

definition child_ignored :: "ChildPayload \<Rightarrow> rawcall set" where
  "child_ignored pl = fs_ignored (p_filesystem pl) \<union> {c. \<exists>res v. c = Setrlimit res v}
     \<union> (case p_seccomp pl of None \<Rightarrow> {} | Some f \<Rightarrow> {SeccompSetModeFilter (fprog (f_program f))})"

lemma follows_at_stage: "follows I L m \<Longrightarrow> follows I L (at_stage stage msg m)"
  unfolding at_stage_def by (rule follows_map_result) (simp_all add: isl_map_sum)

lemma follows_dup2: "follows I {dup2_plan st} (dup2_step k st)"
proof (cases st)
  case (Pair slot tgt)
  show ?thesis
  proof (cases slot)
    case (Some fd)
    show ?thesis
    proof (rule followsI)
      fix w r w'
      assume "run_state (dup2_step k st) w = (r, w')"
      then show "\<exists>es. trace w' = trace w @ es \<and> outcome I {dup2_plan st} r es"
        by (auto simp: dup2_step_def dup2_plan_def Pair Some close_raw_def raw_call_def run_simps split: if_splits)
    qed simp
  qed (simp add: dup2_step_def dup2_plan_def Pair follows_ok)
qed

lemma follows_hostname:
  "follows I {case p_hostname pl of None \<Rightarrow> [] | Some h \<Rightarrow> [Sethostname h]} (hostname_step k pl)"
proof (cases "p_hostname pl")
  case (Some h)
  have "follows I {[Sethostname h]} (hostname_step k pl)"
    unfolding hostname_step_def Some option.case by (rule follows_call) (simp_all split: if_splits)
  then show ?thesis by (simp add: Some)
qed (simp add: hostname_step_def follows_ok)

lemma follows_mounts:
  "follows (fs_ignored (p_filesystem pl)) {fs_plan (p_filesystem pl) ds | ds. length ds = length (mounts (p_filesystem pl))}
     (mount_step k pl)"
  by (cases "rootfs (p_filesystem pl)")
     (simp_all add: mount_step_def Let_def fs_plan_def fs_ignored_def
       follows_at_stage setup_bind_mounts_follows setup_mount_namespace_follows)

lemma follows_chdir:
  "follows I {if wd then [ChdirTo (p_working_dir pl)] else [] | wd. True} (chdir_step k pl)"
proof -
  have enter: "follows I {[ChdirTo (p_working_dir pl)]} (raw_call k (ChdirTo (p_working_dir pl)) \<bind> (\<lambda>r. State_Monad.return
         (if r < 0 then Inl (ChildStage.Chdir, ''chdir: '' @ k_strerror k (- r)) else Inr ())))"
    by (rule follows_call) (simp_all split: if_splits)
  have "follows I (\<Union>ex. {if ex then [ChdirTo (p_working_dir pl)] else []}) (chdir_step k pl)"
    unfolding chdir_step_def path_exists_def
    by (rule follows_query) (simp_all add: enter follows_ok)
  moreover have "(\<Union>ex. {if ex then [ChdirTo (p_working_dir pl)] else []})
      = {if wd then [ChdirTo (p_working_dir pl)] else [] | wd. True}"
    by (simp only: UNION_singleton_eq_range full_SetCompr_eq simp_thms)
  ultimately show ?thesis by simp
qed

lemma follows_ignored_step:
  "c \<in> I \<Longrightarrow> \<not> bookkeeping c \<Longrightarrow> follows I {cs} m \<Longrightarrow> follows I {c # cs} (raw_call k c \<bind> (\<lambda>_. m))"
  using follows_ignored [of c I "{cs}" m k] by simp

lemma follows_rlimits:
  assumes "\<And>res v. Setrlimit res v \<in> I"
  shows "follows I {rlimits_plan (p_rlimits pl)} (rlimits_step k pl)"
  unfolding rlimits_step_def install_rlimits_def rlimits_plan_def setrlimit_def
  by (cases "nofile (p_rlimits pl)"; cases "fsize (p_rlimits pl)"; cases "cpu_secs (p_rlimits pl)")
     (simp_all add: follows_ignored_step follows_ok assms)

lemma follows_load_filter:
  assumes "SeccompSetModeFilter (fprog p) \<in> I"
  shows "follows I {SeccompSetModeFilter (fprog p) # (if b then [PrSetSeccomp (fprog p)] else []) | b. True} (load_filter k p)"
    (is "follows I ?L _")
proof (rule followsI)
  have L: "[SeccompSetModeFilter (fprog p)] \<in> ?L" "[SeccompSetModeFilter (fprog p), PrSetSeccomp (fprog p)] \<in> ?L"
    by auto
  then show "?L \<noteq> {}" by blast
  fix w r w'
  assume "run_state (load_filter k p) w = (r, w')"
  then consider x where "trace w' = trace w @ [Raw (SeccompSetModeFilter (fprog p)) x]"
    | x y where "trace w' = trace w @ [Raw (SeccompSetModeFilter (fprog p)) x, Raw (PrSetSeccomp (fprog p)) y]"
        "is_ok r \<longrightarrow> y = 0"
    by (auto simp: load_filter_def raw_call_def run_simps split: if_splits)
  then show "\<exists>es. trace w' = trace w @ es \<and> outcome I ?L r es"
  proof cases
    case 1
    moreover have "outcome I ?L r [Raw (SeccompSetModeFilter (fprog p)) x]" for x
      using L(1) assms by (cases r) (auto intro: exI [of _ "[]"])
    ultimately show ?thesis by blast
  next
    case 2
    moreover have "outcome I ?L r [Raw (SeccompSetModeFilter (fprog p)) x, Raw (PrSetSeccomp (fprog p)) y]"
      if "is_ok r \<longrightarrow> y = 0" for x y
      using L(2) assms that by (cases r) (auto intro: exI [of _ "[]"])
    ultimately show ?thesis by blast
  qed
qed

lemma follows_seccomp:
  assumes "case p_seccomp pl of None \<Rightarrow> True | Some f \<Rightarrow> SeccompSetModeFilter (fprog (f_program f)) \<in> I"
  shows "follows I {seccomp_plan (p_seccomp pl) b | b. True} (seccomp_step k pl)"
proof (cases "p_seccomp pl")
  case (Some f)
  have nnp: "follows I {[PrSetNoNewPrivs]} (set_no_new_privs k)"
    unfolding set_no_new_privs_def by (rule follows_call) (simp_all split: if_splits)
  have "follows I (seq {[PrSetNoNewPrivs]}
      {SeccompSetModeFilter (fprog (f_program f)) # (if b then [PrSetSeccomp (fprog (f_program f))] else []) | b. True}) (install k f)"
    unfolding install_def using assms Some by (intro follows_and_then nnp follows_load_filter) simp
  then have "follows I {[PrSetNoNewPrivs] @ SeccompSetModeFilter (fprog (f_program f))
      # (if b then [PrSetSeccomp (fprog (f_program f))] else []) | b. True} (install k f)"
    by (simp only: seq_choice)
  then show ?thesis
    by (simp add: Some seccomp_step_def seccomp_plan_def install_seccomp_def follows_at_stage)
qed (simp add: seccomp_step_def seccomp_plan_def follows_ok)

lemma builtin_steps_follow:
  "follows (child_ignored pl)
     (child_plans pl)
     (builtin_steps k pl)"
proof (rule follows_weaken [OF _ subset_refl])
  let ?I = "child_ignored pl"
  have dups: "follows ?I {concat (map dup2_plan (stdio_steps pl))} (try_each (dup2_step k) (stdio_steps pl))"
    unfolding each_singleton [symmetric] by (rule follows_each) (rule follows_dup2)
  have mounts: "follows ?I {fs_plan (p_filesystem pl) ds | ds. length ds = length (mounts (p_filesystem pl))} (mount_step k pl)"
    by (rule follows_weaken [OF follows_mounts]) (auto simp: child_ignored_def)
  have rlims: "follows ?I {rlimits_plan (p_rlimits pl)} (rlimits_step k pl)"
    by (rule follows_rlimits) (auto simp: child_ignored_def)
  have filt: "follows ?I {seccomp_plan (p_seccomp pl) b | b. True} (seccomp_step k pl)"
    by (rule follows_seccomp) (auto simp: child_ignored_def split: option.split)
  show "follows ?I (seq {concat (map dup2_plan (stdio_steps pl))}
      (seq {case p_hostname pl of None \<Rightarrow> [] | Some h \<Rightarrow> [Sethostname h]}
      (seq {fs_plan (p_filesystem pl) ds | ds. length ds = length (mounts (p_filesystem pl))}
      (seq {if wd then [ChdirTo (p_working_dir pl)] else [] | wd. True}
      (seq {rlimits_plan (p_rlimits pl)} {seccomp_plan (p_seccomp pl) b | b. True}))))) (builtin_steps k pl)"
    unfolding builtin_steps_def
    by (intro follows_and_then dups follows_hostname mounts follows_chdir rlims filt)
qed (unfold seq_def child_plans_def child_plan_def, blast)

text \<open>A load that went through: \<open>seccomp(2)\<close> accepted the program, or it is not implemented and
  \<open>prctl\<close> did.\<close>

definition filter_loaded :: "SeccompFilter \<Rightarrow> event list \<Rightarrow> bool" where
  "filter_loaded f es \<longleftrightarrow>
     (let p = fprog (f_program f)
      in Raw (SeccompSetModeFilter p) 0 \<in> set es
         \<or> (Raw (SeccompSetModeFilter p) (- ENOSYS) \<in> set es \<and> Raw (PrSetSeccomp p) 0 \<in> set es))"

lemma filter_loaded_mono: "filter_loaded f es \<Longrightarrow> set es \<subseteq> set fs \<Longrightarrow> filter_loaded f fs"
  by (auto simp: filter_loaded_def Let_def)

lemma run_and_then_Inr:
  "run_state (and_then m n) w = (Inr x, w') \<longleftrightarrow>
     (\<exists>v. run_state m w = (Inr (), v) \<and> run_state n v = (Inr x, w'))"
  by (auto simp: and_then_def run_simps)

lemma seccomp_step_loads:
  assumes "run_state (seccomp_step k pl) w = (Inr (), w')" "p_seccomp pl = Some f"
  shows "\<exists>es. trace w' = trace w @ es \<and> filter_loaded f es"
  using assms
  by (auto simp: seccomp_step_def at_stage_def install_seccomp_def install_def and_then_def set_no_new_privs_def
      load_filter_def raw_call_def run_simps filter_loaded_def Let_def split: if_splits)

lemma follows_then:
  assumes "follows I L m" "run_state (and_then m n) w = (Inr x, w')"
  obtains v es where "trace v = trace w @ es" "run_state n v = (Inr x, w')"
  using assms follows_run [OF assms(1)] by (metis run_and_then_Inr)

lemma builtin_steps_load:
  assumes run: "run_state (builtin_steps k pl) w = (Inr (), w')" and f: "p_seccomp pl = Some f"
  shows "\<exists>es. trace w' = trace w @ es \<and> filter_loaded f es"
proof -
  obtain v1 e1 where 1: "trace v1 = trace w @ e1"
      "run_state (and_then (hostname_step k pl) (and_then (mount_step k pl) (and_then (chdir_step k pl)
        (and_then (rlimits_step k pl) (seccomp_step k pl))))) v1 = (Inr (), w')"
    using run unfolding builtin_steps_def by (rule follows_then [OF follows_each [OF follows_dup2]])
  obtain v2 e2 where 2: "trace v2 = trace v1 @ e2"
      "run_state (and_then (mount_step k pl) (and_then (chdir_step k pl)
        (and_then (rlimits_step k pl) (seccomp_step k pl)))) v2 = (Inr (), w')"
    using 1(2) by (rule follows_then [OF follows_hostname])
  obtain v3 e3 where 3: "trace v3 = trace v2 @ e3"
      "run_state (and_then (chdir_step k pl) (and_then (rlimits_step k pl) (seccomp_step k pl))) v3 = (Inr (), w')"
    using 2(2) by (rule follows_then [OF follows_mounts])
  obtain v4 e4 where 4: "trace v4 = trace v3 @ e4"
      "run_state (and_then (rlimits_step k pl) (seccomp_step k pl)) v4 = (Inr (), w')"
    using 3(2) by (rule follows_then [OF follows_chdir])
  have "follows UNIV {rlimits_plan (p_rlimits pl)} (rlimits_step k pl)" by (rule follows_rlimits) simp
  then obtain v5 e5 where 5: "trace v5 = trace v4 @ e5" "run_state (seccomp_step k pl) v5 = (Inr (), w')"
    using 4(2) by (rule follows_then)
  obtain e6 where "trace w' = trace v5 @ e6" "filter_loaded f e6" using seccomp_step_loads [OF 5(2) f] by blast
  with 1 2 3 4 5 show ?thesis
    by (intro exI [of _ "e1 @ e2 @ e3 @ e4 @ e5 @ e6"]) (auto elim: filter_loaded_mono)
qed

section \<open>Frames\<close>

text \<open>How the parent reads a frame (\<open>src/process/protocol.rs\<close>, step 10).\<close>

definition decode_frame :: "u8 list \<Rightarrow> ChildStage \<times> u8 list" where
  "decode_frame frame = (case frame of [] \<Rightarrow> (from_tag 0, []) | b # bs \<Rightarrow> (from_tag b, bs))"

section \<open>Properties\<close>

text \<open>Ends of \<open>exec_sandboxed\<close> by what happened before.\<close>

definition before_ready :: "ChildPayload \<Rightarrow> event \<Rightarrow> bool" where
  "before_ready pl e \<longleftrightarrow> (\<exists>fd r. e = Raw (CloseFd fd) r) \<or> (\<exists>r. e = Raw Setpgid r)"

lemma emits_close_inherited: "emits (before_ready pl) (close_inherited k pl)"
  unfolding close_inherited_def close_opt_def close_raw_def raw_call_def
  by (auto simp: before_ready_def intro!: emits_intros)

lemma exec_prefix:
  assumes "run_state (exec_sandboxed n k pl) w = (r, w')"
  obtains v es a where "trace v = trace w @ es" "list_all (before_ready pl) es"
    "a = k_read_fd k (trace v) (ready_read_fd pl) 1"
    "run_state (if a \<noteq> Inr [0] then close_raw k (ready_read_fd pl) \<bind> (\<lambda>_. State_Monad.return (Some (ChildExit 1)))
     else do {
       _ \<leftarrow> close_raw k (ready_read_fd pl);
       outc \<leftarrow> and_then (builtin_steps k pl) (hook_step pl);
       case outc of
         Inl (stage, msg) \<Rightarrow> child_abort n k (error_write_fd pl) stage msg
       | Inr _ \<Rightarrow> do {
           _ \<leftarrow> close_raw k (error_write_fd pl);
           r \<leftarrow> raw_call k (Execvpe (p_argv pl) (p_envp pl));
           State_Monad.return (Some (if r < 0 then ChildExit 127 else ChildExec))
         }
     }) (log_event (ReadFd (ready_read_fd pl) 1 a) v) = (r, w')"
proof -
  obtain u where u: "run_state (close_inherited k pl) w = ((), u)"
    by (cases "run_state (close_inherited k pl) w") simp
  obtain es where es: "trace u = trace w @ es" "list_all (before_ready pl) es"
    using emits_run [OF emits_close_inherited u] by blast
  let ?v = "log_event (Raw Setpgid (k_raw k (trace u) Setpgid)) u"
  show ?thesis
  proof (rule that [of ?v "es @ [Raw Setpgid (k_raw k (trace u) Setpgid)]"
        "k_read_fd k (trace ?v) (ready_read_fd pl) 1"])
  qed (use assms u es in \<open>auto simp: exec_sandboxed_def read_raw_def read_fd_def raw_call_def run_simps before_ready_def\<close>)
qed

text \<open>The caller's hook only makes calls of its own and does not replace the process.\<close>

definition is_exec :: "event \<Rightarrow> bool" where
  "is_exec e \<longleftrightarrow> (\<exists>a b r. e = Raw (Execvpe a b) r)"

lemma is_exec_simps [simp]:
  "is_exec (Raw (Execvpe a b) r)" "\<not> is_exec (Raw (CloseFd fd) r)" "\<not> is_exec (Raw (WriteFd fd d) r)"
  "\<not> is_exec (Raw Setpgid r)" "\<not> is_exec (ReadFd fd m x)"
  by (simp_all add: is_exec_def)

definition hook_benign :: "ChildPayload \<Rightarrow> bool" where
  "hook_benign pl \<longleftrightarrow> (case p_child_hook pl of None \<Rightarrow> True | Some hook \<Rightarrow> \<forall>ctx. emits (\<lambda>e. \<not> is_exec e) (hook ctx))"

lemma no_exec_planned: "Execvpe a b \<notin> set (child_plan pl ds wd fallback)"
proof -
  have "Execvpe a b \<notin> set (binds_plan at ms ds)" for at ms ds
    by (auto simp: binds_plan_def bind_plan_def bind_call_def split: option.splits)
  then show ?thesis
    by (auto simp: child_plan_def dup2_plan_def fs_plan_def namespace_plan_def bind_mounts_plan_def tmpfs_plan_def
        tmpfs_call_def procfs_plan_def root_plan_def private_call_def rlimits_plan_def seccomp_plan_def
        split: option.splits ProcfsMode.splits RootfsMode.splits if_splits)
qed

lemma is_exec_plan_call: "e \<in> set es \<Longrightarrow> is_exec e \<Longrightarrow> \<exists>a b. Execvpe a b \<in> set (plan_calls es)"
  by (induction es) (auto simp: is_exec_def split: option.splits, blast)

lemma builtin_no_exec: "emits (\<lambda>e. \<not> is_exec e) (builtin_steps k pl)"
  unfolding emits_def
proof
  fix w
  obtain r w' where run: "run_state (builtin_steps k pl) w = (r, w')" by force
  then obtain es where es: "trace w' = trace w @ es"
    "outcome (child_ignored pl) (child_plans pl) r es"
    using follows_run [OF builtin_steps_follow] by blast
  then obtain ds wd fallback rest where "plan_calls es @ rest = child_plan pl ds wd fallback"
    by (cases r) (auto simp: child_plans_def, metis append_Nil2)
  then have "Execvpe a b \<notin> set (plan_calls es)" for a b
    using no_exec_planned [of a b pl ds wd fallback] by (metis Un_iff set_append)
  then have "list_all (\<lambda>e. \<not> is_exec e) es" using is_exec_plan_call [of _ es] by (auto simp: list_all_iff)
  then show "\<exists>es. trace (snd (run_state (builtin_steps k pl) w)) = trace w @ es \<and> list_all (\<lambda>e. \<not> is_exec e) es"
    using run es(1) by auto
qed

lemma hook_no_exec: "hook_benign pl \<Longrightarrow> emits (\<lambda>e. \<not> is_exec e) (hook_step pl)"
  by (auto simp: hook_benign_def hook_step_def at_stage_def proceed_def intro!: emits_intros split: option.splits)

lemma abort_no_exec: "emits (\<lambda>e. \<not> is_exec e) (child_abort n k fd stage msg)"
proof -
  have "emits (\<lambda>e. \<not> is_exec e) (write_all_raw n k fd data)" for data
    by (induction n arbitrary: data) (auto simp: write_raw_def raw_call_def intro!: emits_intros)
  then show ?thesis
    unfolding child_abort_def close_raw_def raw_call_def by (auto intro!: emits_intros)
qed

text \<open>The three ways \<open>exec_sandboxed\<close> can go.\<close>

lemma exec_cases:
  assumes run: "run_state (exec_sandboxed n k pl) w = (r, w')" and hook: "hook_benign pl"
  obtains (not_ready) pre a c where "a \<noteq> Inr [0]" "r = Some (ChildExit 1)" "list_all (before_ready pl) pre"
      "trace w' = trace w @ pre @ [ReadFd (ready_read_fd pl) 1 a, Raw (CloseFd (ready_read_fd pl)) c]"
  | (failed) pre c v steps v' stage msg where "list_all (before_ready pl) pre"
      "trace v = trace w @ pre @ [ReadFd (ready_read_fd pl) 1 (Inr [0]), Raw (CloseFd (ready_read_fd pl)) c]"
      "run_state (and_then (builtin_steps k pl) (hook_step pl)) v = (Inl (stage, msg), v')"
      "trace v' = trace v @ steps" "list_all (\<lambda>e. \<not> is_exec e) steps"
      "run_state (child_abort n k (error_write_fd pl) stage msg) v' = (r, w')"
  | (executed) pre c v v' steps hooked d x v2 where "list_all (before_ready pl) pre"
      "trace v = trace w @ pre @ [ReadFd (ready_read_fd pl) 1 (Inr [0]), Raw (CloseFd (ready_read_fd pl)) c]"
      "run_state (builtin_steps k pl) v = (Inr (), v')" "trace v' = trace v @ steps"
      "list_all (\<lambda>e. \<not> is_exec e) hooked"
      "trace w' = trace v' @ hooked @ [Raw (CloseFd (error_write_fd pl)) d, Raw (Execvpe (p_argv pl) (p_envp pl)) x]"
      "r = Some (if x < 0 then ChildExit 127 else ChildExec)"
      "run_state (hook_step pl) v' = (Inr (), v2)" "trace v2 = trace v' @ hooked"
proof -
  obtain v0 pre a where 0: "trace v0 = trace w @ pre" "list_all (before_ready pl) pre" and a: "a = k_read_fd k (trace v0) (ready_read_fd pl) 1"
    and rest: "run_state (if a \<noteq> Inr [0] then close_raw k (ready_read_fd pl) \<bind> (\<lambda>_. State_Monad.return (Some (ChildExit 1)))
     else do {
       _ \<leftarrow> close_raw k (ready_read_fd pl);
       outc \<leftarrow> and_then (builtin_steps k pl) (hook_step pl);
       case outc of
         Inl (stage, msg) \<Rightarrow> child_abort n k (error_write_fd pl) stage msg
       | Inr _ \<Rightarrow> do {
           _ \<leftarrow> close_raw k (error_write_fd pl);
           r \<leftarrow> raw_call k (Execvpe (p_argv pl) (p_envp pl));
           State_Monad.return (Some (if r < 0 then ChildExit 127 else ChildExec))
         }
     }) (log_event (ReadFd (ready_read_fd pl) 1 a) v0) = (r, w')"
    using run by (rule exec_prefix)
  let ?c = "k_raw k (trace v0 @ [ReadFd (ready_read_fd pl) 1 a]) (CloseFd (ready_read_fd pl))"
  let ?v = "log_event (Raw (CloseFd (ready_read_fd pl)) ?c) (log_event (ReadFd (ready_read_fd pl) 1 a) v0)"
  show ?thesis
  proof (cases "a = Inr [0]")
    case False
    then show ?thesis using rest 0 by (intro not_ready) (auto simp: close_raw_def raw_call_def run_simps)
  next
    case True
    then obtain outc v' where outc: "run_state (and_then (builtin_steps k pl) (hook_step pl)) ?v = (outc, v')"
      and fin: "run_state (case outc of
         Inl (stage, msg) \<Rightarrow> child_abort n k (error_write_fd pl) stage msg
       | Inr _ \<Rightarrow> do {
           _ \<leftarrow> close_raw k (error_write_fd pl);
           r \<leftarrow> raw_call k (Execvpe (p_argv pl) (p_envp pl));
           State_Monad.return (Some (if r < 0 then ChildExit 127 else ChildExec))
         }) v' = (r, w')"
      using rest by (auto simp: run_bind_iff run_close_raw)
    have quiet: "emits (\<lambda>e. \<not> is_exec e) (and_then (builtin_steps k pl) (hook_step pl))"
      unfolding and_then_def by (intro emits_intros builtin_no_exec hook_no_exec hook)
    show ?thesis
    proof (cases outc)
      case (Inl err)
      obtain steps where "trace v' = trace ?v @ steps" "list_all (\<lambda>e. \<not> is_exec e) steps"
        using emits_run [OF quiet outc] by blast
      then show ?thesis using outc fin 0 True Inl
        by (intro failed [of pre ?v ?c "fst err" "snd err" v' steps]) (auto split: prod.splits)
    next
      case (Inr u)
      then obtain v1 where v1: "run_state (builtin_steps k pl) ?v = (Inr (), v1)" "run_state (hook_step pl) v1 = (Inr (), v')"
        using outc by (auto simp: run_and_then_Inr)
      obtain steps where steps: "trace v1 = trace ?v @ steps" using emits_run [OF builtin_no_exec v1(1)] by blast
      obtain hooked where "trace v' = trace v1 @ hooked" "list_all (\<lambda>e. \<not> is_exec e) hooked"
        using emits_run [OF hook_no_exec [OF hook] v1(2)] by blast
      moreover obtain d x where "trace w' = trace v' @ [Raw (CloseFd (error_write_fd pl)) d, Raw (Execvpe (p_argv pl) (p_envp pl)) x]"
          "r = Some (if x < 0 then ChildExit 127 else ChildExec)"
        using fin Inr by (auto simp: close_raw_def raw_call_def run_simps)
      ultimately show ?thesis using 0 True v1 steps
        by (intro executed [of pre ?v ?c v1 steps hooked d x v']) auto
    qed
  qed
qed

lemma before_ready_no_exec: "list_all (before_ready pl) pre \<Longrightarrow> list_all (\<lambda>e. \<not> is_exec e) pre"
  by (auto simp: list_all_iff before_ready_def)

definition demo_filter :: SeccompFilter where
  "demo_filter = \<lparr>f_default_action = Allow, f_program = [\<lparr>bpf_code = 6, bpf_jt = 0, bpf_jf = 0, bpf_k = 0x7FFF0000\<rparr>], f_rule_count = 0\<rparr>"

definition demo_payload :: ChildPayload where
  "demo_payload =
     \<lparr>ready_read_fd = 5, error_write_fd = 6, parent_ready_write_fd = 7, parent_error_read_fd = 8,
      stdin_close_in_child = None, stdout_close_in_child = None, stderr_close_in_child = None,
      stdio_fds = (Some 9, None, None), p_hostname = Some ''box'',
      p_filesystem = FilesystemConfig_default\<lparr>procfs := Leave\<rparr>, p_working_dir = ''/'',
      p_rlimits = \<lparr>nofile = Some 64, fsize = None, cpu_secs = None\<rparr>, p_seccomp = Some demo_filter, p_child_hook = None,
      p_ctx = \<lparr>ctx_uid = 0, ctx_gid = 0, has_user_ns = True, has_mount_ns = True, has_pid_ns = True, has_net_ns = True\<rparr>,
      p_argv = [''true''], p_envp = []\<rparr>"

lemmas child_run_defs = exec_sandboxed_def close_inherited_def close_opt_def close_raw_def read_raw_def builtin_steps_def
  stdio_steps_def dup2_step_def hostname_step_def mount_step_def chdir_step_def rlimits_step_def install_rlimits_def
  setrlimit_def seccomp_step_def hook_step_def at_stage_def install_seccomp_def install_def set_no_new_privs_def
  load_filter_def and_then_def proceed_def setup_bind_mounts_def make_mounts_private_def nix_call_def apply_procfs_def
  call_defs wp_simps demo_payload_def FilesystemConfig_default_def

text \<open>C27: The target program is executed only by a fully set up child, whatever the kernel answers. If
  an \<open>execvpe\<close> appears among the child's calls, it is its last one and runs the payload's program,
  and before it came, in this order: only descriptor closes and \<open>setpgid\<close>, the parent's ready byte,
  then every call of the child's plan (stdio, host name, mounts, working directory, resource limits,
  \<open>PR_SET_NO_NEW_PRIVS\<close> and the filter), each of which went through unless its failure is ignored,
  with the configured filter accepted by the kernel, then the hook and the closing of the error
  pipe.\<close>

theorem exec_only_after_setup:
  assumes run: "run_state (exec_sandboxed n k pl) w = (r, w')" and hook: "hook_benign pl"
    and exec: "e \<in> set (new_events w w')" "is_exec e"
  shows "\<exists>pre c steps hooked d x ds wd fallback.
     new_events w w' = pre @ [ReadFd (ready_read_fd pl) 1 (Inr [0]), Raw (CloseFd (ready_read_fd pl)) c] @ steps @ hooked
       @ [Raw (CloseFd (error_write_fd pl)) d, Raw (Execvpe (p_argv pl) (p_envp pl)) x]
     \<and> list_all (before_ready pl) pre
     \<and> length ds = length (mounts (p_filesystem pl))
     \<and> plan_calls steps = child_plan pl ds wd fallback \<and> list_all (call_ok (child_ignored pl)) steps
     \<and> (case p_seccomp pl of None \<Rightarrow> True | Some f \<Rightarrow> filter_loaded f steps)
     \<and> list_all (\<lambda>e. \<not> is_exec e) hooked"
  using run hook
proof (cases rule: exec_cases)
  case (not_ready pre a c)
  then have "list_all (\<lambda>e. \<not> is_exec e) (new_events w w')"
    using before_ready_no_exec by (simp add: new_events_def)
  then show ?thesis using exec by (auto simp: list_all_iff)
next
  case (failed pre c v steps v' stage msg)
  obtain ws where "trace w' = trace v' @ ws" "list_all (\<lambda>e. \<not> is_exec e) ws"
    using emits_run [OF abort_no_exec failed(6)] by blast
  then have "list_all (\<lambda>e. \<not> is_exec e) (new_events w w')"
    using failed before_ready_no_exec by (simp add: new_events_def)
  then show ?thesis using exec by (auto simp: list_all_iff)
next
  case (executed pre c v v' steps hooked d x)
  have "\<exists>es. trace v' = trace v @ es \<and> outcome (child_ignored pl) (child_plans pl) (Inr () :: step_error + unit) es"
    by (rule follows_run [OF builtin_steps_follow executed(3)])
  then have "outcome (child_ignored pl) (child_plans pl) (Inr () :: step_error + unit) steps" using executed(4) by auto
  moreover have "filter_loaded f steps" if "p_seccomp pl = Some f" for f
    using builtin_steps_load [OF executed(3) that] executed(4) by auto
  ultimately obtain ds wd fallback where "plan_calls steps = child_plan pl ds wd fallback"
      "length ds = length (mounts (p_filesystem pl))" "list_all (call_ok (child_ignored pl)) steps"
      "case p_seccomp pl of None \<Rightarrow> True | Some f \<Rightarrow> filter_loaded f steps"
    by (auto simp: child_plans_def split: option.splits)
  moreover have "new_events w w' = pre @ [ReadFd (ready_read_fd pl) 1 (Inr [0]), Raw (CloseFd (ready_read_fd pl)) c] @ steps @ hooked
       @ [Raw (CloseFd (error_write_fd pl)) d, Raw (Execvpe (p_argv pl) (p_envp pl)) x]"
    using executed(2,4,6) by (simp add: new_events_def)
  ultimately show ?thesis using executed(1,5) by blast
qed

theorem exec_only_after_setup_witness:
  "\<exists>w' steps c d x pre hooked. run_state (exec_sandboxed 1 granting_kernel demo_payload) initial_world = (Some ChildExec, w')
     \<and> new_events initial_world w' = pre @ [ReadFd 5 1 (Inr [0]), Raw (CloseFd 5) c] @ steps @ hooked
         @ [Raw (CloseFd 6) d, Raw (Execvpe [''true''] []) x]
     \<and> filter_loaded demo_filter steps"
proof -
  let ?m = "exec_sandboxed 1 granting_kernel demo_payload"
  have "wp ?m (\<lambda>r w'. r = Some ChildExec \<and> Raw (Execvpe [''true''] []) 0 \<in> set (new_events initial_world w')) initial_world"
    by (simp add: child_run_defs Let_def granting_kernel_def initial_world_def new_events_def)
  then obtain w' where run: "run_state ?m initial_world = (Some ChildExec, w')"
    and "Raw (Execvpe [''true''] []) 0 \<in> set (new_events initial_world w')"
    by (auto simp: wp_def split: prod.splits)
  moreover have "hook_benign demo_payload" by (simp add: hook_benign_def demo_payload_def)
  ultimately show ?thesis
    using exec_only_after_setup [OF run, of "Raw (Execvpe [''true''] []) 0"]
    by (simp add: demo_payload_def) blast
qed


definition refusing_kernel :: kernel where
  "refusing_kernel = granting_kernel\<lparr>k_raw := (\<lambda>h c. if c = PrSetNoNewPrivs then -1 else 0)\<rparr>"




end
