(* ===== verification/Namespaces.thy ===== *)
theory Namespaces
  imports Kernel Errors
begin

text \<open>
  User and UTS namespaces (\<open>src/namespace.rs\<close>): the id maps the parent writes for its child.
\<close>

text \<open>The flags of \<open>clone\<close>, \<open>unshare\<close> and \<open>setns\<close>.\<close>

definition CLONE_NEWNS :: u64 where "CLONE_NEWNS = 0x00020000"
definition CLONE_NEWUTS :: u64 where "CLONE_NEWUTS = 0x04000000"
definition CLONE_NEWIPC :: u64 where "CLONE_NEWIPC = 0x08000000"
definition CLONE_NEWUSER :: u64 where "CLONE_NEWUSER = 0x10000000"
definition CLONE_NEWPID :: u64 where "CLONE_NEWPID = 0x20000000"
definition CLONE_NEWNET :: u64 where "CLONE_NEWNET = 0x40000000"

record UserNamespace =
  inner_uid :: u32
  inner_gid :: u32

definition UserNamespace_new :: "u32 option \<Rightarrow> u32 option \<Rightarrow> UserNamespace" where
  "UserNamespace_new uid gid =
     \<lparr>inner_uid = (case uid of None \<Rightarrow> 0 | Some u \<Rightarrow> u), inner_gid = (case gid of None \<Rightarrow> 0 | Some g \<Rightarrow> g)\<rparr>"

definition with_inner_uid :: "u32 \<Rightarrow> UserNamespace \<Rightarrow> UserNamespace" where
  "with_inner_uid uid ns = ns\<lparr>inner_uid := uid\<rparr>"
definition with_inner_gid :: "u32 \<Rightarrow> UserNamespace \<Rightarrow> UserNamespace" where
  "with_inner_gid gid ns = ns\<lparr>inner_gid := gid\<rparr>"

definition UserNamespace_default :: UserNamespace where
  "UserNamespace_default = UserNamespace_new (Some 0) (Some 0)"

definition proc_path :: "i32 \<Rightarrow> string \<Rightarrow> string" where
  "proc_path pid file = ''/proc/'' @ show_int (sint pid) @ ''/'' @ file"

text \<open>A map of one id: the id inside and the id outside.\<close>

definition id_map :: "u32 \<Rightarrow> u32 \<Rightarrow> string" where
  "id_map inner outer = show_nat (unat inner) @ '' '' @ show_nat (unat outer) @ '' 1''"

definition write_map :: "kernel \<Rightarrow> i32 \<Rightarrow> string \<Rightarrow> string \<Rightarrow> unit result prog" where
  "write_map k pid file v = fs_write k (proc_path pid file) v \<bind> (\<lambda>r. State_Monad.return (case r of
     Inl e \<Rightarrow> Inl (SandboxError_new ErrorKind.Namespace
                (''failed to create user namespace: failed to write '' @ file @ '': '' @ io_display e))
   | Inr _ \<Rightarrow> Inr ()))"

definition write_mappings :: "kernel \<Rightarrow> UserNamespace \<Rightarrow> i32 \<Rightarrow> unit result prog" where
  "write_mappings k ns pid =
     and_then (write_map k pid ''setgroups'' ''deny'')
       (and_then (write_map k pid ''uid_map'' (id_map (inner_uid ns) (k_getuid k)))
          (write_map k pid ''gid_map'' (id_map (inner_gid ns) (k_getgid k))))"

record UtsNamespace =
  uts_hostname :: string

definition with_hostname :: "string \<Rightarrow> UtsNamespace" where
  "with_hostname h = \<lparr>uts_hostname = h\<rparr>"

definition UtsNamespace_default :: UtsNamespace where
  "UtsNamespace_default = with_hostname ''sandbox''"

definition setup_in_child :: "kernel \<Rightarrow> UtsNamespace \<Rightarrow> unit result prog" where
  "setup_in_child k ns = raw_call k (Sethostname (uts_hostname ns)) \<bind> (\<lambda>r. State_Monad.return (
     if r < 0 then Inl (SandboxError_new ErrorKind.Namespace (''failed to create uts namespace: '' @ k_nix_errno k (- r)))
     else Inr ()))"

section \<open>What is written\<close>

definition mapping_writes :: "kernel \<Rightarrow> UserNamespace \<Rightarrow> i32 \<Rightarrow> (string \<times> string) list" where
  "mapping_writes k ns pid =
     [(proc_path pid ''setgroups'', ''deny''),
      (proc_path pid ''uid_map'', id_map (inner_uid ns) (k_getuid k)),
      (proc_path pid ''gid_map'', id_map (inner_gid ns) (k_getgid k))]"

lemma write_mappings_ok:
  assumes "run_state (write_mappings k ns pid) w = (Inr u, w')"
  shows "trace w' = trace w @ map (\<lambda>(p, v). WriteFile p v (Inr ())) (mapping_writes k ns pid)"
  using assms
  by (auto simp: write_mappings_def write_map_def and_then_def fs_write_def mapping_writes_def run_simps split: sum.splits)

text \<open>A map determines both ids.\<close>

lemma show_nat_no_space: "CHR '' '' \<notin> set (show_nat n)"
  using show_nat_digits [of n] by (auto simp: list_all_iff is_digit_def)

lemma id_map_inject: "id_map a b = id_map c d \<longleftrightarrow> a = c \<and> b = d"
proof
  assume eq: "id_map a b = id_map c d"
  have tw: "takeWhile (\<lambda>x. x \<noteq> CHR '' '') (show_nat n @ CHR '' '' # s) = show_nat n" for n s
    using show_nat_no_space [of n] by (induction "show_nat n") (auto simp: takeWhile_append)
  from eq have "show_nat (unat a) = show_nat (unat c)"
    by (metis tw id_map_def append_Cons append_Nil)
  then have "unat a = unat c" by (metis digits_val_show_nat)
  moreover from eq this have "show_nat (unat b) = show_nat (unat d)" by (simp add: id_map_def)
  then have "unat b = unat d" by (metis digits_val_show_nat)
  ultimately show "a = c \<and> b = d" by (simp add: word_unat_eq_iff)
qed simp

end
