(* ===== verification/Utf8.thy ===== *)
theory Utf8
  imports Prelude
begin

text \<open>
  \<open>String::from_utf8_lossy\<close>: the bytes of a string, with every maximal ill-formed piece replaced by
  U+FFFD. It is the identity on well-formed UTF-8 and always returns well-formed UTF-8.
\<close>

text \<open>Continuation bytes expected after a lead byte, and the range of the first of them.\<close>

definition utf8_lead :: "u8 \<Rightarrow> (nat \<times> u8 \<times> u8) option" where
  "utf8_lead b =
     (if b < 0x80 then Some (0, 0x80, 0xBF)
      else if 0xC2 \<le> b \<and> b \<le> 0xDF then Some (1, 0x80, 0xBF)
      else if b = 0xE0 then Some (2, 0xA0, 0xBF)
      else if b = 0xED then Some (2, 0x80, 0x9F)
      else if 0xE1 \<le> b \<and> b \<le> 0xEF then Some (2, 0x80, 0xBF)
      else if b = 0xF0 then Some (3, 0x90, 0xBF)
      else if 0xF1 \<le> b \<and> b \<le> 0xF3 then Some (3, 0x80, 0xBF)
      else if b = 0xF4 then Some (3, 0x80, 0x8F)
      else None)"

text \<open>How many of the next \<open>n\<close> bytes continue a sequence whose next byte is in the range.\<close>

fun utf8_run :: "nat \<Rightarrow> u8 \<Rightarrow> u8 \<Rightarrow> u8 list \<Rightarrow> nat" where
  "utf8_run 0 lo hi bs = 0"
| "utf8_run (Suc n) lo hi [] = 0"
| "utf8_run (Suc n) lo hi (b # bs) = (if lo \<le> b \<and> b \<le> hi then Suc (utf8_run n 0x80 0xBF bs) else 0)"

text \<open>The first piece: whether it is well-formed, and how many bytes follow its first.\<close>

definition utf8_piece :: "u8 \<Rightarrow> u8 list \<Rightarrow> bool \<times> nat" where
  "utf8_piece b bs =
     (case utf8_lead b of
        None \<Rightarrow> (False, 0)
      | Some (n, lo, hi) \<Rightarrow> (let j = utf8_run n lo hi bs in (j = n, j)))"

definition REPLACEMENT :: "u8 list" where "REPLACEMENT = [0xEF, 0xBF, 0xBD]"

fun utf8_valid :: "u8 list \<Rightarrow> bool" where
  "utf8_valid [] = True"
| "utf8_valid (b # bs) = (case utf8_piece b bs of (ok, j) \<Rightarrow> ok \<and> utf8_valid (drop j bs))"

fun lossy_bytes :: "u8 list \<Rightarrow> u8 list" where
  "lossy_bytes [] = []"
| "lossy_bytes (b # bs) =
     (case utf8_piece b bs of (ok, j) \<Rightarrow> (if ok then b # take j bs else REPLACEMENT) @ lossy_bytes (drop j bs))"

definition from_utf8_lossy :: "u8 list \<Rightarrow> string" where
  "from_utf8_lossy bs = map (\<lambda>b. char_of (unat b)) (lossy_bytes bs)"

section \<open>Laws\<close>

lemma lossy_bytes_valid: "utf8_valid bs \<Longrightarrow> lossy_bytes bs = bs"
  by (induction bs rule: utf8_valid.induct) (auto split: prod.splits)

lemma utf8_run_le: "utf8_run n lo hi bs \<le> n" "utf8_run n lo hi bs \<le> length bs"
  by (induction n lo hi bs rule: utf8_run.induct) auto

lemma utf8_run_take: "utf8_run n lo hi bs = n \<Longrightarrow> utf8_run n lo hi (take n bs @ rest) = n"
  by (induction n lo hi bs rule: utf8_run.induct) (auto split: if_splits)

lemma utf8_valid_piece:
  assumes "utf8_piece b bs = (True, j)" "utf8_valid rest"
  shows "utf8_valid (b # take j bs @ rest)"
proof -
  obtain lo hi where lead: "utf8_lead b = Some (j, lo, hi)" and run: "utf8_run j lo hi bs = j"
    using assms(1) by (auto simp: utf8_piece_def Let_def split: option.splits)
  have "length (take j bs) = j" using utf8_run_le(2) [of j lo hi bs] run by simp
  moreover have "utf8_piece b (take j bs @ rest) = (True, j)"
    using lead utf8_run_take [OF run] by (simp add: utf8_piece_def)
  ultimately show ?thesis using assms(2) by simp
qed

lemma utf8_valid_replacement:
  assumes "utf8_valid rest"
  shows "utf8_valid (REPLACEMENT @ rest)"
proof -
  have lead: "utf8_lead 0xEF = Some (Suc (Suc 0), 0x80, 0xBF)" by (simp add: utf8_lead_def)
  have "utf8_piece 0xEF (0xBF # 0xBD # rest) = (True, Suc (Suc 0))"
    unfolding utf8_piece_def lead by simp
  then show ?thesis using assms by (simp add: REPLACEMENT_def)
qed

lemma utf8_valid_lossy_bytes: "utf8_valid (lossy_bytes bs)"
proof (induction bs rule: lossy_bytes.induct)
  case (2 b bs)
  obtain ok j where p: "utf8_piece b bs = (ok, j)" by force
  then have "utf8_valid (lossy_bytes (drop j bs))" using 2 by simp
  then show ?case using p utf8_valid_piece [of b bs j] utf8_valid_replacement by (cases ok) auto
qed simp

lemma utf8_valid_ascii: "list_all (\<lambda>b. b < 0x80) bs \<Longrightarrow> utf8_valid bs"
  by (induction bs) (auto simp: utf8_piece_def utf8_lead_def)

lemma char_of_byte: "char_of (unat (of_char c :: u8)) = c"
proof -
  have "(of_char c :: u8) = of_nat (of_char c)" by (simp only: of_nat_of_char)
  then have "unat (of_char c :: u8) = of_char c"
    using nat_of_char_less_256 [of c] by (simp only: unat_of_nat) (simp add: take_bit_nat_eq_self)
  then show ?thesis by simp
qed

lemma lossy_as_bytes: "utf8_valid (as_bytes s) \<Longrightarrow> from_utf8_lossy (as_bytes s) = s"
  by (simp add: from_utf8_lossy_def lossy_bytes_valid as_bytes_def comp_def char_of_byte)

end
