(* ===== verification/Protocol.thy ===== *)
theory Protocol
  imports Child Child_Setup Namespaces Utf8
begin

text \<open>
  The parent side of a spawn (\<open>src/process/protocol.rs\<close>). \<open>prepare_sandbox\<close> computes what can be decided
  beforehand; \<open>run_prepared\<close> creates the pipes, clones the child, writes its id maps, attaches its
  cgroup, releases it with the ready byte and waits for its error frame or end of file. Every early
  return drops the locals in Rust's order, so descriptors, cgroup and proxy are accounted for on
  every path. The child runs in its own process: its calls are the trace of \<open>exec_sandboxed\<close>.
\<close>

section \<open>Preparation\<close>

unbundle bit_operations_syntax

definition add_flag :: "bool \<Rightarrow> u64 \<Rightarrow> u64 \<Rightarrow> u64" where
  "add_flag b f flags = (if b then flags OR f else flags)"

definition derive_clone_flags :: "NamespaceConfig \<Rightarrow> bool \<Rightarrow> u64" where
  "derive_clone_flags ns net_isolated =
     (let flags = 0;
          flags = add_flag (ns_user ns) CLONE_NEWUSER flags;
          flags = add_flag (ns_pid ns) CLONE_NEWPID flags;
          flags = add_flag (ns_mount ns) CLONE_NEWNS flags;
          flags = add_flag (ns_uts ns) CLONE_NEWUTS flags;
          flags = add_flag (ns_ipc ns) CLONE_NEWIPC flags;
          flags = add_flag net_isolated CLONE_NEWNET flags
      in flags)"

record SpawnRequest =
  req_cmd :: string
  req_args :: "string list"
  req_stdin :: Stdio
  req_stdout :: Stdio
  req_stderr :: Stdio
  req_child_setup :: "ChildSetup option"

record PreparedSandbox =
  prep_clone_flags :: u64
  prep_config :: SandboxConfig
  prep_policy :: ExecutionPolicy
  prep_user_ns :: UserNamespace
  prep_hostname :: "string option"
  prep_working_dir :: string
  prep_rlimits :: PreparedRlimits
  prep_seccomp :: "SeccompFilter option"
  prep_child_hook :: "ChildSetup option"
  prep_ctx :: ChildCtx
  prep_argv :: "string list"
  prep_base_env :: "string \<rightharpoonup> string"
  prep_stdin :: Stdio
  prep_stdout :: Stdio
  prep_stderr :: Stdio

text \<open>What the process gets from its surroundings: its own environment, the order in which a hash map
  is iterated, the port the proxy binds (or the error) and the error of starting its runtime.\<close>

record host =
  host_vars :: "string \<rightharpoonup> string"
  host_iter :: "(string \<rightharpoonup> string) \<Rightarrow> (string \<times> string) list"
  host_bind :: "string + u16"
  host_runtime :: "string option"

text \<open>\<open>CString::new\<close>: a string without NUL.\<close>

fun nul_position :: "('a \<Rightarrow> bool) \<Rightarrow> 'a list \<Rightarrow> nat option" where
  "nul_position P [] = None"
| "nul_position P (x # xs) = (if P x then Some 0 else map_option Suc (nul_position P xs))"

definition CString_new :: "string \<Rightarrow> string result" where
  "CString_new s =
     (case nul_position (\<lambda>c. c = CHR 0x00) s of
        None \<Rightarrow> Inr s
      | Some i \<Rightarrow> Inl (from_nul_error (''nul byte found in provided data at position: '' @ show_nat i)))"

fun CStrings_new :: "string list \<Rightarrow> string list result" where
  "CStrings_new [] = Inr []"
| "CStrings_new (s # ss) =
     (case CString_new s of
        Inl e \<Rightarrow> Inl e
      | Inr c \<Rightarrow> (case CStrings_new ss of Inl e \<Rightarrow> Inl e | Inr cs \<Rightarrow> Inr (c # cs)))"

definition base_env_of :: "host \<Rightarrow> EnvironmentConfig \<Rightarrow> string \<rightharpoonup> string" where
  "base_env_of h cfg =
     (let default_path = (case host_vars h ''PATH'' of Some p \<Rightarrow> p | None \<Rightarrow> ''/usr/local/bin:/usr/bin:/bin'');
          base_env = (if clear_env cfg then Map.empty else host_vars h);
          base_env = base_env ++ env cfg
      in if base_env ''PATH'' = None then base_env(''PATH'' \<mapsto> default_path) else base_env)"

definition prepare_sandbox ::
  "target \<Rightarrow> host \<Rightarrow> SandboxConfig \<Rightarrow> ExecutionPolicy \<Rightarrow> SpawnRequest \<Rightarrow> PreparedSandbox result" where
  "prepare_sandbox t h cfg pol req =
     (let net_isolated = (net_mode (network cfg) = NetNone);
          user_ns = UserNamespace_new (sec_uid (security cfg)) (sec_gid (security cfg))
      in case CStrings_new (req_args req) of
           Inl e \<Rightarrow> Inl e
         | Inr args \<Rightarrow>
             (case CString_new (req_cmd req) of
                Inl e \<Rightarrow> Inl e
              | Inr cmd \<Rightarrow>
                  (case prepare_seccomp t (seccomp_profile (security cfg)) of
                     Inl e \<Rightarrow> Inl e
                   | Inr seccomp \<Rightarrow> Inr
                       \<lparr>prep_clone_flags = derive_clone_flags (namespace cfg) net_isolated,
                        prep_config = cfg,
                        prep_policy = pol,
                        prep_user_ns = user_ns,
                        prep_hostname = (if ns_uts (namespace cfg) then Some (hostname (environment cfg)) else None),
                        prep_working_dir = working_dir (filesystem cfg),
                        prep_rlimits = prepare_rlimits (resources cfg),
                        prep_seccomp = seccomp,
                        prep_child_hook = req_child_setup req,
                        prep_ctx = \<lparr>ctx_uid = inner_uid user_ns, ctx_gid = inner_gid user_ns,
                                    has_user_ns = ns_user (namespace cfg), has_mount_ns = ns_mount (namespace cfg),
                                    has_pid_ns = ns_pid (namespace cfg), has_net_ns = net_isolated\<rparr>,
                        prep_argv = cmd # args,
                        prep_base_env = base_env_of h (environment cfg),
                        prep_stdin = req_stdin req,
                        prep_stdout = req_stdout req,
                        prep_stderr = req_stderr req\<rparr>)))"

section \<open>Before the clone\<close>

text \<open>Step 1.\<close>

definition start_proxy :: "host \<Rightarrow> NetworkMode \<Rightarrow> ProxiedNetwork option result prog" where
  "start_proxy h mode =
     (case mode of
        Proxied domains \<Rightarrow>
          (case ProxiedNetwork_setup (host_bind h) (host_runtime h) of
             Inl e \<Rightarrow> State_Monad.return (Inl e)
           | Inr p \<Rightarrow> do {
               syscall (\<lambda>h. ()) (\<lambda>_. ProxyStart (unat (proxy_port p)));
               sleep_ms 50;
               State_Monad.return (Inr (Some p))
             })
      | _ \<Rightarrow> State_Monad.return (Inr None))"

record channels =
  ch_proxy :: "ProxiedNetwork option"
  ch_stdin :: StdioSlot
  ch_stdout :: StdioSlot
  ch_stderr :: StdioSlot
  ch_ready_read :: int
  ch_ready_write :: int
  ch_error_read :: int
  ch_error_write :: int

definition drop_streams :: "kernel \<Rightarrow> ProxiedNetwork option \<Rightarrow> StdioSlot \<Rightarrow> StdioSlot \<Rightarrow> StdioSlot \<Rightarrow> unit prog" where
  "drop_streams k proxy s0 s1 s2 = do { drop_slot k s2; drop_slot k s1; drop_slot k s0; drop_proxy proxy }"

definition drop_channels :: "kernel \<Rightarrow> channels \<Rightarrow> unit prog" where
  "drop_channels k ch = do {
     AutoCloseFd_drop k (ch_error_write ch);
     AutoCloseFd_drop k (ch_error_read ch);
     AutoCloseFd_drop k (ch_ready_write ch);
     AutoCloseFd_drop k (ch_ready_read ch);
     drop_streams k (ch_proxy ch) (ch_stdin ch) (ch_stdout ch) (ch_stderr ch)
   }"

text \<open>A fallible step; when it fails, the given drops run and its error is returned.\<close>

definition or_drop :: "'a result prog \<Rightarrow> unit prog \<Rightarrow> ('a \<Rightarrow> 'b result prog) \<Rightarrow> 'b result prog" where
  "or_drop m drops f = m \<bind> (\<lambda>r. case r of
     Inl e \<Rightarrow> drops \<bind> (\<lambda>_. State_Monad.return (Inl e))
   | Inr x \<Rightarrow> f x)"

definition named_pipe :: "kernel \<Rightarrow> bool \<Rightarrow> string \<Rightarrow> (int \<times> int) result prog" where
  "named_pipe k cloexec what = make_pipe k cloexec \<bind> (\<lambda>p. State_Monad.return (
     map_sum (\<lambda>e. SandboxError_new ErrorKind.Exec (''create pipe for '' @ what @ '': '' @ k_nix_errno k e)) id p))"

text \<open>Steps 1 to 3: the proxy, the standard streams and the two pipes.\<close>

definition open_channels :: "kernel \<Rightarrow> host \<Rightarrow> PreparedSandbox \<Rightarrow> channels result prog" where
  "open_channels k h prep =
     or_drop (start_proxy h (net_mode (network (prep_config prep))))
       (do { drop_stdio k (prep_stdin prep); drop_stdio k (prep_stdout prep); drop_stdio k (prep_stderr prep) })
     (\<lambda>proxy. or_drop (resolve k (prep_stdin prep) Stdin)
       (do { drop_proxy proxy; drop_stdio k (prep_stdout prep); drop_stdio k (prep_stderr prep) })
     (\<lambda>s0. or_drop (resolve k (prep_stdout prep) Stdout)
       (do { drop_slot k s0; drop_proxy proxy; drop_stdio k (prep_stderr prep) })
     (\<lambda>s1. or_drop (resolve k (prep_stderr prep) Stderr)
       (do { drop_slot k s1; drop_slot k s0; drop_proxy proxy })
     (\<lambda>s2. or_drop (named_pipe k False ''parent-child sync'') (drop_streams k proxy s0 s1 s2)
     (\<lambda>(ready_read, ready_write). or_drop (named_pipe k True ''error reporting'')
       (do { AutoCloseFd_drop k ready_write; AutoCloseFd_drop k ready_read; drop_streams k proxy s0 s1 s2 })
     (\<lambda>(error_read, error_write). State_Monad.return (Inr
       \<lparr>ch_proxy = proxy, ch_stdin = s0, ch_stdout = s1, ch_stderr = s2,
        ch_ready_read = ready_read, ch_ready_write = ready_write,
        ch_error_read = error_read, ch_error_write = error_write\<rparr>)))))))"

text \<open>Step 4.\<close>

definition child_env :: "PreparedSandbox \<Rightarrow> ProxiedNetwork option \<Rightarrow> string \<rightharpoonup> string" where
  "child_env prep proxy =
     (case proxy of
        None \<Rightarrow> prep_base_env prep
      | Some p \<Rightarrow> foldl (\<lambda>m (key, v). m(key \<mapsto> v)) (prep_base_env prep) (env_vars p))"

definition envp_of :: "host \<Rightarrow> PreparedSandbox \<Rightarrow> ProxiedNetwork option \<Rightarrow> string list result" where
  "envp_of h prep proxy = CStrings_new (map (\<lambda>(key, v). key @ ''='' @ v) (host_iter h (child_env prep proxy)))"

text \<open>Step 5.\<close>

definition payload_of :: "PreparedSandbox \<Rightarrow> channels \<Rightarrow> string list \<Rightarrow> ChildPayload" where
  "payload_of prep ch envp =
     \<lparr>ready_read_fd = ch_ready_read ch, error_write_fd = ch_error_write ch,
      parent_ready_write_fd = ch_ready_write ch, parent_error_read_fd = ch_error_read ch,
      stdin_close_in_child = close_in_child (ch_stdin ch),
      stdout_close_in_child = close_in_child (ch_stdout ch),
      stderr_close_in_child = close_in_child (ch_stderr ch),
      stdio_fds = (child_fd (ch_stdin ch), child_fd (ch_stdout ch), child_fd (ch_stderr ch)),
      p_hostname = prep_hostname prep, p_filesystem = filesystem (prep_config prep),
      p_working_dir = prep_working_dir prep, p_rlimits = prep_rlimits prep, p_seccomp = prep_seccomp prep,
      p_child_hook = prep_child_hook prep, p_ctx = prep_ctx prep, p_argv = prep_argv prep, p_envp = envp\<rparr>"

section \<open>After the clone\<close>

text \<open>\<open>fd.rs::abort_child_startup\<close>; the second component is the guard of the ready pipe afterwards.\<close>

definition abort_child_startup :: "nat \<Rightarrow> kernel \<Rightarrow> i32 \<Rightarrow> int \<Rightarrow> string \<Rightarrow> (SandboxError \<times> int) option prog" where
  "abort_child_startup n k child_pid ready_write message =
     obind (lift_prog (AutoCloseFd_close k ready_write)) (\<lambda>(_, ready_write).
     obind (kill_and_reap n k child_pid) (\<lambda>_.
       State_Monad.return (Some (SandboxError_new ErrorKind.Exec
         (''child setup failed at '' @ ChildStage_fmt ChildStage.Startup @ '': '' @ message), ready_write))))"

text \<open>The drops of an early return after the clone.\<close>

definition drop_after_clone :: "kernel \<Rightarrow> CgroupManager option \<Rightarrow> channels \<Rightarrow> unit prog" where
  "drop_after_clone k cgroup ch = do {
     drop_cgroup_opt k cgroup;
     AutoCloseFd_drop k (ch_error_write ch);
     AutoCloseFd_drop k (ch_ready_write ch);
     AutoCloseFd_drop k (ch_error_read ch);
     AutoCloseFd_drop k (ch_ready_read ch);
     drop_streams k (ch_proxy ch) (ch_stdin ch) (ch_stdout ch) (ch_stderr ch)
   }"

definition return_error :: "kernel \<Rightarrow> CgroupManager option \<Rightarrow> channels \<Rightarrow> SandboxError \<Rightarrow> 'a result option prog" where
  "return_error k cgroup ch e = lift_prog (drop_after_clone k cgroup ch \<bind> (\<lambda>_. State_Monad.return (Inl e)))"

text \<open>Step 7: close the child's ends.\<close>

definition close_child_side :: "nat \<Rightarrow> kernel \<Rightarrow> i32 \<Rightarrow> channels \<Rightarrow> channels result option prog" where
  "close_child_side n k child_pid ch =
     obind (lift_prog (AutoCloseFd_close k (ch_ready_read ch))) (\<lambda>(_, ready_read).
     obind (lift_prog (AutoCloseFd_close k (ch_error_write ch))) (\<lambda>(r, error_write).
       let ch = ch\<lparr>ch_ready_read := ready_read, ch_error_write := error_write\<rparr>
       in case r of
            Inl e \<Rightarrow>
              obind (abort_child_startup n k child_pid (ch_ready_write ch)
                       (''close error pipe write end in parent: '' @ k_nix_errno k e)) (\<lambda>(err, ready_write).
                return_error k None (ch\<lparr>ch_ready_write := ready_write\<rparr>) err)
          | Inr _ \<Rightarrow> lift_prog (do {
              s0 \<leftarrow> close_child_fd_in_parent k (ch_stdin ch);
              s1 \<leftarrow> close_child_fd_in_parent k (ch_stdout ch);
              s2 \<leftarrow> close_child_fd_in_parent k (ch_stderr ch);
              State_Monad.return (Inr (ch\<lparr>ch_stdin := s0, ch_stdout := s1, ch_stderr := s2\<rparr>))
            })))"

text \<open>Step 8: the invariants that must hold before the child may continue. On failure the ready pipe is
  dropped, so that the child sees its end, and the child is killed.\<close>

definition give_up_child :: "nat \<Rightarrow> kernel \<Rightarrow> i32 \<Rightarrow> channels \<Rightarrow> SandboxError \<Rightarrow> 'a result option prog" where
  "give_up_child n k child_pid ch e =
     obind (lift_prog (AutoCloseFd_drop k (ch_ready_write ch))) (\<lambda>_.
     obind (kill_and_reap n k child_pid) (\<lambda>_.
       return_error k None (ch\<lparr>ch_ready_write := -1\<rparr>) e))"

definition no_limits :: LimitDiagnostics where
  "no_limits = \<lparr>lim_memory = LimitStatus.NotRequested, lim_cpu = LimitStatus.NotRequested, lim_pids = LimitStatus.NotRequested\<rparr>"

definition parent_invariants ::
  "nat \<Rightarrow> kernel \<Rightarrow> PreparedSandbox \<Rightarrow> i32 \<Rightarrow> channels \<Rightarrow> (CgroupManager option \<times> LimitDiagnostics) result option prog" where
  "parent_invariants n k prep child_pid ch =
     obind (lift_prog (write_mappings k (prep_user_ns prep) child_pid)) (\<lambda>r.
       case r of
         Inl e \<Rightarrow> give_up_child n k child_pid ch e
       | Inr _ \<Rightarrow>
           if config_needs_cgroup (prep_config prep)
           then obind (lift_prog (configure_cgroup k (prep_config prep) (LimitPlan_from (prep_config prep) (prep_policy prep))
                         (''libsandbox-'' @ show_int (sint child_pid)) child_pid)) (\<lambda>r.
                  case r of
                    Inl e \<Rightarrow> give_up_child n k child_pid ch e
                  | Inr x \<Rightarrow> State_Monad.return (Some (Inr x)))
           else State_Monad.return (Some (Inr (None, no_limits))))"

text \<open>Step 9: the ready byte.\<close>

definition release_child :: "nat \<Rightarrow> kernel \<Rightarrow> i32 \<Rightarrow> CgroupManager option \<Rightarrow> channels \<Rightarrow> channels result option prog" where
  "release_child n k child_pid cgroup ch =
     obind (write_byte_and_close n k (ch_ready_write ch) 0) (\<lambda>(r, ready_write).
       case r of
         Inl e \<Rightarrow>
           obind (abort_child_startup n k child_pid ready_write (''signal child to continue: '' @ k_nix_errno k e))
             (\<lambda>(err, ready_write). return_error k cgroup (ch\<lparr>ch_ready_write := ready_write\<rparr>) err)
       | Inr _ \<Rightarrow> State_Monad.return (Some (Inr (ch\<lparr>ch_ready_write := ready_write\<rparr>))))"

text \<open>Step 10: wait for the end of the child's setup.\<close>

primrec read_frame :: "nat \<Rightarrow> nat \<Rightarrow> kernel \<Rightarrow> int \<Rightarrow> u8 list \<Rightarrow> u8 list option prog" where
  "read_frame 0 n k fd frame = State_Monad.return None"
| "read_frame (Suc m) n k fd frame = obind (read_retry n k fd 4096) (\<lambda>r.
     case r of
       Inr (b # bs) \<Rightarrow> read_frame m n k fd (frame @ b # bs)
     | _ \<Rightarrow> State_Monad.return (Some frame))"

definition setup_error :: "u8 list \<Rightarrow> SandboxError" where
  "setup_error frame =
     (case decode_frame frame of (stage, msg) \<Rightarrow>
        SandboxError_new ErrorKind.Exec (''child setup failed at '' @ ChildStage_fmt stage @ '': '' @ from_utf8_lossy msg))"

definition setup_failed :: "nat \<Rightarrow> kernel \<Rightarrow> i32 \<Rightarrow> CgroupManager option \<Rightarrow> channels \<Rightarrow> SandboxError \<Rightarrow> 'a result option prog" where
  "setup_failed n k child_pid cgroup ch e =
     obind (lift_prog (AutoCloseFd_close k (ch_error_read ch))) (\<lambda>(_, error_read).
     obind (kill_and_reap n k child_pid) (\<lambda>_.
       return_error k cgroup (ch\<lparr>ch_error_read := error_read\<rparr>) e))"

definition await_setup :: "nat \<Rightarrow> nat \<Rightarrow> kernel \<Rightarrow> i32 \<Rightarrow> CgroupManager option \<Rightarrow> channels \<Rightarrow> channels result option prog" where
  "await_setup m n k child_pid cgroup ch =
     obind (read_retry n k (ch_error_read ch) 4096) (\<lambda>r.
       case r of
         Inl e \<Rightarrow> setup_failed n k child_pid cgroup ch
                    (SandboxError_new ErrorKind.Exec (''read child error pipe: '' @ k_nix_errno k e))
       | Inr bytes \<Rightarrow>
           if bytes = [] then
             lift_prog (AutoCloseFd_close k (ch_error_read ch) \<bind> (\<lambda>(_, error_read).
               State_Monad.return (Inr (ch\<lparr>ch_error_read := error_read\<rparr>))))
           else obind (read_frame m n k (ch_error_read ch) bytes) (\<lambda>frame.
             setup_failed n k child_pid cgroup ch (setup_error frame)))"

text \<open>Step 11, with the drops at the end of the function.\<close>

definition hand_over :: "kernel \<Rightarrow> i32 \<Rightarrow> CgroupManager option \<Rightarrow> LimitDiagnostics \<Rightarrow> channels \<Rightarrow> (Child \<times> LimitDiagnostics) prog" where
  "hand_over k child_pid cgroup diag ch = do {
     pidfd \<leftarrow> try_pidfd_open k child_pid;
     user \<leftarrow> open_namespace_fd k child_pid ''user'';
     mnt \<leftarrow> open_namespace_fd k child_pid ''mnt'';
     (let (stdin_fd, s0) = take_parent_fd (ch_stdin ch);
          (stdout_fd, s1) = take_parent_fd (ch_stdout ch);
          (stderr_fd, s2) = take_parent_fd (ch_stderr ch);
          child = Child_new child_pid pidfd
                    \<lparr>fds_stdin = stdin_fd, fds_stdout = stdout_fd, fds_stderr = stderr_fd\<rparr>
                    cgroup (ch_proxy ch) \<lparr>nsfd_user = user, nsfd_mnt = mnt\<rparr>
      in do {
           AutoCloseFd_drop k (ch_error_write ch);
           AutoCloseFd_drop k (ch_ready_write ch);
           AutoCloseFd_drop k (ch_error_read ch);
           AutoCloseFd_drop k (ch_ready_read ch);
           drop_streams k None s0 s1 s2;
           State_Monad.return (child, diag)
         })
   }"

text \<open>A step that ends the function with its error.\<close>

definition attempt :: "'a result option prog \<Rightarrow> ('a \<Rightarrow> 'b result option prog) \<Rightarrow> 'b result option prog" where
  "attempt m f = obind m (\<lambda>r. case r of Inl e \<Rightarrow> State_Monad.return (Some (Inl e)) | Inr x \<Rightarrow> f x)"

definition after_clone ::
  "nat \<Rightarrow> nat \<Rightarrow> kernel \<Rightarrow> PreparedSandbox \<Rightarrow> channels \<Rightarrow> i32 \<Rightarrow> (Child \<times> LimitDiagnostics) result option prog" where
  "after_clone m n k prep ch child_pid =
     attempt (close_child_side n k child_pid ch) (\<lambda>ch.
     attempt (parent_invariants n k prep child_pid ch) (\<lambda>(cgroup, diag).
     attempt (release_child n k child_pid cgroup ch) (\<lambda>ch.
     attempt (await_setup m n k child_pid cgroup ch) (\<lambda>ch.
       lift_prog (hand_over k child_pid cgroup diag ch \<bind> (\<lambda>x. State_Monad.return (Inr x)))))))"

text \<open>The whole protocol; the cloned child runs \<open>exec_sandboxed\<close> on \<open>payload_of prep ch envp\<close>.\<close>

definition run_prepared ::
  "nat \<Rightarrow> nat \<Rightarrow> kernel \<Rightarrow> host \<Rightarrow> PreparedSandbox \<Rightarrow> (Child \<times> LimitDiagnostics) result option prog" where
  "run_prepared m n k h prep =
     attempt (lift_prog (open_channels k h prep)) (\<lambda>ch.
       case envp_of h prep (ch_proxy ch) of
         Inl e \<Rightarrow> lift_prog (drop_channels k ch \<bind> (\<lambda>_. State_Monad.return (Inl e)))
       | Inr envp \<Rightarrow>
           obind (lift_prog (raw_call k (CloneChild (prep_clone_flags prep)))) (\<lambda>pid.
             if pid < 0
             then lift_prog (drop_channels k ch \<bind> (\<lambda>_. State_Monad.return (Inl (SandboxError_new ErrorKind.Exec
                    (''clone sandboxed process: '' @ k_nix_errno k (- pid))))))
             else after_clone m n k prep ch (of_int pid)))"

section \<open>Ownership of descriptors\<close>

text \<open>A pipe's descriptors are not negative.\<close>

definition pipes_valid :: "kernel \<Rightarrow> bool" where
  "pipes_valid k \<longleftrightarrow> (\<forall>h b r w. k_pipe k h b = Inr (r, w) \<longrightarrow> 0 \<le> r \<and> 0 \<le> w)"

text \<open>What a step leaves: its result when it succeeds, nothing when it fails.\<close>

definition fd_post :: "('a \<Rightarrow> int multiset) \<Rightarrow> int multiset \<Rightarrow> 'a result \<Rightarrow> int multiset \<Rightarrow> bool" where
  "fd_post own H r H' \<longleftrightarrow> (case r of Inl _ \<Rightarrow> H' = H | Inr x \<Rightarrow> H' = own x + H)"

lemma fd_post_simps [simp]: "fd_post own H (Inl e) H' \<longleftrightarrow> H' = H" "fd_post own H (Inr x) H' \<longleftrightarrow> H' = own x + H"
  by (simp_all add: fd_post_def)

definition own_streams :: "StdioSlot \<Rightarrow> StdioSlot \<Rightarrow> StdioSlot \<Rightarrow> int multiset" where
  "own_streams s0 s1 s2 = own_slot s2 + own_slot s1 + own_slot s0"

definition own_channels :: "channels \<Rightarrow> int multiset" where
  "own_channels ch = own_guard (ch_error_write ch) + own_guard (ch_error_read ch) + own_guard (ch_ready_write ch)
     + own_guard (ch_ready_read ch) + own_streams (ch_stdin ch) (ch_stdout ch) (ch_stderr ch)"

lemma keeps_drop_streams: "keeps fd_step (own_streams s0 s1 s2 + H) (drop_streams k p s0 s1 s2) (\<lambda>_ H'. H' = H)"
  unfolding drop_streams_def own_streams_def add.assoc
  by (intro keeps_seq [OF keeps_drop_slot] keeps_quiet emits_drop_proxy refl)

lemma keeps_drop_channels: "keeps fd_step (own_channels ch + H) (drop_channels k ch) (\<lambda>_ H'. H' = H)"
  unfolding drop_channels_def own_channels_def add.assoc
  by (intro keeps_seq [OF keeps_guard_drop] keeps_drop_streams)

lemma keeps_drop_after_clone: "keeps fd_step (own_channels ch + H) (drop_after_clone k cg ch) (\<lambda>_ H'. H' = H)"
proof -
  have swap: "own_channels ch = own_guard (ch_error_write ch) + own_guard (ch_ready_write ch) + own_guard (ch_error_read ch)
     + own_guard (ch_ready_read ch) + own_streams (ch_stdin ch) (ch_stdout ch) (ch_stderr ch)"
    by (simp add: own_channels_def ac_simps)
  show ?thesis unfolding drop_after_clone_def swap add.assoc
    by (intro keeps_quiet_bind [OF emits_drop_cgroup_opt] keeps_seq [OF keeps_guard_drop] keeps_drop_streams)
qed

lemma keeps_or_drop:
  assumes "keeps fd_step s m (fd_post own_x H)" and "keeps fd_step H drops (\<lambda>_ H'. H' = G)"
    and "\<And>x. keeps fd_step (own_x x + H) (f x) (fd_post own_y G)"
  shows "keeps fd_step s (or_drop m drops f) (fd_post own_y G)"
  unfolding or_drop_def
  by (rule keeps_bind [OF assms(1)])
    (auto simp: fd_post_def [of own_x] split: sum.splits intro!: keeps_seq [OF assms(2)] keeps_return assms(3))

lemma keeps_named_pipe:
  assumes "pipes_valid k"
  shows "keeps fd_step H (named_pipe k b what) (fd_post (\<lambda>(r, w). own_guard w + own_guard r) H)"
proof -
  have "keeps fd_step H (make_pipe k b) (\<lambda>p H'. H' = (case p of Inl _ \<Rightarrow> H | Inr (r, w) \<Rightarrow> own_guard w + own_guard r + H))"
    unfolding make_pipe_def
  proof (rule keeps_syscall_ans)
    fix h
    show "\<exists>s'. fd_step H (MakePipe b (k_pipe k h b)) = Some s' \<and>
        s' = (case k_pipe k h b of Inl _ \<Rightarrow> H | Inr (r, w) \<Rightarrow> own_guard w + own_guard r + H)"
      using assms by (auto simp: pipes_valid_def fd_step_def own_guard_def split: sum.splits)
  qed
  then show ?thesis unfolding named_pipe_def
    by (rule keeps_bind) (auto intro!: keeps_return split: sum.splits)
qed

lemma keeps_start_proxy: "keeps fd_step H (start_proxy h mode) (fd_post (\<lambda>_. {#}) H)"
proof -
  have "emits (idle fd_step) (start_proxy h mode)"
    unfolding start_proxy_def sleep_ms_def
    by (cases mode) (auto intro!: emits_intros)
  then show ?thesis by (rule keeps_quiet) (simp add: fd_post_def split: sum.splits)
qed

lemma keeps_resolve_post: "keeps fd_step (own_stdio s + H) (resolve k s role) (fd_post own_slot H)"
  using keeps_resolve by (rule keeps_mono) (auto simp: fd_post_def split: sum.splits)

lemma keeps_open_channels:
  assumes "pipes_valid k"
  shows "keeps fd_step (own_stdio (prep_stdin prep) + (own_stdio (prep_stdout prep) + (own_stdio (prep_stderr prep) + H)))
     (open_channels k h prep) (fd_post own_channels H)"
proof -
  note drops = keeps_seq [OF keeps_drop_stdio] keeps_seq [OF keeps_drop_slot] keeps_seq [OF keeps_guard_drop] keeps_drop_stdio
    keeps_drop_streams keeps_quiet_bind [OF emits_drop_proxy] keeps_quiet [OF emits_drop_proxy]
  have own_streams: "own_slot s2 + (own_slot s1 + (own_slot s0 + H)) = own_streams s0 s1 s2 + H" for s0 s1 s2
    by (simp add: own_streams_def add.assoc)
  show ?thesis unfolding open_channels_def
    apply (rule keeps_or_drop [OF keeps_start_proxy])
    subgoal by (intro drops refl)
    apply (simp only: add_0)
    apply (rule keeps_or_drop [OF keeps_resolve_post])
    subgoal by (intro drops refl)
    apply (subst add.left_commute)
    apply (rule keeps_or_drop [OF keeps_resolve_post])
    subgoal by (intro drops refl)
    subgoal for proxy s0 s1
      apply (subst add.left_commute [of "own_slot s0"])
      apply (subst add.left_commute [of "own_slot s1"])
      apply (rule keeps_or_drop [OF keeps_resolve_post])
      subgoal by (intro drops refl)
      apply (simp only: own_streams)
      apply (rule keeps_or_drop [OF keeps_named_pipe [OF assms]])
      subgoal by (intro drops refl)
      apply (clarsimp simp only: split_beta fst_conv snd_conv)
      apply (rule keeps_or_drop [OF keeps_named_pipe [OF assms]])
      subgoal by (simp only: add.assoc) (intro drops refl)
      apply (auto simp: own_channels_def ac_simps intro!: keeps_return)
      done
    done
qed

lemma keeps_attempt:
  assumes "keeps d s m (ends_with_post (\<lambda>r s'. case r of Inl e \<Rightarrow> Q (Inl e) s' | Inr x \<Rightarrow> P x s'))"
    and "\<And>x s'. P x s' \<Longrightarrow> keeps d s' (f x) (ends_with_post Q)"
  shows "keeps d s (attempt m f) (ends_with_post Q)"
  unfolding attempt_def
  by (rule keeps_obind [OF assms(1)]) (auto split: sum.splits intro!: keeps_return assms(2))

lemma keeps_attempt_fd:
  assumes "keeps fd_step s m (ends_with_post (fd_post own_x H))"
    and "\<And>x. keeps fd_step (own_x x + H) (f x) (ends_with_post (fd_post own_y H))"
  shows "keeps fd_step s (attempt m f) (ends_with_post (fd_post own_y H))"
  by (rule keeps_attempt [where P = "\<lambda>x s'. s' = own_x x + H", OF keeps_mono [OF assms(1)]])
    (use assms(2) in \<open>auto simp: ends_with_post_def split: option.splits sum.splits\<close>)

lemma emits_kill_and_reap: "emits (idle fd_step) (kill_and_reap n k pid)"
  unfolding kill_and_reap_def kill_def by (intro emits_intros emits_reap_rounds) simp

lemma keeps_return_error:
  "keeps fd_step (own_channels ch + H) (return_error k cg ch e) (ends_with_post (fd_post own_x H))"
  unfolding return_error_def by (intro keeps_lift keeps_seq [OF keeps_drop_after_clone] keeps_return) simp

text \<open>Taking one guard out of the channels.\<close>

lemma own_channels_guards:
  "own_channels ch = own_guard (ch_ready_read ch) + own_channels (ch\<lparr>ch_ready_read := -1\<rparr>)"
  "own_channels ch = own_guard (ch_ready_write ch) + own_channels (ch\<lparr>ch_ready_write := -1\<rparr>)"
  "own_channels ch = own_guard (ch_error_read ch) + own_channels (ch\<lparr>ch_error_read := -1\<rparr>)"
  "own_channels ch = own_guard (ch_error_write ch) + own_channels (ch\<lparr>ch_error_write := -1\<rparr>)"
  by (simp_all add: own_channels_def ac_simps)

lemma own_channels_closed:
  "own_guard fd = {#} \<Longrightarrow> own_channels (ch\<lparr>ch_ready_read := fd\<rparr>) = own_channels (ch\<lparr>ch_ready_read := -1\<rparr>)"
  "own_guard fd = {#} \<Longrightarrow> own_channels (ch\<lparr>ch_ready_write := fd\<rparr>) = own_channels (ch\<lparr>ch_ready_write := -1\<rparr>)"
  "own_guard fd = {#} \<Longrightarrow> own_channels (ch\<lparr>ch_error_read := fd\<rparr>) = own_channels (ch\<lparr>ch_error_read := -1\<rparr>)"
  "own_guard fd = {#} \<Longrightarrow> own_channels (ch\<lparr>ch_error_write := fd\<rparr>) = own_channels (ch\<lparr>ch_error_write := -1\<rparr>)"
  by (simp_all add: own_channels_def)

lemma keeps_abort:
  "keeps fd_step (own_guard rw + H) (abort_child_startup n k pid rw msg)
     (ends_with_post (\<lambda>(e, rw') H'. H' = H \<and> own_guard rw' = {#}))"
  unfolding abort_child_startup_def
  by (rule keeps_obind [OF keeps_lift [OF keeps_guard_close]])
    (auto intro!: keeps_quiet_obind emits_kill_and_reap keeps_return)

lemma keeps_write_byte:
  "keeps fd_step (own_guard fd + H) (write_byte_and_close n k fd b) (ends_with_post (\<lambda>(r, fd') H'. H' = own_guard fd' + H))"
proof -
  have "emits (idle fd_step) (write_byte_loop n k fd b)"
    by (induction n) (auto simp: write_raw_def raw_call_def intro!: emits_intros)
  then show ?thesis unfolding write_byte_and_close_def
    by (intro keeps_quiet_obind keeps_case_sum keeps_return keeps_lift keeps_mono [OF keeps_guard_close]) auto
qed

lemma keeps_close_slots:
  "keeps fd_step (own_slot a + (own_slot b + (own_slot c + R)))
     (do {
        a \<leftarrow> close_child_fd_in_parent k a;
        b \<leftarrow> close_child_fd_in_parent k b;
        c \<leftarrow> close_child_fd_in_parent k c;
        State_Monad.return (f a b c)
      }) (\<lambda>r H'. \<exists>a b c. r = f a b c \<and> H' = own_slot a + (own_slot b + (own_slot c + R)))"
proof -
  note close = keeps_mono [OF keeps_close_child_fd, where Q = "\<lambda>s' H'. H' = own_slot s' + _"]
  have 3: "keeps fd_step (own_slot a + (own_slot b + (own_slot c + R))) (close_child_fd_in_parent k c \<bind> (\<lambda>c. State_Monad.return (f a b c)))
      (\<lambda>r H'. \<exists>a b c. r = f a b c \<and> H' = own_slot a + (own_slot b + (own_slot c + R)))" for a b
  proof -
    have "own_slot a + (own_slot b + (own_slot c + R)) = own_slot c + (own_slot a + (own_slot b + R))" by (simp add: ac_simps)
    then show ?thesis
      by (simp only:) (rule keeps_bind [OF keeps_close_child_fd], auto intro!: keeps_return exI simp: ac_simps)
  qed
  have 2: "keeps fd_step (own_slot a + (own_slot b + (own_slot c + R)))
      (close_child_fd_in_parent k b \<bind> (\<lambda>b. close_child_fd_in_parent k c \<bind> (\<lambda>c. State_Monad.return (f a b c))))
      (\<lambda>r H'. \<exists>a b c. r = f a b c \<and> H' = own_slot a + (own_slot b + (own_slot c + R)))" for a
    by (subst add.left_commute, rule keeps_bind [OF keeps_close_child_fd], clarify, subst add.left_commute, rule 3)
  show ?thesis by (rule keeps_bind [OF keeps_close_child_fd], clarify, rule 2)
qed

definition own_guards :: "channels \<Rightarrow> int multiset" where
  "own_guards ch = own_guard (ch_error_write ch) + own_guard (ch_error_read ch) + own_guard (ch_ready_write ch)
     + own_guard (ch_ready_read ch)"

lemma own_channels_split:
  "own_channels ch = own_slot (ch_stdin ch) + (own_slot (ch_stdout ch) + (own_slot (ch_stderr ch) + own_guards ch))"
  by (simp add: own_channels_def own_guards_def own_streams_def ac_simps)

lemma keeps_return_error_closed:
  "own_guard fd = {#} \<Longrightarrow> keeps fd_step (own_channels (ch\<lparr>ch_ready_write := -1\<rparr>) + H)
     (return_error k cg (ch\<lparr>ch_ready_write := fd\<rparr>) e) (ends_with_post (fd_post own_x H))"
  "own_guard fd = {#} \<Longrightarrow> keeps fd_step (own_channels (ch\<lparr>ch_error_read := -1\<rparr>) + H)
     (return_error k cg (ch\<lparr>ch_error_read := fd\<rparr>) e) (ends_with_post (fd_post own_x H))"
  by (metis keeps_return_error own_channels_closed(2), metis keeps_return_error own_channels_closed(3))

lemma keeps_abort_channels:
  "keeps fd_step (own_channels ch + H)
     (obind (abort_child_startup n k pid (ch_ready_write ch) msg) (\<lambda>(err, rw). return_error k cg (ch\<lparr>ch_ready_write := rw\<rparr>) err))
     (ends_with_post (fd_post own_x H))"
  by (subst own_channels_guards(2), unfold add.assoc, rule keeps_obind [OF keeps_abort])
    (auto intro: keeps_return_error_closed)

lemma keeps_close_child_side:
  "keeps fd_step (own_channels ch + H) (close_child_side n k pid ch) (ends_with_post (fd_post own_channels H))"
proof -
  have slots: "keeps fd_step (own_channels ch + H) (do {
              s0 \<leftarrow> close_child_fd_in_parent k (ch_stdin ch);
              s1 \<leftarrow> close_child_fd_in_parent k (ch_stdout ch);
              s2 \<leftarrow> close_child_fd_in_parent k (ch_stderr ch);
              State_Monad.return (Inr (ch\<lparr>ch_stdin := s0, ch_stdout := s1, ch_stderr := s2\<rparr>))
            }) (fd_post own_channels H)" for ch
    unfolding own_channels_split [of ch] add.assoc
    by (rule keeps_mono [OF keeps_close_slots]) (auto simp: own_channels_split own_guards_def add.assoc)
  have split: "own_channels ch + H = own_guard (ch_ready_read ch) + (own_guard (ch_error_write ch)
      + (own_channels (ch\<lparr>ch_ready_read := -1, ch_error_write := -1\<rparr>) + H))"
    by (simp add: own_channels_def ac_simps)
  have rest: "keeps fd_step (own_channels (ch\<lparr>ch_ready_read := -1, ch_error_write := -1\<rparr>) + H)
      (let ch = ch\<lparr>ch_ready_read := rr, ch_error_write := ew\<rparr>
       in case r of
            Inl e \<Rightarrow>
              obind (abort_child_startup n k pid (ch_ready_write ch)
                       (''close error pipe write end in parent: '' @ k_nix_errno k e)) (\<lambda>(err, ready_write).
                return_error k None (ch\<lparr>ch_ready_write := ready_write\<rparr>) err)
          | Inr _ \<Rightarrow> lift_prog (do {
              s0 \<leftarrow> close_child_fd_in_parent k (ch_stdin ch);
              s1 \<leftarrow> close_child_fd_in_parent k (ch_stdout ch);
              s2 \<leftarrow> close_child_fd_in_parent k (ch_stderr ch);
              State_Monad.return (Inr (ch\<lparr>ch_stdin := s0, ch_stdout := s1, ch_stderr := s2\<rparr>))
            })) (ends_with_post (fd_post own_channels H))"
    if "own_guard rr = {#}" "own_guard ew = {#}" for r :: "int + unit" and rr ew
  proof -
    have "own_channels (ch\<lparr>ch_ready_read := -1, ch_error_write := -1\<rparr>) = own_channels (ch\<lparr>ch_ready_read := rr, ch_error_write := ew\<rparr>)"
      using that by (simp add: own_channels_def)
    then show ?thesis unfolding Let_def by (simp only:) (intro keeps_case_sum keeps_abort_channels keeps_lift [OF slots])
  qed
  show ?thesis unfolding close_child_side_def split
    by (rule keeps_obind [OF keeps_lift [OF keeps_guard_close]], clarify,
        rule keeps_obind [OF keeps_lift [OF keeps_guard_close]], clarify, rule rest)
qed

lemma keeps_give_up: "keeps fd_step (own_channels ch + H) (give_up_child n k pid ch e) (ends_with_post (fd_post own_x H))"
  unfolding give_up_child_def own_channels_guards(2) [of ch] add.assoc
  by (intro keeps_oseq [OF keeps_lift [OF keeps_guard_drop]] keeps_quiet_obind emits_kill_and_reap keeps_return_error)

lemma keeps_parent_invariants:
  "keeps fd_step (own_channels ch + H) (parent_invariants n k prep pid ch) (ends_with_post (fd_post (\<lambda>_. own_channels ch) H))"
proof -
  have maps: "emits (idle fd_step) (write_mappings k ns pid)" for ns
    unfolding write_mappings_def write_map_def and_then_def fs_write_def by (intro emits_intros) simp_all
  show ?thesis unfolding parent_invariants_def
    by (intro keeps_quiet_obind emits_lift maps emits_configure_cgroup keeps_case_sum keeps_give_up keeps_if keeps_return) auto
qed

lemma keeps_release:
  "keeps fd_step (own_channels ch + H) (release_child n k pid cg ch) (ends_with_post (fd_post own_channels H))"
proof -
  have rest: "keeps fd_step (own_guard rw + (own_channels (ch\<lparr>ch_ready_write := -1\<rparr>) + H))
      (case r of
         Inl e \<Rightarrow>
           obind (abort_child_startup n k pid rw (''signal child to continue: '' @ k_nix_errno k e))
             (\<lambda>(err, ready_write). return_error k cg (ch\<lparr>ch_ready_write := ready_write\<rparr>) err)
       | Inr _ \<Rightarrow> State_Monad.return (Some (Inr (ch\<lparr>ch_ready_write := rw\<rparr>)))) (ends_with_post (fd_post own_channels H))"
    for r :: "int + unit" and rw
  proof -
    have "own_guard rw + (own_channels (ch\<lparr>ch_ready_write := -1\<rparr>) + H) = own_channels (ch\<lparr>ch_ready_write := rw\<rparr>) + H"
      by (simp add: own_channels_def ac_simps)
    moreover note keeps_abort_channels [of "ch\<lparr>ch_ready_write := rw\<rparr>" H n k pid _ cg, simplified]
    ultimately show ?thesis
      by (simp only:) (intro keeps_case_sum keeps_return, blast, simp)
  qed
  show ?thesis unfolding release_child_def
    by (subst own_channels_guards(2), unfold add.assoc, rule keeps_obind [OF keeps_write_byte], clarify, rule rest)
qed

lemma keeps_setup_failed:
  "keeps fd_step (own_channels ch + H) (setup_failed n k pid cg ch e) (ends_with_post (fd_post own_x H))"
  unfolding setup_failed_def
  by (subst own_channels_guards(3), unfold add.assoc, rule keeps_obind [OF keeps_lift [OF keeps_guard_close]], clarify)
    (intro keeps_quiet_obind emits_kill_and_reap keeps_return_error_closed)

lemma emits_read_retry: "emits (idle fd_step) (read_retry n k fd len)"
  by (induction n) (auto simp: read_raw_def read_fd_def intro!: emits_intros)

lemma keeps_await_setup:
  "keeps fd_step (own_channels ch + H) (await_setup m n k pid cg ch) (ends_with_post (fd_post own_channels H))"
proof -
  have frame: "emits (idle fd_step) (read_frame m n k fd fr)" for fd fr
    by (induction m arbitrary: fr) (auto intro!: emits_intros emits_read_retry split: list.splits)
  have close: "keeps fd_step (own_channels ch + H) (AutoCloseFd_close k (ch_error_read ch) \<bind> (\<lambda>(_, error_read).
               State_Monad.return (Inr (ch\<lparr>ch_error_read := error_read\<rparr>)))) (fd_post own_channels H)"
    by (subst own_channels_guards(3), unfold add.assoc, rule keeps_bind [OF keeps_guard_close])
      (auto intro!: keeps_return simp: own_channels_def)
  show ?thesis unfolding await_setup_def
    by (intro keeps_quiet_obind emits_read_retry keeps_case_sum keeps_if keeps_lift close frame keeps_setup_failed)
qed

lemma keeps_open_query:
  "keeps fd_step H (try_pidfd_open k pid) (\<lambda>fd H'. H' = own_opt fd + H)"
  "keeps fd_step H (open_namespace_fd k pid ns) (\<lambda>fd H'. H' = own_opt fd + H)"
  unfolding try_pidfd_open_def open_namespace_fd_def raw_call_def
  by (rule keeps_bind [OF keeps_syscall [where Q = "\<lambda>fd H'. H' = own_guard fd + H"]];
      auto simp: fd_step_def own_guard_def intro!: keeps_return)+

lemma keeps_hand_over:
  assumes closed: "own_guards ch = {#}" and taken: "\<not> close_in_parent (ch_stdin ch)" "\<not> close_in_parent (ch_stdout ch)"
    "\<not> close_in_parent (ch_stderr ch)"
  shows "keeps fd_step (own_channels ch + H) (hand_over k pid cg diag ch) (\<lambda>(c, _) H'. H' = own_child c + H)"
proof -
  have guards: "own_guard (ch_error_write ch) = {#}" "own_guard (ch_ready_write ch) = {#}" "own_guard (ch_error_read ch) = {#}"
    "own_guard (ch_ready_read ch) = {#}" using closed by (auto simp: own_guards_def)
  have drop: "keeps fd_step G (AutoCloseFd_drop k fd) (\<lambda>_ H'. H' = G)" if "own_guard fd = {#}" for fd G
    using keeps_guard_drop [where H = G and fd = fd] that by simp
  have slot: "own_slot (snd (take_parent_fd s)) = {#}" if "\<not> close_in_parent s" for s
    using that by (simp add: take_parent_fd_def own_slot_def)
  have streams: "keeps fd_step G (drop_streams k None (snd (take_parent_fd (ch_stdin ch))) (snd (take_parent_fd (ch_stdout ch)))
      (snd (take_parent_fd (ch_stderr ch)))) (\<lambda>_ H'. H' = G)" for G
    using keeps_drop_streams [of "snd (take_parent_fd (ch_stdin ch))" "snd (take_parent_fd (ch_stdout ch))"
        "snd (take_parent_fd (ch_stderr ch))" G k None]
    by (simp add: own_streams_def slot taken)
  have own: "own_channels ch = own_opt (parent_fd (ch_stdin ch)) + (own_opt (parent_fd (ch_stdout ch)) + own_opt (parent_fd (ch_stderr ch)))"
    using taken closed by (simp add: own_channels_split own_slot_def)
  show ?thesis unfolding hand_over_def Let_def split_beta
    by (rule keeps_bind [OF keeps_open_query(1)], clarify, rule keeps_bind [OF keeps_open_query(2)], clarify,
        rule keeps_bind [OF keeps_open_query(2)], clarify,
        intro keeps_seq [OF drop] keeps_seq [OF streams] keeps_return guards)
      (simp add: own own_child_def Child_new_def take_parent_fd_def ac_simps)
qed

text \<open>What the steps leave closed.\<close>

definition child_side_closed :: "channels \<Rightarrow> bool" where
  "child_side_closed ch \<longleftrightarrow> own_guard (ch_ready_read ch) = {#} \<and> own_guard (ch_error_write ch) = {#}
     \<and> \<not> close_in_parent (ch_stdin ch) \<and> \<not> close_in_parent (ch_stdout ch) \<and> \<not> close_in_parent (ch_stderr ch)"

lemma guard_close_result: "run_state (AutoCloseFd_close k fd) w = ((r, fd'), w') \<Longrightarrow> own_guard fd' = {#}"
  by (auto simp: AutoCloseFd_close_def run_simps own_guard_def split: if_splits)

lemma close_child_fd_result:
  "run_state (close_child_fd_in_parent k s) w = (s', w') \<Longrightarrow> \<not> close_in_parent s' \<and> parent_fd s' = parent_fd s"
  by (auto simp: close_child_fd_in_parent_def run_simps split: if_splits)

lemma return_error_result: "run_state (return_error k cg ch e) w = (r, w') \<Longrightarrow> r = Some (Inl e)"
  by (auto simp: return_error_def run_simps)

lemma close_child_side_result:
  "run_state (close_child_side n k pid ch) w = (Some (Inr ch'), w') \<Longrightarrow>
     child_side_closed ch' \<and> ch_ready_write ch' = ch_ready_write ch \<and> ch_error_read ch' = ch_error_read ch \<and> ch_proxy ch' = ch_proxy ch"
  by (auto simp: close_child_side_def child_side_closed_def Let_def run_simps
      dest!: guard_close_result close_child_fd_result return_error_result)

lemma release_result:
  "run_state (release_child n k pid cg ch) w = (Some (Inr ch'), w') \<Longrightarrow>
     \<exists>fd. ch' = ch\<lparr>ch_ready_write := fd\<rparr> \<and> own_guard fd = {#}"
  by (auto simp: release_child_def write_byte_and_close_def run_simps dest!: guard_close_result return_error_result)

lemma await_result:
  "run_state (await_setup m n k pid cg ch) w = (Some (Inr ch'), w') \<Longrightarrow>
     \<exists>fd. ch' = ch\<lparr>ch_error_read := fd\<rparr> \<and> own_guard fd = {#}"
  by (auto simp: await_setup_def setup_failed_def run_simps split: if_splits dest!: guard_close_result return_error_result)

lemma keeps_and_result:
  assumes "keeps d s m Q" "\<And>w r w'. run_state m w = (r, w') \<Longrightarrow> I r"
  shows "keeps d s m (\<lambda>r s'. Q r s' \<and> I r)"
  using assms unfolding keeps_def by meson

lemma keeps_attempt_fd_result:
  assumes "keeps fd_step s m (ends_with_post (fd_post own_x H))"
    and "\<And>w x w'. run_state m w = (Some (Inr x), w') \<Longrightarrow> I x"
    and "\<And>x. I x \<Longrightarrow> keeps fd_step (own_x x + H) (f x) (ends_with_post (fd_post own_y H))"
  shows "keeps fd_step s (attempt m f) (ends_with_post (fd_post own_y H))"
proof (rule keeps_attempt [where P = "\<lambda>x s'. s' = own_x x + H \<and> I x"])
  have "keeps fd_step s m (\<lambda>r s'. ends_with_post (fd_post own_x H) r s' \<and> (\<forall>x. r = Some (Inr x) \<longrightarrow> I x))"
    by (rule keeps_and_result [OF assms(1)]) (use assms(2) in blast)
  then show "keeps fd_step s m (ends_with_post (\<lambda>r s'. case r of Inl e \<Rightarrow> fd_post own_y H (Inl e) s' | Inr x \<Rightarrow> s' = own_x x + H \<and> I x))"
    by (rule keeps_mono) (auto simp: ends_with_post_def fd_post_def split: option.splits sum.splits)
qed (use assms(3) in auto)

lemma keeps_after_clone:
  "keeps fd_step (own_channels ch + H) (after_clone m n k prep ch pid) (ends_with_post (fd_post (\<lambda>(c, _). own_child c) H))"
  unfolding after_clone_def
proof (rule keeps_attempt_fd_result [OF keeps_close_child_side, where I = child_side_closed])
  fix ch assume closed: "child_side_closed ch"
  show "keeps fd_step (own_channels ch + H) (attempt (parent_invariants n k prep pid ch) (\<lambda>(cgroup, diag).
     attempt (release_child n k pid cgroup ch) (\<lambda>ch. attempt (await_setup m n k pid cgroup ch) (\<lambda>ch.
       lift_prog (hand_over k pid cgroup diag ch \<bind> (\<lambda>x. State_Monad.return (Inr x)))))))
     (ends_with_post (fd_post (\<lambda>(c, _). own_child c) H))"
  proof (rule keeps_attempt_fd [OF keeps_parent_invariants], clarify)
    fix cg diag
    show "keeps fd_step (own_channels ch + H) (attempt (release_child n k pid cg ch) (\<lambda>ch. attempt (await_setup m n k pid cg ch) (\<lambda>ch.
       lift_prog (hand_over k pid cg diag ch \<bind> (\<lambda>x. State_Monad.return (Inr x))))))
     (ends_with_post (fd_post (\<lambda>(c, _). own_child c) H))"
    proof (rule keeps_attempt_fd_result [OF keeps_release, where I = "\<lambda>ch. child_side_closed ch \<and> own_guard (ch_ready_write ch) = {#}"])
      fix ch assume closed: "child_side_closed ch \<and> own_guard (ch_ready_write ch) = {#}"
      show "keeps fd_step (own_channels ch + H) (attempt (await_setup m n k pid cg ch) (\<lambda>ch.
         lift_prog (hand_over k pid cg diag ch \<bind> (\<lambda>x. State_Monad.return (Inr x)))))
       (ends_with_post (fd_post (\<lambda>(c, _). own_child c) H))"
      proof (rule keeps_attempt_fd_result [OF keeps_await_setup,
            where I = "\<lambda>ch. child_side_closed ch \<and> own_guards ch = {#}"])
        fix ch assume "child_side_closed ch \<and> own_guards ch = {#}"
        then have "keeps fd_step (own_channels ch + H) (hand_over k pid cg diag ch) (\<lambda>(c, _) H'. H' = own_child c + H)"
          by (intro keeps_hand_over) (auto simp: child_side_closed_def)
        then show "keeps fd_step (own_channels ch + H) (lift_prog (hand_over k pid cg diag ch \<bind> (\<lambda>x. State_Monad.return (Inr x))))
          (ends_with_post (fd_post (\<lambda>(c, _). own_child c) H))"
          by (intro keeps_lift) (rule keeps_bind, assumption, auto intro!: keeps_return)
      qed (use closed in \<open>auto dest!: await_result simp: child_side_closed_def own_guards_def\<close>)
    qed (use closed in \<open>auto dest!: release_result simp: child_side_closed_def\<close>)
  qed
qed (auto dest: close_child_side_result)

text \<open>The descriptors that a request hands over to the protocol.\<close>

definition own_prep :: "PreparedSandbox \<Rightarrow> int multiset" where
  "own_prep prep = own_stdio (prep_stdin prep) + own_stdio (prep_stdout prep) + own_stdio (prep_stderr prep)"

lemma keeps_run_prepared:
  assumes "pipes_valid k"
  shows "keeps fd_step (own_prep prep + H) (run_prepared m n k h prep) (ends_with_post (fd_post (\<lambda>(c, _). own_child c) H))"
proof -
  have drop: "keeps fd_step (own_channels ch + H) (lift_prog (drop_channels k ch \<bind> (\<lambda>_. State_Monad.return (Inl e))))
      (ends_with_post (fd_post own_x H))" for ch e own_x
    by (intro keeps_lift keeps_seq [OF keeps_drop_channels] keeps_return) simp
  have clone: "emits (idle fd_step) (lift_prog (raw_call k (CloneChild fl)))" for fl
    unfolding raw_call_def by (intro emits_intros) simp
  show ?thesis unfolding run_prepared_def own_prep_def add.assoc
    by (intro keeps_attempt_fd [OF keeps_lift [OF keeps_open_channels [OF assms]]] keeps_case_sum drop
        keeps_quiet_obind [OF clone] keeps_if keeps_after_clone)
qed

end
