(* ===== verification/Spawn_Order.thy ===== *)
theory Spawn_Order
  imports Protocol
begin

text \<open>
  The order of a spawn: nothing is written to a pipe before the id maps are written and the cgroup is
  configured, and a spawn that fails after the clone kills the child.
\<close>

section \<open>Quiet steps\<close>

text \<open>Events that neither clone nor write to a descriptor.\<close>

fun quiet_event :: "event \<Rightarrow> bool" where
  "quiet_event (Raw (CloneChild _) _) = False"
| "quiet_event (Raw (WriteFd _ _) _) = False"
| "quiet_event _ = True"

lemma file_event_quiet: "file_event e \<Longrightarrow> quiet_event e"
  by (cases e) simp_all

lemma quiet_drops:
  "emits quiet_event (drop_fd k fd)" "emits quiet_event (AutoCloseFd_close k g)" "emits quiet_event (AutoCloseFd_drop k g)"
  "emits quiet_event (drop_stdio k s)" "emits quiet_event (drop_slot k sl)" "emits quiet_event (drop_proxy p)"
  "emits quiet_event (drop_cgroup_opt k cg)" "emits quiet_event (close_child_fd_in_parent k sl)"
proof -
  show fd: "emits quiet_event (drop_fd k fd)" for fd
    unfolding drop_fd_def close_raw_def raw_call_def by (intro emits_intros) simp
  show close: "emits quiet_event (AutoCloseFd_close k g)"
    unfolding AutoCloseFd_close_def close_raw_def raw_call_def by (intro emits_intros) simp
  then show "emits quiet_event (AutoCloseFd_drop k g)" unfolding AutoCloseFd_drop_def by (intro emits_intros)
  show "emits quiet_event (drop_stdio k s)" unfolding drop_stdio_def by (cases s) (auto intro: fd emits_return)
  show "emits quiet_event (drop_slot k sl)" unfolding drop_slot_def by (intro emits_intros fd)
  show "emits quiet_event (drop_proxy p)" unfolding drop_proxy_def by (intro emits_intros) simp
  show "emits quiet_event (drop_cgroup_opt k cg)" unfolding drop_cgroup_opt_def
    by (intro emits_intros emits_weaken [OF drop_cgroup_files file_event_quiet])
  show "emits quiet_event (close_child_fd_in_parent k sl)" unfolding close_child_fd_in_parent_def by (intro emits_intros fd)
qed

lemma quiet_waits:
  "emits quiet_event (waitpid_retry n k pid b)" "emits quiet_event (kill_and_reap n k pid)" "emits quiet_event (read_retry n k fd len)"
proof -
  show w: "emits quiet_event (waitpid_retry n k pid b)" for b
    by (induction n) (auto simp: waitpid_def intro!: emits_intros)
  have "emits quiet_event (reap_rounds n i k pid)" for i
    by (induction i) (auto simp: sleep_ms_def intro!: emits_intros w)
  then show "emits quiet_event (kill_and_reap n k pid)"
    unfolding kill_and_reap_def kill_def by (intro emits_intros) simp
  show "emits quiet_event (read_retry n k fd len)"
    by (induction n) (auto simp: read_raw_def read_fd_def intro!: emits_intros)
qed

lemma quiet_streams: "emits quiet_event (drop_streams k p s0 s1 s2)"
  unfolding drop_streams_def by (intro emits_intros quiet_drops)

lemma quiet_returns:
  "emits quiet_event (return_error k cg ch e)" "emits quiet_event (drop_channels k ch)"
  "emits quiet_event (abort_child_startup n k pid rw msg)"
  unfolding return_error_def drop_after_clone_def drop_channels_def abort_child_startup_def
  by (intro emits_intros quiet_drops quiet_streams quiet_waits)+

lemma quiet_open_channels: "emits quiet_event (open_channels k h prep)"
proof -
  have proxy: "emits quiet_event (start_proxy h mode)" for mode
    unfolding start_proxy_def sleep_ms_def by (cases mode) (auto intro!: emits_intros)
  have res: "emits quiet_event (resolve k s role)" for s role
    unfolding resolve_def raw_call_def make_pipe_def by (cases s) (auto intro!: emits_intros quiet_drops)
  have pipe: "emits quiet_event (named_pipe k b what)" for b what
    unfolding named_pipe_def make_pipe_def by (intro emits_intros) simp
  show ?thesis unfolding open_channels_def or_drop_def
    by (intro emits_intros proxy res pipe quiet_drops quiet_streams)
qed

lemma quiet_close_child_side: "emits quiet_event (close_child_side n k pid ch)"
  unfolding close_child_side_def Let_def by (intro emits_intros quiet_drops quiet_returns)

lemma quiet_parent_invariants: "emits quiet_event (parent_invariants n k prep pid ch)"
  unfolding parent_invariants_def give_up_child_def write_mappings_def write_map_def and_then_def fs_write_def
  by (intro emits_intros quiet_drops quiet_returns quiet_waits emits_weaken [OF configure_cgroup_files file_event_quiet]) simp_all

lemma quiet_await: "emits quiet_event (await_setup m n k pid cg ch)"
proof -
  have "emits quiet_event (read_frame m n k fd fr)" for fd fr
    by (induction m arbitrary: fr) (auto intro!: emits_intros quiet_waits split: list.splits)
  then show ?thesis unfolding await_setup_def setup_failed_def by (intro emits_intros quiet_drops quiet_returns quiet_waits)
qed

lemma quiet_hand_over: "emits quiet_event (hand_over k pid cg diag ch)"
  unfolding hand_over_def try_pidfd_open_def open_namespace_fd_def raw_call_def Let_def
  by (intro emits_intros quiet_drops quiet_streams) simp_all

text \<open>The step that releases the child writes nothing but the ready byte.\<close>

definition ready_event :: "int \<Rightarrow> event \<Rightarrow> bool" where
  "ready_event fd e \<longleftrightarrow> quiet_event e \<or> (\<exists>x. e = Raw (WriteFd fd [0]) x)"

lemma release_events: "emits (ready_event (ch_ready_write ch)) (release_child n k pid cg ch)"
proof -
  have "emits (ready_event fd) (write_byte_loop n k fd 0)" for fd
    by (induction n) (auto simp: write_raw_def raw_call_def ready_event_def intro!: emits_intros)
  moreover have "emits (ready_event fd) (AutoCloseFd_close k g)" for fd g
    by (rule emits_weaken [OF quiet_drops(2)]) (simp add: ready_event_def)
  moreover have "emits (ready_event fd) (abort_child_startup n k pid rw msg)" for fd rw msg
    by (rule emits_weaken [OF quiet_returns(3)]) (simp add: ready_event_def)
  moreover have "emits (ready_event fd) (return_error k cg ch e :: channels result option prog)" for fd ch e
    by (rule emits_weaken [OF quiet_returns(1)]) (simp add: ready_event_def)
  ultimately show ?thesis unfolding release_child_def write_byte_and_close_def by (intro emits_intros)
qed

section \<open>The ready byte\<close>

lemma run_attempt_iff [run_simps]:
  "run_state (attempt m f) w = (r, w'') \<longleftrightarrow>
     (run_state m w = (None, w'') \<and> r = None)
     \<or> (\<exists>e. run_state m w = (Some (Inl e), w'') \<and> r = Some (Inl e))
     \<or> (\<exists>x w'. run_state m w = (Some (Inr x), w') \<and> run_state (f x) w' = (r, w''))"
  by (auto simp: attempt_def run_simps)

definition writes_fd :: "event \<Rightarrow> bool" where
  "writes_fd e \<longleftrightarrow> (\<exists>fd data x. e = Raw (WriteFd fd data) x)"

lemma quiet_not_writes: "quiet_event e \<Longrightarrow> \<not> writes_fd e"
  by (auto simp: writes_fd_def)

lemma quiet_list: "list_all quiet_event es \<Longrightarrow> list_all (\<lambda>e. \<not> writes_fd e) es"
  using quiet_not_writes by (auto simp: list_all_iff)

abbreviation map_events :: "kernel \<Rightarrow> PreparedSandbox \<Rightarrow> i32 \<Rightarrow> event list" where
  "map_events k prep pid \<equiv> map (\<lambda>(p, v). WriteFile p v (Inr ())) (mapping_writes k (prep_user_ns prep) pid)"

text \<open>The cgroup was configured, when a limit asks for one, by exactly these events.\<close>

definition cgroup_configured :: "kernel \<Rightarrow> PreparedSandbox \<Rightarrow> i32 \<Rightarrow> event list \<Rightarrow> event list \<Rightarrow> bool" where
  "cgroup_configured k prep pid h es \<longleftrightarrow>
     (if config_needs_cgroup (prep_config prep)
      then \<exists>v v' res. trace v = h \<and> trace v' = h @ es
        \<and> run_state (configure_cgroup k (prep_config prep) (LimitPlan_from (prep_config prep) (prep_policy prep))
             (''libsandbox-'' @ show_int (sint pid)) pid) v = (Inr res, v')
      else es = [])"

lemma give_up_result: "run_state (give_up_child n k pid ch e) w = (r, w') \<Longrightarrow> r = None \<or> r = Some (Inl e)"
  by (auto simp: give_up_child_def run_simps dest!: return_error_result)

lemma parent_invariants_ok:
  assumes "run_state (parent_invariants n k prep pid ch) w = (Some (Inr x), w')"
  shows "\<exists>es. trace w' = trace w @ map_events k prep pid @ es \<and> cgroup_configured k prep pid (trace w @ map_events k prep pid) es
     \<and> list_all (\<lambda>e. \<not> writes_fd e) es"
proof -
  obtain u v where 1: "run_state (write_mappings k (prep_user_ns prep) pid) w = (Inr u, v)"
    and 2: "run_state (if config_needs_cgroup (prep_config prep)
           then obind (lift_prog (configure_cgroup k (prep_config prep) (LimitPlan_from (prep_config prep) (prep_policy prep))
                         (''libsandbox-'' @ show_int (sint pid)) pid)) (\<lambda>r.
                  case r of
                    Inl e \<Rightarrow> give_up_child n k pid ch e
                  | Inr x \<Rightarrow> State_Monad.return (Some (Inr x)))
           else State_Monad.return (Some (Inr (None, no_limits)))) v = (Some (Inr x), w')"
    using assms by (auto simp: parent_invariants_def run_obind_iff run_lift_iff run_case_sum_iff dest!: give_up_result)
  have v: "trace v = trace w @ map_events k prep pid" by (rule write_mappings_ok [OF 1])
  show ?thesis
  proof (cases "config_needs_cgroup (prep_config prep)")
    case True
    then have run: "run_state (configure_cgroup k (prep_config prep) (LimitPlan_from (prep_config prep) (prep_policy prep))
          (''libsandbox-'' @ show_int (sint pid)) pid) v = (Inr x, w')"
      using 2 by (auto simp: run_simps dest!: give_up_result)
    from emits_run [OF configure_cgroup_files this] obtain es where es: "trace w' = trace v @ es" "list_all file_event es" by blast
    then have "list_all (\<lambda>e. \<not> writes_fd e) es"
      using file_event_quiet quiet_not_writes by (auto simp: list_all_iff)
    moreover have "cgroup_configured k prep pid (trace w @ map_events k prep pid) es"
      unfolding cgroup_configured_def using True run v es(1) by auto
    ultimately show ?thesis using v es(1) by auto
  next
    case False
    then have "w' = v" using 2 by (simp add: run_simps)
    then show ?thesis using v False by (auto simp: cgroup_configured_def)
  qed
qed

lemma silent_contra: "list_all (\<lambda>e. \<not> writes_fd e) es \<Longrightarrow> Raw (WriteFd fd data) x \<in> set es \<Longrightarrow> False"
  by (auto simp: list_all_iff writes_fd_def)

lemma after_clone_writes:
  assumes run: "run_state (after_clone m n k prep ch pid) w = (r, w')"
    and wr: "trace w' = trace w @ es" "Raw (WriteFd fd data) x \<in> set es"
  shows "\<exists>pre cg rest. es = pre @ map_events k prep pid @ cg @ rest \<and> list_all (\<lambda>e. \<not> writes_fd e) (pre @ cg)
     \<and> cgroup_configured k prep pid (trace w @ pre @ map_events k prep pid) cg \<and> data = [0] \<and> fd = ch_ready_write ch"
proof -
  note quiet = emits_run [OF quiet_close_child_side] emits_run [OF quiet_parent_invariants]
  have no: "\<not> list_all quiet_event es" using wr(2) by (auto simp: list_all_iff intro!: bexI [of _ "Raw (WriteFd fd data) x"])
  have not1: "run_state (close_child_side n k pid ch) w \<noteq> (c, w')" for c
    using quiet(1) [of n k pid ch w c w'] no wr(1) by auto
  obtain ch1 w1 where 1: "run_state (close_child_side n k pid ch) w = (Some (Inr ch1), w1)"
    and r1: "run_state (attempt (parent_invariants n k prep pid ch1) (\<lambda>(cgroup, diag).
     attempt (release_child n k pid cgroup ch1) (\<lambda>ch. attempt (await_setup m n k pid cgroup ch) (\<lambda>ch.
       lift_prog (hand_over k pid cgroup diag ch \<bind> (\<lambda>x. State_Monad.return (Inr x))))))) w1 = (r, w')"
    using run not1 unfolding after_clone_def run_attempt_iff by blast
  obtain e1 where e1: "trace w1 = trace w @ e1" "list_all quiet_event e1" using quiet(1) [OF 1] by blast
  have fd: "ch_ready_write ch1 = ch_ready_write ch" using close_child_side_result [OF 1] by simp
  have no1: "\<not> (\<exists>e2. trace w' = trace w1 @ e2 \<and> list_all quiet_event e2)" using no e1 wr(1) by auto
  have not2: "run_state (parent_invariants n k prep pid ch1) w1 \<noteq> (c, w')" for c
    using quiet(2) [of n k prep pid ch1 w1 c w'] no1 by auto
  obtain cgr diag w2 where 2: "run_state (parent_invariants n k prep pid ch1) w1 = (Some (Inr (cgr, diag)), w2)"
    and r2: "run_state (attempt (release_child n k pid cgr ch1) (\<lambda>ch. attempt (await_setup m n k pid cgr ch) (\<lambda>ch.
       lift_prog (hand_over k pid cgr diag ch \<bind> (\<lambda>x. State_Monad.return (Inr x)))))) w2 = (r, w')"
    using iffD1 [OF run_attempt_iff r1] not2 by auto
  obtain e2 where e2: "trace w2 = trace w1 @ map_events k prep pid @ e2" "list_all (\<lambda>e. \<not> writes_fd e) e2"
      "cgroup_configured k prep pid (trace w1 @ map_events k prep pid) e2"
    using parent_invariants_ok [OF 2] by blast
  have "emits (ready_event (ch_ready_write ch1)) (await_setup m n k pid cgr c)" for c
    by (rule emits_weaken [OF quiet_await]) (simp add: ready_event_def)
  moreover have "emits (ready_event (ch_ready_write ch1)) (hand_over k pid cgr diag c)" for c
    by (rule emits_weaken [OF quiet_hand_over]) (simp add: ready_event_def)
  ultimately have "emits (ready_event (ch_ready_write ch1)) (attempt (release_child n k pid cgr ch1) (\<lambda>ch. attempt (await_setup m n k pid cgr ch) (\<lambda>ch.
       lift_prog (hand_over k pid cgr diag ch \<bind> (\<lambda>x. State_Monad.return (Inr x))))))"
    unfolding attempt_def by (intro emits_intros release_events)
  from emits_run [OF this r2] obtain e3 where e3: "trace w' = trace w2 @ e3" "list_all (ready_event (ch_ready_write ch1)) e3" by blast
  have es: "es = e1 @ map_events k prep pid @ e2 @ e3" using wr(1) e1(1) e2(1) e3(1) by simp
  have maps: "Raw (WriteFd fd data) x \<notin> set (map_events k prep pid)" by (auto simp: mapping_writes_def)
  have "Raw (WriteFd fd data) x \<notin> set e1" "Raw (WriteFd fd data) x \<notin> set e2"
    using silent_contra [OF quiet_list [OF e1(2)]] silent_contra [OF e2(2)] by blast+
  then have "Raw (WriteFd fd data) x \<in> set e3" using wr(2) es maps by simp
  then have "data = [0]" "fd = ch_ready_write ch" using e3(2) fd by (auto simp: list_all_iff ready_event_def)
  then show ?thesis using es e1 e2(2,3) quiet_list [OF e1(2)] by (intro exI conjI) auto
qed

text \<open>A spawn either ends with an error before a child exists, or runs the part after the clone.\<close>

definition unlaunched :: "event \<Rightarrow> bool" where
  "unlaunched e \<longleftrightarrow> quiet_event e \<or> (\<exists>fl p. p < 0 \<and> e = Raw (CloneChild fl) p)"

lemma unlaunched_list: "list_all quiet_event es \<Longrightarrow> list_all unlaunched es"
  by (auto simp: list_all_iff unlaunched_def)

lemma run_prepared_cloned:
  assumes run: "run_state (run_prepared m n k h prep) w = (r, w')"
  shows "(\<exists>es e. trace w' = trace w @ es \<and> list_all unlaunched es \<and> r = Some (Inl e))
    \<or> (\<exists>ch pid pre v. 0 \<le> pid \<and> trace v = trace w @ pre @ [Raw (CloneChild (prep_clone_flags prep)) pid]
         \<and> list_all quiet_event pre \<and> run_state (after_clone m n k prep ch (of_int pid)) v = (r, w'))"
proof -
  obtain c w1 where 1: "run_state (open_channels k h prep) w = (c, w1)" by force
  obtain e1 where e1: "trace w1 = trace w @ e1" "list_all quiet_event e1" using emits_run [OF quiet_open_channels 1] by blast
  have drop: "\<exists>es e. trace w' = trace w @ es \<and> list_all unlaunched es \<and> r = Some (Inl e)"
    if "run_state (lift_prog (drop_channels k ch \<bind> (\<lambda>_. State_Monad.return (Inl x)))) v = (r, w')"
      "trace v = trace w @ pre" "list_all unlaunched pre" for ch x v pre
  proof -
    have "emits quiet_event (lift_prog (drop_channels k ch \<bind> (\<lambda>_. State_Monad.return (Inl x :: (Child \<times> LimitDiagnostics) result))))"
      by (intro emits_intros quiet_returns)
    from emits_run [OF this that(1)] obtain es where "trace w' = trace v @ es" "list_all quiet_event es" by blast
    moreover have "r = Some (Inl x)" using that(1) by (auto simp: run_simps)
    ultimately show ?thesis using that(2,3) unlaunched_list by (intro exI [of _ "pre @ es"] exI [of _ x]) simp
  qed
  show ?thesis
  proof (cases c)
    case (Inl e)
    then show ?thesis using run 1 e1 unlaunched_list by (auto simp: run_prepared_def run_simps)
  next
    case (Inr ch)
    then have r1: "run_state (case envp_of h prep (ch_proxy ch) of
         Inl e \<Rightarrow> lift_prog (drop_channels k ch \<bind> (\<lambda>_. State_Monad.return (Inl e)))
       | Inr envp \<Rightarrow>
           obind (lift_prog (raw_call k (CloneChild (prep_clone_flags prep)))) (\<lambda>pid.
             if pid < 0
             then lift_prog (drop_channels k ch \<bind> (\<lambda>_. State_Monad.return (Inl (SandboxError_new ErrorKind.Exec
                    (''clone sandboxed process: '' @ k_nix_errno k (- pid))))))
             else after_clone m n k prep ch (of_int pid))) w1 = (r, w')"
      using run 1 by (simp add: run_prepared_def run_attempt_iff run_lift_iff)
    show ?thesis
    proof (cases "envp_of h prep (ch_proxy ch)")
      case (Inl e)
      then show ?thesis using r1 drop [OF _ e1(1) unlaunched_list [OF e1(2)]] by auto
    next
      case (Inr envp)
      let ?p = "k_raw k (trace w1) (CloneChild (prep_clone_flags prep))"
      let ?e = "Raw (CloneChild (prep_clone_flags prep)) ?p"
      have r2: "run_state (if ?p < 0
             then lift_prog (drop_channels k ch \<bind> (\<lambda>_. State_Monad.return (Inl (SandboxError_new ErrorKind.Exec
                    (''clone sandboxed process: '' @ k_nix_errno k (- ?p))))))
             else after_clone m n k prep ch (of_int ?p)) (log_event ?e w1) = (r, w')"
        using r1 Inr by (simp add: run_obind_iff run_lift_iff raw_call_def run_syscall_iff)
      show ?thesis
      proof (cases "?p < 0")
        case True
        then have "list_all unlaunched (e1 @ [?e])" using unlaunched_list [OF e1(2)] by (simp add: unlaunched_def)
        then show ?thesis using r2 True drop [where pre = "e1 @ [?e]"] e1(1) by auto
      next
        case False
        then show ?thesis using r2 e1
          by (intro disjI2 exI [of _ ch] exI [of _ ?p] exI [of _ e1] exI [of _ "log_event ?e w1"]) auto
      qed
    qed
  qed
qed

section \<open>The fate of the child\<close>

text \<open>The state: no child yet, or the child's process id and whether it was sent \<open>SIGKILL\<close>. A second
  clone is rejected.\<close>

fun child_step :: "(i32 \<times> bool) option \<Rightarrow> event \<Rightarrow> (i32 \<times> bool) option option" where
  "child_step s (Raw (CloneChild fl) r) =
     (if r < 0 then Some s else case s of None \<Rightarrow> Some (Some (of_int r, False)) | Some _ \<Rightarrow> None)"
| "child_step s (KillPid q sg x) =
     Some (case s of None \<Rightarrow> None | Some (p, b) \<Rightarrow> Some (p, b \<or> (q = p \<and> sg = SIGKILL)))"
| "child_step s e = Some s"

fun no_clone :: "event \<Rightarrow> bool" where
  "no_clone (Raw (CloneChild _) _) = False"
| "no_clone _ = True"

lemma ready_no_clone: "ready_event fd e \<Longrightarrow> no_clone e"
  by (cases e rule: no_clone.cases) (auto simp: ready_event_def)

lemma quiet_no_clone: "quiet_event e \<Longrightarrow> no_clone e"
  by (rule ready_no_clone) (simp add: ready_event_def)

lemma child_step_quiet: "no_clone e \<Longrightarrow> \<exists>b'. child_step (Some (p, b)) e = Some (Some (p, b')) \<and> (b \<longrightarrow> b')"
  by (cases "(Some (p, b), e)" rule: child_step.cases) auto

lemma child_steps_quiet:
  "list_all no_clone es \<Longrightarrow> \<exists>b'. steps child_step (Some (p, b)) es = Some (Some (p, b')) \<and> (b \<longrightarrow> b')"
proof (induction es arbitrary: b)
  case (Cons e es)
  obtain b1 where b1: "child_step (Some (p, b)) e = Some (Some (p, b1))" "b \<longrightarrow> b1" using child_step_quiet [of e p b] Cons.prems by auto
  obtain b2 where "steps child_step (Some (p, b1)) es = Some (Some (p, b2))" "b1 \<longrightarrow> b2"
    using Cons.IH [of b1] Cons.prems by auto
  then show ?case using b1 by auto
qed simp

definition has_child :: "i32 \<Rightarrow> (i32 \<times> bool) option \<Rightarrow> bool" where
  "has_child pid s \<longleftrightarrow> (\<exists>b. s = Some (pid, b))"

definition child_killed :: "i32 \<Rightarrow> (i32 \<times> bool) option \<Rightarrow> bool" where
  "child_killed pid s \<longleftrightarrow> s = Some (pid, True)"

lemma keeps_has_child0: "emits no_clone m \<Longrightarrow> has_child pid s \<Longrightarrow> keeps child_step s m (\<lambda>_. has_child pid)"
  unfolding keeps_def has_child_def using child_steps_quiet emits_run by metis

lemma keeps_has_child: "emits quiet_event m \<Longrightarrow> has_child pid s \<Longrightarrow> keeps child_step s m (\<lambda>_. has_child pid)"
  by (rule keeps_has_child0, erule emits_weaken, erule quiet_no_clone)

lemma keeps_child_killed: "emits quiet_event m \<Longrightarrow> child_killed pid s \<Longrightarrow> keeps child_step s m (\<lambda>_. child_killed pid)"
  using emits_weaken [of quiet_event m no_clone, OF _ quiet_no_clone]
  unfolding keeps_def child_killed_def using child_steps_quiet emits_run by metis

lemma keeps_kill_and_reap: "has_child pid s \<Longrightarrow> keeps child_step s (kill_and_reap n k pid) (\<lambda>_. child_killed pid)"
proof -
  assume "has_child pid s"
  then have "keeps child_step s (kill k pid SIGKILL) (\<lambda>_. child_killed pid)"
    unfolding kill_def by (intro keeps_syscall) (auto simp: has_child_def child_killed_def)
  moreover have "emits quiet_event (reap_rounds n i k pid)" for i
    by (induction i) (auto simp: sleep_ms_def intro!: emits_intros quiet_waits)
  then have "emits quiet_event (obind (reap_rounds n 10 k pid) (\<lambda>_. State_Monad.return (Some ())))" by (intro emits_intros)
  ultimately show ?thesis unfolding kill_and_reap_def
    by - (rule keeps_bind, assumption, rule keeps_child_killed)
qed

text \<open>A step that kills the child when it fails.\<close>

definition fate_post :: "i32 \<Rightarrow> 'a result \<Rightarrow> (i32 \<times> bool) option \<Rightarrow> bool" where
  "fate_post pid r s \<longleftrightarrow> (case r of Inl _ \<Rightarrow> child_killed pid s | Inr _ \<Rightarrow> has_child pid s)"

lemma keeps_any: "keeps d s m (\<lambda>_ s'. P s') \<Longrightarrow> keeps d s m (ends_with_post (\<lambda>_ s'. P s'))"
  by (rule keeps_mono, assumption) (simp add: ends_with_post_def split: option.splits)

lemma fate_return_error: "child_killed pid s \<Longrightarrow> keeps child_step s (return_error k cg ch e) (ends_with_post (fate_post pid))"
proof -
  assume "child_killed pid s"
  with quiet_returns(1) have "keeps child_step s (return_error k cg ch e) (\<lambda>_. child_killed pid)" by (rule keeps_child_killed)
  from keeps_and_result [OF this return_error_result] show ?thesis
    by (rule keeps_mono) (auto simp: fate_post_def)
qed

lemma fate_abort:
  "has_child pid s \<Longrightarrow> keeps child_step s (abort_child_startup n k pid rw msg) (ends_with_post (\<lambda>_. child_killed pid))"
  unfolding abort_child_startup_def
  apply (rule keeps_obind [OF keeps_any [OF keeps_has_child [OF emits_lift [OF quiet_drops(2)]]]], assumption)
  apply (clarify, rule keeps_obind [OF keeps_any [OF keeps_kill_and_reap]], assumption)
  apply (rule keeps_return, simp)
  done

lemma fate_give_up: "has_child pid s \<Longrightarrow> keeps child_step s (give_up_child n k pid ch e) (ends_with_post (fate_post pid))"
  unfolding give_up_child_def
  by (rule keeps_obind [OF keeps_any [OF keeps_has_child [OF emits_lift [OF quiet_drops(3)]]]], assumption,
      rule keeps_obind [OF keeps_any [OF keeps_kill_and_reap]], assumption, rule fate_return_error)

lemma fate_setup_failed: "has_child pid s \<Longrightarrow> keeps child_step s (setup_failed n k pid cg ch e) (ends_with_post (fate_post pid))"
  unfolding setup_failed_def
  by (rule keeps_obind [OF keeps_any [OF keeps_has_child [OF emits_lift [OF quiet_drops(2)]]]], assumption, clarify,
      rule keeps_obind [OF keeps_any [OF keeps_kill_and_reap]], assumption, rule fate_return_error)

lemma fate_ok: "emits quiet_event m \<Longrightarrow> has_child pid s \<Longrightarrow> (\<And>w r w'. run_state m w = (r, w') \<Longrightarrow> \<exists>x. r = Inr x) \<Longrightarrow>
    keeps child_step s (lift_prog m) (ends_with_post (fate_post pid))"
proof (intro keeps_lift)
  assume m: "emits quiet_event m" "has_child pid s" and ok: "\<And>w r w'. run_state m w = (r, w') \<Longrightarrow> \<exists>x. r = Inr x"
  from keeps_and_result [OF keeps_has_child [OF m], of "\<lambda>r. \<exists>x. r = Inr x"] ok
  have "keeps child_step s m (\<lambda>r s'. has_child pid s' \<and> (\<exists>x. r = Inr x))" by blast
  then show "keeps child_step s m (fate_post pid)" by (rule keeps_mono) (auto simp: fate_post_def)
qed

lemma fate_close_child_side: "has_child pid s \<Longrightarrow> keeps child_step s (close_child_side n k pid ch) (ends_with_post (fate_post pid))"
  unfolding close_child_side_def Let_def
  apply (rule keeps_obind [OF keeps_any [OF keeps_has_child [OF emits_lift [OF quiet_drops(2)]]]], assumption, clarify)
  apply (rule keeps_obind [OF keeps_any [OF keeps_has_child [OF emits_lift [OF quiet_drops(2)]]]], assumption, clarify)
  apply (rule keeps_case_sum)
   apply (rule keeps_obind [OF fate_abort], assumption, clarify, rule fate_return_error, assumption)
  apply (rule fate_ok)
    apply (intro emits_intros quiet_drops)
   apply assumption
  apply (auto simp: run_simps)
  done

lemma fate_parent_invariants: "has_child pid s \<Longrightarrow> keeps child_step s (parent_invariants n k prep pid ch) (ends_with_post (fate_post pid))"
proof -
  have maps: "emits quiet_event (lift_prog (write_mappings k ns pid))" for ns
    unfolding write_mappings_def write_map_def and_then_def fs_write_def by (intro emits_intros) simp_all
  have cg: "emits quiet_event (lift_prog (configure_cgroup k cfg plan sid pid))" for cfg plan sid
    by (intro emits_lift emits_weaken [OF configure_cgroup_files file_event_quiet])
  show "has_child pid s \<Longrightarrow> ?thesis" unfolding parent_invariants_def
    apply (rule keeps_obind [OF keeps_any [OF keeps_has_child [OF maps]]], assumption)
    apply (rule keeps_case_sum, rule fate_give_up, assumption)
    apply (rule keeps_if)
     apply (rule keeps_obind [OF keeps_any [OF keeps_has_child [OF cg]]], assumption)
     apply (rule keeps_case_sum, rule fate_give_up, assumption)
     apply (auto simp: fate_post_def intro!: keeps_return)
    done
qed

lemma fate_release: "has_child pid s \<Longrightarrow> keeps child_step s (release_child n k pid cg ch) (ends_with_post (fate_post pid))"
proof -
  have loop: "emits no_clone (write_byte_loop n k fd 0)" for fd
    by (induction n) (auto simp: write_raw_def raw_call_def intro!: emits_intros)
  have byte: "emits no_clone (write_byte_and_close n k fd 0)" for fd
    unfolding write_byte_and_close_def by (intro emits_intros loop emits_weaken [OF quiet_drops(2) quiet_no_clone])
  show "has_child pid s \<Longrightarrow> ?thesis" unfolding release_child_def
    apply (rule keeps_obind [OF keeps_any [OF keeps_has_child0 [OF byte]]], assumption, clarify)
    apply (rule keeps_case_sum)
     apply (rule keeps_obind [OF fate_abort], assumption, clarify, rule fate_return_error, assumption)
    apply (simp add: fate_post_def keeps_return)
    done
qed

lemma fate_await: "has_child pid s \<Longrightarrow> keeps child_step s (await_setup m n k pid cg ch) (ends_with_post (fate_post pid))"
proof -
  have frame: "emits quiet_event (read_frame m n k fd fr)" for fd fr
    by (induction m arbitrary: fr) (auto intro!: emits_intros quiet_waits split: list.splits)
  have ok: "keeps child_step s (lift_prog (AutoCloseFd_close k fd \<bind> (\<lambda>(_, error_read).
               State_Monad.return (Inr (f error_read))))) (ends_with_post (fate_post pid))" if "has_child pid s" for s fd f
    by (rule fate_ok) (auto simp: run_simps intro!: emits_intros quiet_drops that)
  show "has_child pid s \<Longrightarrow> ?thesis" unfolding await_setup_def
    apply (rule keeps_obind [OF keeps_any [OF keeps_has_child [OF quiet_waits(3)]]], assumption)
    apply (rule keeps_case_sum, rule fate_setup_failed, assumption)
    apply (rule keeps_if, rule ok, assumption)
    apply (rule keeps_obind [OF keeps_any [OF keeps_has_child [OF frame]]], assumption, rule fate_setup_failed, assumption)
    done
qed

lemma fate_attempt:
  assumes "keeps child_step s m (ends_with_post (fate_post pid))"
    and "\<And>x s'. has_child pid s' \<Longrightarrow> keeps child_step s' (f x) (ends_with_post (fate_post pid))"
  shows "keeps child_step s (attempt m f) (ends_with_post (fate_post pid))"
  by (rule keeps_attempt [where P = "\<lambda>_. has_child pid", OF keeps_mono [OF assms(1)]])
    (use assms(2) in \<open>auto simp: ends_with_post_def fate_post_def split: option.splits sum.splits\<close>)

lemma fate_after_clone: "has_child pid s \<Longrightarrow> keeps child_step s (after_clone m n k prep ch pid) (ends_with_post (fate_post pid))"
  unfolding after_clone_def
  by (intro fate_attempt fate_close_child_side, assumption, clarify?, intro fate_attempt fate_parent_invariants, assumption, clarify,
      intro fate_attempt fate_release, assumption, intro fate_attempt fate_await, assumption, rule fate_ok)
    (auto simp: run_simps intro!: emits_intros quiet_hand_over)

text \<open>What the monitor saw.\<close>

lemma child_steps_no_clone: "steps child_step (Some x) es = Some s \<Longrightarrow> Raw (CloneChild fl) p \<in> set es \<Longrightarrow> p < 0"
proof (induction es arbitrary: x)
  case (Cons e es)
  obtain s1 where s1: "child_step (Some x) e = Some s1" "steps child_step s1 es = Some s"
    using Cons.prems(1) by (auto split: option.splits)
  then have "s1 \<noteq> None" by (cases x; cases "(Some x, e)" rule: child_step.cases) (auto split: if_splits)
  then obtain y where "s1 = Some y" by blast
  show ?case using Cons.IH [of y] Cons.prems(2) s1 \<open>s1 = Some y\<close> by (cases y) (auto split: if_splits)
qed simp

lemma child_steps_kill:
  "steps child_step (Some (p, False)) es = Some (Some (p, True)) \<Longrightarrow> \<exists>x. KillPid p SIGKILL x \<in> set es"
proof (induction es)
  case (Cons e es)
  show ?case
  proof (cases "\<exists>x. e = KillPid p SIGKILL x")
    case False
    have "child_step (Some (p, False)) e = Some (Some (p, False)) \<or> child_step (Some (p, False)) e = None"
      using False by (cases "(Some (p, False), e)" rule: child_step.cases) auto
    then show ?thesis using Cons by auto
  qed auto
qed simp

lemma after_clone_pid: "run_state (after_clone m n k prep ch pid) w = (Some (Inr (c, d)), w') \<Longrightarrow> c_pid c = pid"
  by (auto simp: after_clone_def hand_over_def Child_new_def Let_def split_beta run_simps)

section \<open>A spawn\<close>

text \<open>A kernel that clones process 42 and lets its setup succeed; one that refuses the uid map; a request
  that pipes standard output and hands over descriptor 9 for standard error.\<close>

definition spawning_kernel :: kernel where
  "spawning_kernel = granting_kernel\<lparr>
     k_read_fd := (\<lambda>h fd n. Inr []),
     k_raw := (\<lambda>h c. case c of CloneChild _ \<Rightarrow> 42 | WriteFd _ data \<Rightarrow> int (length data) | _ \<Rightarrow> 0)\<rparr>"

definition unmapped_kernel :: kernel where
  "unmapped_kernel = spawning_kernel\<lparr>
     k_write_file := (\<lambda>h p v. if ends_with ''uid_map'' p then Inl \<lparr>io_kind = OtherKind, io_display = ''denied''\<rparr> else Inr ())\<rparr>"

definition demo_host :: host where
  "demo_host = \<lparr>host_vars = Map.empty, host_iter = (\<lambda>m. [(''PATH'', the (m ''PATH''))]), host_bind = Inr 8080, host_runtime = None\<rparr>"

definition demo_prep :: PreparedSandbox where
  "demo_prep =
     \<lparr>prep_clone_flags = 0, prep_config = SandboxBuilder_new\<lparr>resources := ResourceConfig_default\<lparr>max_pids := None\<rparr>\<rparr>, prep_policy = to_execution_policy ResourceConfig_default,
      prep_user_ns = UserNamespace_default, prep_hostname = None, prep_working_dir = ''/'',
      prep_rlimits = prepare_rlimits ResourceConfig_default, prep_seccomp = None, prep_child_hook = None,
      prep_ctx = \<lparr>ctx_uid = 0, ctx_gid = 0, has_user_ns = True, has_mount_ns = True, has_pid_ns = True, has_net_ns = True\<rparr>,
      prep_argv = [''true''], prep_base_env = [''PATH'' \<mapsto> ''/bin''], prep_stdin = Inherit, prep_stdout = Pipe,
      prep_stderr = Owned 9\<rparr>"

lemmas spawn_run_defs = run_prepared_def attempt_def open_channels_def or_drop_def start_proxy_def resolve_def named_pipe_def
  envp_of_def child_env_def CString_new_def after_clone_def close_child_side_def parent_invariants_def write_mappings_def
  write_map_def and_then_def release_child_def write_byte_and_close_def await_setup_def hand_over_def give_up_child_def
  kill_and_reap_def return_error_def drop_after_clone_def drop_streams_def drop_slot_def drop_cgroup_opt_def drop_proxy_def
  close_child_fd_in_parent_def take_parent_fd_def try_pidfd_open_def open_namespace_fd_def AutoCloseFd_close_def
  AutoCloseFd_drop_def drop_fd_def close_raw_def write_raw_def read_raw_def config_needs_cgroup_def call_defs wp_simps
  SandboxBuilder_new_def ResourceConfig_default_def NetworkConfig_default_def

lemma spawn_runs:
  "\<exists>c d w'. run_state (run_prepared 1 1 spawning_kernel demo_host demo_prep) initial_world = (Some (Inr (c, d)), w')
     \<and> c_pid c = 42 \<and> Raw (WriteFd 4 [0]) 1 \<in> set (new_events initial_world w')"
proof -
  let ?m = "run_prepared 1 1 spawning_kernel demo_host demo_prep"
  have "wp ?m (\<lambda>r w'. (\<exists>c d. r = Some (Inr (c, d)) \<and> c_pid c = 42) \<and> Raw (WriteFd 4 [0]) 1 \<in> set (new_events initial_world w')) initial_world"
    by (simp add: spawn_run_defs Let_def demo_prep_def demo_host_def spawning_kernel_def granting_kernel_def initial_world_def
        new_events_def Child_new_def)
  then show ?thesis by (auto simp: wp_def split: prod.splits)
qed

lemma failed_spawn_runs:
  "\<exists>e w'. run_state (run_prepared 1 1 unmapped_kernel demo_host demo_prep) initial_world = (Some (Inl e), w')
     \<and> Raw (CloneChild 0) 42 \<in> set (new_events initial_world w')"
proof -
  let ?m = "run_prepared 1 1 unmapped_kernel demo_host demo_prep"
  have "wp ?m (\<lambda>r w'. (\<exists>e. r = Some (Inl e)) \<and> Raw (CloneChild 0) 42 \<in> set (new_events initial_world w')) initial_world"
    by (simp add: spawn_run_defs Let_def demo_prep_def demo_host_def spawning_kernel_def unmapped_kernel_def granting_kernel_def
        initial_world_def new_events_def proc_path_def ends_with_iff reap_rounds.simps(2) [of "Suc 0" 9, simplified])
  then show ?thesis by (auto simp: wp_def split: prod.splits)
qed

section \<open>Properties\<close>

text \<open>C33: The child is released last. Whatever the kernel answers, nothing is written to a descriptor
  during a spawn before the child was cloned, its id maps were written (\<open>setgroups\<close>, then \<open>uid_map\<close>, then
  \<open>gid_map\<close>, each successfully) and, when a limit asks for a cgroup, the cgroup was configured
  successfully; and all that is ever written is the ready byte.\<close>

theorem child_released_last:
  assumes run: "run_state (run_prepared m n k h prep) w = (r, w')"
    and wr: "Raw (WriteFd fd data) x \<in> set (new_events w w')"
  shows "\<exists>pre pid mid cg rest.
     new_events w w' = pre @ [Raw (CloneChild (prep_clone_flags prep)) pid] @ mid @ map_events k prep (of_int pid) @ cg @ rest
     \<and> 0 \<le> pid \<and> list_all (\<lambda>e. \<not> writes_fd e) (pre @ mid @ cg)
     \<and> cgroup_configured k prep (of_int pid)
         (trace w @ pre @ [Raw (CloneChild (prep_clone_flags prep)) pid] @ mid @ map_events k prep (of_int pid)) cg
     \<and> data = [0]"
  using run_prepared_cloned [OF run]
proof (elim disjE exE conjE)
  fix es assume es: "trace w' = trace w @ es" "list_all unlaunched es"
  then have "list_all (\<lambda>e. \<not> writes_fd e) es" by (auto simp: list_all_iff unlaunched_def writes_fd_def)
  then have False using silent_contra wr es(1) by (simp add: new_events_def)
  then show ?thesis ..
next
  fix ch pid pre v
  let ?e = "Raw (CloneChild (prep_clone_flags prep)) pid"
  assume pid: "0 \<le> pid" and v: "trace v = trace w @ pre @ [?e]" and pre: "list_all quiet_event pre"
    and after: "run_state (after_clone m n k prep ch (of_int pid)) v = (r, w')"
  obtain es where es: "trace w' = trace v @ es"
    using keeps_after_clone [where H = "{#}"] after by (rule keepsD)
  then have new: "new_events w w' = pre @ [?e] @ es" using v by (simp add: new_events_def)
  then have "Raw (WriteFd fd data) x \<in> set es" using wr silent_contra [OF quiet_list [OF pre]] by auto
  from after_clone_writes [OF after es this] obtain mid cg rest where
    "es = mid @ map_events k prep (of_int pid) @ cg @ rest" "list_all (\<lambda>e. \<not> writes_fd e) (mid @ cg)"
    "cgroup_configured k prep (of_int pid) (trace v @ mid @ map_events k prep (of_int pid)) cg" "data = [0]" by blast
  then show ?thesis using new v pid quiet_list [OF pre]
    by (intro exI [of _ pre] exI [of _ pid] exI [of _ mid] exI [of _ cg] exI [of _ rest]) simp
qed

theorem child_released_last_witness:
  "\<exists>w' pre pid mid cg rest. Raw (WriteFd 4 [0]) 1 \<in> set (new_events initial_world w')
     \<and> new_events initial_world w' = pre @ [Raw (CloneChild 0) pid] @ mid
       @ map_events spawning_kernel demo_prep (of_int pid) @ cg @ rest"
proof -
  obtain r w' where run: "run_state (run_prepared 1 1 spawning_kernel demo_host demo_prep) initial_world = (r, w')"
    and wr: "Raw (WriteFd 4 [0]) 1 \<in> set (new_events initial_world w')" using spawn_runs by blast
  from child_released_last [OF run wr] wr show ?thesis by (simp add: demo_prep_def) blast
qed

text \<open>C34: A spawn that fails does not leave a process behind: if \<open>run_prepared\<close> returns an error after
  the child was cloned, whatever the step that failed, the child was sent \<open>SIGKILL\<close>; and if it returns
  a handle, the handle is for the process that was cloned.\<close>

theorem failed_spawn_kills_child:
  assumes run: "run_state (run_prepared m n k h prep) w = (Some r, w')"
    and clone: "Raw (CloneChild fl) p \<in> set (new_events w w')" "0 \<le> p"
  shows "case r of
     Inl _ \<Rightarrow> (\<exists>x. KillPid (of_int p) SIGKILL x \<in> set (new_events w w'))
   | Inr (c, _) \<Rightarrow> c_pid c = of_int p"
  using run_prepared_cloned [OF run]
proof (elim disjE exE conjE)
  fix es assume "trace w' = trace w @ es" "list_all unlaunched es"
  then have False using clone by (auto simp: new_events_def list_all_iff unlaunched_def)
  then show ?thesis ..
next
  fix ch pid pre v
  let ?e = "Raw (CloneChild (prep_clone_flags prep)) pid"
  assume pid: "0 \<le> pid" and v: "trace v = trace w @ pre @ [?e]" and pre: "list_all quiet_event pre"
    and after: "run_state (after_clone m n k prep ch (of_int pid)) v = (Some r, w')"
  have "has_child (of_int pid) (Some (of_int pid, False))" unfolding has_child_def by blast
  from keepsD [OF fate_after_clone [OF this] after] obtain es s where es: "trace w' = trace v @ es"
    "steps child_step (Some (of_int pid, False)) es = Some s" "fate_post (of_int pid) r s" by auto
  have new: "new_events w w' = pre @ [?e] @ es" using v es(1) by (simp add: new_events_def)
  have "Raw (CloneChild fl) p \<notin> set pre" using pre by (auto simp: list_all_iff)
  moreover have "Raw (CloneChild fl) p \<notin> set es" using child_steps_no_clone [OF es(2)] clone(2) by fastforce
  ultimately have p: "p = pid" using clone(1) new by auto
  show ?thesis
  proof (cases r)
    case (Inl e)
    then show ?thesis using es(2,3) child_steps_kill new p by (auto simp: fate_post_def child_killed_def)
  next
    case (Inr x)
    then show ?thesis using after_clone_pid after p by (cases x) auto
  qed
qed


theorem failed_spawn_kills_child_witness:
  "\<exists>w' x. fst (run_state (run_prepared 1 1 unmapped_kernel demo_host demo_prep) initial_world) \<noteq> None
     \<and> KillPid 42 SIGKILL x \<in> set (new_events initial_world w')"
proof -
  obtain e w' where run: "run_state (run_prepared 1 1 unmapped_kernel demo_host demo_prep) initial_world = (Some (Inl e), w')"
    and cl: "Raw (CloneChild 0) 42 \<in> set (new_events initial_world w')" using failed_spawn_runs by blast
  from failed_spawn_kills_child [OF run cl] run show ?thesis by auto
qed

text \<open>C35: A spawn accounts for every descriptor, on every path. Starting with the descriptors the request
  hands over, \<open>run_prepared\<close> never closes one it does not hold; when it fails it has closed all of them
  and everything it opened, and when it succeeds it still holds exactly the descriptors that the
  returned handle owns.\<close>

theorem spawn_accounts_for_fds:
  assumes pipes: "pipes_valid k" and run: "run_state (run_prepared m n k h prep) w = (Some r, w')"
  shows "steps fd_step (own_prep prep + H) (new_events w w') =
     Some (case r of Inl _ \<Rightarrow> H | Inr (c, _) \<Rightarrow> own_child c + H)"
  using keeps_new_events [OF keeps_run_prepared [OF pipes] run, of H] by (auto simp: fd_post_def split: sum.splits)

theorem spawn_accounts_for_fds_witness:
  "\<exists>c d w'. run_state (run_prepared 1 1 spawning_kernel demo_host demo_prep) initial_world = (Some (Inr (c, d)), w')
     \<and> steps fd_step {#9#} (new_events initial_world w') = Some (own_child c)"
proof -
  obtain c d w' where run: "run_state (run_prepared 1 1 spawning_kernel demo_host demo_prep) initial_world = (Some (Inr (c, d)), w')"
    using spawn_runs by blast
  have "pipes_valid spawning_kernel" by (simp add: pipes_valid_def spawning_kernel_def granting_kernel_def)
  from spawn_accounts_for_fds [OF this run, of "{#}"] run show ?thesis by (auto simp: own_prep_def demo_prep_def)
qed

end
