(* ===== verification/Dynamic_Mounts.thy ===== *)
theory Dynamic_Mounts
  imports Child Mount_Ops Namespaces
begin

text \<open>
  Mount operations on a running sandbox (\<open>src/mount/syscalls.rs\<close>, \<open>src/mount/handle.rs\<close>). An operation
  forks a helper that enters the namespaces of the child, works there, and reports one status byte
  over a pipe. As in the source there is one program for both processes: in the caller the kernel
  answers the fork with the helper's pid and the program returns \<open>Inr\<close> of its result, in the helper it
  answers 0 and the program ends with \<open>Inl\<close> of the exit code. The cell the two closures share is the
  \<open>int\<close> that goes from the first to the second.
\<close>

unbundle bit_operations_syntax

section \<open>Constants and the status byte\<close>

definition EEXIST :: int where "EEXIST = 17"
definition ENAMETOOLONG :: int where "ENAMETOOLONG = 36"
definition AT_FDCWD :: int where "AT_FDCWD = -100"
definition OPEN_TREE_CLONE :: u64 where "OPEN_TREE_CLONE = 0x01"
definition OPEN_TREE_CLOEXEC :: u64 where "OPEN_TREE_CLOEXEC = 0x00080000"
definition MOVE_MOUNT_F_EMPTY_PATH :: u64 where "MOVE_MOUNT_F_EMPTY_PATH = 0x00000004"
definition AT_RECURSIVE :: u64 where "AT_RECURSIVE = 0x00008000"
definition STATUS_OK :: u8 where "STATUS_OK = 0"
definition STATUS_ERROR :: u8 where "STATUS_ERROR = 1"

definition format_errno :: "kernel \<Rightarrow> int \<Rightarrow> string" where
  "format_errno k errno = k_nix_errno k errno"

definition mount_op_error :: "string \<Rightarrow> SandboxError" where
  "mount_op_error what = SandboxError_new ErrorKind.Mount (''dynamic mount operation failed: '' @ what)"

definition encode_errno :: "int \<Rightarrow> u8" where
  "encode_errno errno = (let b = (word_of_int (min 253 (max 0 errno)) :: u8) in if unat b + 2 > 255 then 255 else b + 2)"

text \<open>What the caller makes of the answer to its read of one byte.\<close>

definition decode_status :: "kernel \<Rightarrow> int + u8 list \<Rightarrow> unit result" where
  "decode_status k ans =
     (case ans of
        Inr [b] \<Rightarrow>
          (if b = STATUS_OK then Inr ()
           else if b = STATUS_ERROR then Inl (mount_op_error ''helper reported generic failure'')
           else if b \<ge> 2 then Inl (mount_op_error (''helper failed: '' @ format_errno k (uint (b - 2))))
           else Inl (mount_op_error (''helper reported unknown status: '' @ show_nat (unat b))))
      | _ \<Rightarrow> Inl (mount_op_error ''helper process did not report status''))"

section \<open>The fork helper\<close>

definition raw_write :: "kernel \<Rightarrow> int \<Rightarrow> u8 \<Rightarrow> int prog" where
  "raw_write k fd b = write_raw k fd [b]"

definition enter_ns :: "kernel \<Rightarrow> string \<Rightarrow> u64 \<Rightarrow> bool prog" where
  "enter_ns k path flag = do {
     fd \<leftarrow> raw_call k (OpenFile path);
     if fd < 0 then State_Monad.return False
     else do {
       ret \<leftarrow> raw_call k (Setns fd flag);
       _ \<leftarrow> close_raw k fd;
       State_Monad.return (\<not> ret < 0)
     }
   }"

definition report :: "kernel \<Rightarrow> int \<Rightarrow> u8 \<Rightarrow> nat \<Rightarrow> nat prog" where
  "report k status_w b exit_code = raw_write k status_w b \<bind> (\<lambda>_. State_Monad.return exit_code)"

type_synonym pre_op = "(int \<times> int) prog" \<comment> \<open>the return value and the new content of the cell\<close>

definition run_pre_op :: "pre_op option \<Rightarrow> (int \<times> int) prog" where
  "run_pre_op pre = (case pre of None \<Rightarrow> State_Monad.return (0, -1) | Some p \<Rightarrow> p)"

definition helper_body ::
  "kernel \<Rightarrow> int \<Rightarrow> int \<Rightarrow> int \<Rightarrow> int \<Rightarrow> pre_op option \<Rightarrow> (int \<Rightarrow> int prog) \<Rightarrow> nat prog" where
  "helper_body k user_ns mnt_ns status_r status_w pre op = do {
     _ \<leftarrow> close_raw k status_r;
     entered \<leftarrow> enter_ns k (''/proc/self/fd/'' @ show_int user_ns) CLONE_NEWUSER;
     if \<not> entered then report k status_w STATUS_ERROR 1
     else do {
       (pre_ret, cell) \<leftarrow> run_pre_op pre;
       if pre_ret \<noteq> 0 then report k status_w (encode_errno pre_ret) 1
       else do {
         entered \<leftarrow> enter_ns k (''/proc/self/fd/'' @ show_int mnt_ns) CLONE_NEWNS;
         if \<not> entered then report k status_w STATUS_ERROR 1
         else do {
           op_ret \<leftarrow> op cell;
           report k status_w (if op_ret = 0 then STATUS_OK else encode_errno op_ret) 0
         }
       }
     }
   }"

definition await_helper :: "nat \<Rightarrow> kernel \<Rightarrow> int \<Rightarrow> int \<Rightarrow> int \<Rightarrow> unit result option prog" where
  "await_helper n k helper_pid status_r status_w =
     close_raw k status_w \<bind> (\<lambda>_.
     obind (waitpid_retry n k (word_of_int helper_pid) False) (\<lambda>r. case r of
       Inl e \<Rightarrow> close_raw k status_r \<bind> (\<lambda>_. State_Monad.return (Some (Inl (mount_op_error (''waitpid failed: '' @ format_errno k e)))))
     | Inr _ \<Rightarrow> read_raw k status_r 1 \<bind> (\<lambda>ans. close_raw k status_r \<bind> (\<lambda>_.
         State_Monad.return (Some (decode_status k ans))))))"

definition fork_in_namespaces ::
  "nat \<Rightarrow> kernel \<Rightarrow> int \<Rightarrow> int \<Rightarrow> pre_op option \<Rightarrow> (int \<Rightarrow> int prog) \<Rightarrow> (nat + unit result) option prog" where
  "fork_in_namespaces n k user_ns mnt_ns pre op = do {
     pipe \<leftarrow> make_pipe k False;
     case pipe of
       Inl e \<Rightarrow> State_Monad.return (Some (Inr (Inl (mount_op_error (''pipe() failed: '' @ format_errno k e)))))
     | Inr (status_r, status_w) \<Rightarrow> do {
         pid \<leftarrow> raw_call k ForkHelper;
         if pid < 0 then do {
           _ \<leftarrow> close_raw k status_r;
           _ \<leftarrow> close_raw k status_w;
           State_Monad.return (Some (Inr (Inl (mount_op_error (''fork() failed: '' @ format_errno k (- pid))))))
         }
         else if pid = 0 then
           helper_body k user_ns mnt_ns status_r status_w pre op \<bind> (\<lambda>ec. State_Monad.return (Some (Inl ec)))
         else obind (await_helper n k pid status_r status_w) (\<lambda>r. State_Monad.return (Some (Inr r)))
       }
   }"

text \<open>Code after the fork runs in the caller only.\<close>

definition in_caller :: "(nat + 'a) option prog \<Rightarrow> ('a \<Rightarrow> (nat + 'b) option prog) \<Rightarrow> (nat + 'b) option prog" where
  "in_caller m f = obind m (\<lambda>r. case r of Inl ec \<Rightarrow> State_Monad.return (Some (Inl ec)) | Inr x \<Rightarrow> f x)"

text \<open>A result of the caller, and the \<open>?\<close> operator before and after the fork.\<close>

definition returns :: "'a \<Rightarrow> (nat + 'a) option prog" where
  "returns x = State_Monad.return (Some (Inr x))"

definition checked :: "'a result prog \<Rightarrow> ('a \<Rightarrow> (nat + 'b result) option prog) \<Rightarrow> (nat + 'b result) option prog" where
  "checked m f = m \<bind> (\<lambda>r. case r of Inl e \<Rightarrow> returns (Inl e) | Inr x \<Rightarrow> f x)"

section \<open>Making the mount point\<close>

text \<open>What the kernel reads from a buffer that ends with a NUL byte.\<close>

definition c_view :: "string \<Rightarrow> string" where
  "c_view s = takeWhile (\<lambda>c. c \<noteq> CHR 0x00) s"

text \<open>The position after the slashes at \<open>i\<close>, and after the component at \<open>i\<close>.\<close>

definition skip_slashes :: "string \<Rightarrow> nat \<Rightarrow> nat" where
  "skip_slashes path i = i + length (takeWhile (\<lambda>c. c = CHR ''/'') (drop i path))"

definition skip_component :: "string \<Rightarrow> nat \<Rightarrow> nat" where
  "skip_component path i = i + length (takeWhile (\<lambda>c. c \<noteq> CHR ''/'') (drop i path))"

lemma skip_bounds:
  "i \<le> length path \<Longrightarrow> i \<le> skip_slashes path i \<and> skip_slashes path i \<le> length path"
  "i \<le> length path \<Longrightarrow> i \<le> skip_component path i \<and> skip_component path i \<le> length path"
  using length_takeWhile_le [of "\<lambda>c. c = CHR ''/''" "drop i path"]
    length_takeWhile_le [of "\<lambda>c. c \<noteq> CHR ''/''" "drop i path"]
  by (auto simp: skip_slashes_def skip_component_def)

lemma skip_slashes_stops: "skip_slashes path i < length path \<Longrightarrow> path ! skip_slashes path i \<noteq> CHR ''/''"
proof -
  let ?t = "takeWhile (\<lambda>c. c = CHR ''/'') (drop i path)"
  assume "skip_slashes path i < length path"
  then have "length ?t < length (drop i path)" by (simp add: skip_slashes_def)
  from nth_length_takeWhile [OF this] show ?thesis
    using \<open>skip_slashes path i < length path\<close> by (simp add: skip_slashes_def)
qed

lemma skip_component_moves:
  assumes "i < length path" "path ! i \<noteq> CHR ''/''" shows "i < skip_component path i"
proof -
  have "drop i path = path ! i # drop (Suc i) path" using assms(1) by (simp add: Cons_nth_drop_Suc)
  then show ?thesis using assms(2) by (simp add: skip_component_def)
qed

lemma skip_moves:
  "skip_slashes path i < length path \<Longrightarrow> i < skip_component path (skip_slashes path i)"
  using skip_component_moves [OF _ skip_slashes_stops, of path i] order.strict_trans1 [of i "skip_slashes path i"]
  by (auto simp: skip_slashes_def)

function mkdir_from :: "kernel \<Rightarrow> int \<Rightarrow> string \<Rightarrow> nat \<Rightarrow> int prog" where
  "mkdir_from k dirfd path i =
     (let start = skip_slashes path i in
      if start \<ge> length path then State_Monad.return 0
      else let e = skip_component path start in
        if e \<ge> 4096 then State_Monad.return ENAMETOOLONG
        else do {
          ret \<leftarrow> raw_call k (Mkdirat dirfd (c_view (take e path)) 493);
          if ret < 0 \<and> - ret \<noteq> EEXIST then State_Monad.return (- ret) else mkdir_from k dirfd path e
        })"
  by auto
termination
proof (relation "measure (\<lambda>(k, dirfd, path, i). length path - i)")
  fix k dirfd i and path :: string and start e r :: nat and ret :: int
  assume "start = skip_slashes path i" "\<not> start \<ge> length path" "e = skip_component path start"
  then have "i < e" "e \<le> length path" "i < length path"
    using skip_moves [of path i] skip_bounds(2) [of start path] by (auto simp: skip_slashes_def)
  then show "((k, dirfd, path, e), (k, dirfd, path, i)) \<in> measure (\<lambda>(k, dirfd, path, i). length path - i)"
    by simp
qed simp

declare mkdir_from.simps [simp del]

definition raw_mkdir_p :: "kernel \<Rightarrow> int \<Rightarrow> string \<Rightarrow> int prog" where
  "raw_mkdir_p k dirfd path = mkdir_from k dirfd path 0"

section \<open>Dynamic operations\<close>

definition probe_mount_api :: "kernel \<Rightarrow> unit result prog" where
  "probe_mount_api k = do {
     ret \<leftarrow> raw_call k (OpenTree (-1) '''' OPEN_TREE_CLONE);
     State_Monad.return (if ret < 0 \<and> - ret = ENOSYS
       then Inl (mount_op_error ''open_tree syscall not available (kernel < 5.2)'') else Inr ())
   }"

definition open_tree_op :: "kernel \<Rightarrow> string \<Rightarrow> u64 \<Rightarrow> pre_op" where
  "open_tree_op k src flags = do {
     ret \<leftarrow> raw_call k (OpenTree AT_FDCWD src flags);
     State_Monad.return (if ret < 0 then (- ret, -1) else (0, ret))
   }"

text \<open>The legacy remount, and its rollback.\<close>

definition restrict_mount :: "kernel \<Rightarrow> string \<Rightarrow> u64 option \<Rightarrow> int prog" where
  "restrict_mount k target flags =
     (case flags of
        None \<Rightarrow> State_Monad.return 0
      | Some flags \<Rightarrow> do {
          ret \<leftarrow> raw_call k (MountCall None target None flags None);
          if ret < 0 then raw_call k (Umount2 target MNT_DETACH) \<bind> (\<lambda>_. State_Monad.return (- ret))
          else State_Monad.return 0
        })"

definition attach_op :: "kernel \<Rightarrow> string \<Rightarrow> u64 option \<Rightarrow> int \<Rightarrow> int prog" where
  "attach_op k target flags fd = do {
     mkdir_ret \<leftarrow> raw_mkdir_p k AT_FDCWD target;
     if mkdir_ret \<noteq> 0 then close_raw k fd \<bind> (\<lambda>_. State_Monad.return mkdir_ret)
     else if length target \<ge> 4096 then close_raw k fd \<bind> (\<lambda>_. State_Monad.return ENAMETOOLONG)
     else do {
       ret \<leftarrow> raw_call k (MoveMount fd (c_view target) MOVE_MOUNT_F_EMPTY_PATH);
       _ \<leftarrow> close_raw k fd;
       if ret < 0 then State_Monad.return (- ret) else restrict_mount k (c_view target) flags
     }
   }"

definition tree_flags :: "bool \<Rightarrow> u64" where
  "tree_flags recursive =
     (if recursive then OPEN_TREE_CLONE OR OPEN_TREE_CLOEXEC OR AT_RECURSIVE else OPEN_TREE_CLONE OR OPEN_TREE_CLOEXEC)"

definition dynamic_bind_mount ::
  "nat \<Rightarrow> kernel \<Rightarrow> string \<Rightarrow> string \<Rightarrow> Permission \<Rightarrow> int \<Rightarrow> int \<Rightarrow> (nat + unit result) option prog" where
  "dynamic_bind_mount n k src target perm user_ns mnt_ns =
     checked (probe_mount_api k) (\<lambda>_.
       if CHR 0x00 \<in> set src then returns (Inl (mount_op_error ''source path contains NUL byte''))
       else path_is_dir k src \<bind> (\<lambda>recursive.
         fork_in_namespaces n k user_ns mnt_ns
           (Some (open_tree_op k src (tree_flags recursive)))
           (attach_op k target (remount_flags perm recursive))))"

text \<open>An operation of the helper that is one call on the target.\<close>

definition target_call :: "kernel \<Rightarrow> string \<Rightarrow> (string \<Rightarrow> rawcall) \<Rightarrow> int prog" where
  "target_call k target call =
     (if length target \<ge> 4096 then State_Monad.return ENAMETOOLONG
      else raw_call k (call (c_view target)) \<bind> (\<lambda>ret. State_Monad.return (if ret < 0 then - ret else 0)))"

definition dynamic_unmount :: "nat \<Rightarrow> kernel \<Rightarrow> string \<Rightarrow> int \<Rightarrow> int \<Rightarrow> (nat + unit result) option prog" where
  "dynamic_unmount n k target user_ns mnt_ns =
     fork_in_namespaces n k user_ns mnt_ns None (\<lambda>_. target_call k target (\<lambda>t. Umount2 t MNT_DETACH))"

definition dynamic_remount ::
  "nat \<Rightarrow> kernel \<Rightarrow> string \<Rightarrow> Permission \<Rightarrow> bool \<Rightarrow> int \<Rightarrow> int \<Rightarrow> (nat + unit result) option prog" where
  "dynamic_remount n k target perm recursive user_ns mnt_ns =
     (let flags = permission_to_remount_flags perm recursive
      in fork_in_namespaces n k user_ns mnt_ns None
           (\<lambda>_. target_call k target (\<lambda>t. MountCall None t None flags None)))"

definition tmpfs_op :: "kernel \<Rightarrow> string \<Rightarrow> string \<Rightarrow> int prog" where
  "tmpfs_op k target options = do {
     mkdir_ret \<leftarrow> raw_mkdir_p k AT_FDCWD target;
     if mkdir_ret \<noteq> 0 then State_Monad.return mkdir_ret
     else if length target \<ge> 4096 then State_Monad.return ENAMETOOLONG
     else if length options \<ge> 256 then State_Monad.return ENAMETOOLONG
     else do {
       ret \<leftarrow> raw_call k (MountCall (Some ''tmpfs'') (c_view target) (Some ''tmpfs'') 0 (Some options));
       State_Monad.return (if ret < 0 then - ret else 0)
     }
   }"

definition dynamic_tmpfs :: "nat \<Rightarrow> kernel \<Rightarrow> string \<Rightarrow> u64 \<Rightarrow> int \<Rightarrow> int \<Rightarrow> (nat + unit result) option prog" where
  "dynamic_tmpfs n k target size_bytes user_ns mnt_ns =
     (let options = ''size='' @ show_nat (unat size_bytes)
      in fork_in_namespaces n k user_ns mnt_ns None (\<lambda>_. tmpfs_op k target options))"

definition check_child_alive :: "kernel \<Rightarrow> int option \<Rightarrow> unit result prog" where
  "check_child_alive k pidfd =
     (case pidfd of
        None \<Rightarrow> State_Monad.return (Inr ())
      | Some fd \<Rightarrow> do {
          ret \<leftarrow> raw_call k (PidfdSendSignal fd 0);
          State_Monad.return (if ret < 0 \<and> - ret = ESRCH
            then Inl (SandboxError_new ErrorKind.ChildGone ''child process has exited'') else Inr ())
        })"

section \<open>Handles\<close>

record MountHandle =
  mh_inner :: MountHandleInner

record DynamicMount =
  dm_target :: string
  host_source :: "string option"
  dm_inner :: MountHandleInner
  removed :: bool

definition MountHandle_new :: "int \<Rightarrow> int \<Rightarrow> int option \<Rightarrow> MountHandle" where
  "MountHandle_new user_fd mnt_fd pidfd =
     \<lparr>mh_inner = \<lparr>user_ns_fd = user_fd, mnt_ns_fd = mnt_fd, child_pidfd = pidfd\<rparr>\<rparr>"

definition check_alive :: "kernel \<Rightarrow> MountHandle \<Rightarrow> unit result prog" where
  "check_alive k h = check_child_alive k (child_pidfd (mh_inner h))"

text \<open>The end of \<open>add_mount\<close> and \<open>add_tmpfs\<close>: the handle of the new mount.\<close>

definition mounted_at :: "MountHandle \<Rightarrow> string \<Rightarrow> string option \<Rightarrow> DynamicMount" where
  "mounted_at h target src = \<lparr>dm_target = target, host_source = src, dm_inner = mh_inner h, removed = False\<rparr>"

definition add_mount ::
  "nat \<Rightarrow> kernel \<Rightarrow> MountHandle \<Rightarrow> string \<Rightarrow> string \<Rightarrow> Permission \<Rightarrow> (nat + DynamicMount result) option prog" where
  "add_mount n k h src target perm =
     checked (check_alive k h) (\<lambda>_.
     checked (validate_mount_source k src) (\<lambda>_.
     checked (State_Monad.return (validate_mount_target target)) (\<lambda>_.
     in_caller (dynamic_bind_mount n k src target perm (user_ns_fd (mh_inner h)) (mnt_ns_fd (mh_inner h))) (\<lambda>r.
     returns (map_sum id (\<lambda>_. mounted_at h target (Some src)) r)))))"

definition remount :: "nat \<Rightarrow> kernel \<Rightarrow> MountHandle \<Rightarrow> string \<Rightarrow> Permission \<Rightarrow> (nat + unit result) option prog" where
  "remount n k h target perm =
     checked (check_alive k h) (\<lambda>_.
     checked (State_Monad.return (validate_mount_target target)) (\<lambda>_.
     dynamic_remount n k target perm True (user_ns_fd (mh_inner h)) (mnt_ns_fd (mh_inner h))))"

definition add_tmpfs :: "nat \<Rightarrow> kernel \<Rightarrow> MountHandle \<Rightarrow> string \<Rightarrow> u64 \<Rightarrow> (nat + DynamicMount result) option prog" where
  "add_tmpfs n k h target size_bytes =
     checked (check_alive k h) (\<lambda>_.
     checked (State_Monad.return (validate_mount_target target)) (\<lambda>_.
     in_caller (dynamic_tmpfs n k target size_bytes (user_ns_fd (mh_inner h)) (mnt_ns_fd (mh_inner h))) (\<lambda>r.
     returns (map_sum id (\<lambda>_. mounted_at h target None) r))))"

text \<open>Operations of a mount return its new value with their result.\<close>

definition DynamicMount_remove :: "nat \<Rightarrow> kernel \<Rightarrow> DynamicMount \<Rightarrow> (nat + unit result \<times> DynamicMount) option prog" where
  "DynamicMount_remove n k d =
     (if removed d then returns (Inr (), d)
      else in_caller (dynamic_unmount n k (dm_target d) (user_ns_fd (dm_inner d)) (mnt_ns_fd (dm_inner d))) (\<lambda>r.
        returns (case r of Inl e \<Rightarrow> (Inl e, d) | Inr _ \<Rightarrow> (Inr (), d\<lparr>removed := True\<rparr>))))"

definition DynamicMount_source :: "DynamicMount \<Rightarrow> string option" where
  "DynamicMount_source d = host_source d"

text \<open>\<open>Drop\<close>: a failure to unmount is only logged.\<close>

definition DynamicMount_drop :: "nat \<Rightarrow> kernel \<Rightarrow> DynamicMount \<Rightarrow> (nat + unit) option prog" where
  "DynamicMount_drop n k d =
     (if \<not> removed d
      then in_caller (dynamic_unmount n k (dm_target d) (user_ns_fd (dm_inner d)) (mnt_ns_fd (dm_inner d))) (\<lambda>_. returns ())
      else returns ())"

text \<open>Operations that consume the mount end with its drop.\<close>

definition DynamicMount_detach :: "nat \<Rightarrow> kernel \<Rightarrow> DynamicMount \<Rightarrow> (nat + unit) option prog" where
  "DynamicMount_detach n k d = DynamicMount_drop n k (d\<lparr>removed := True\<rparr>)"

definition remove_mount :: "nat \<Rightarrow> kernel \<Rightarrow> DynamicMount \<Rightarrow> (nat + unit result) option prog" where
  "remove_mount n k d =
     in_caller (DynamicMount_remove n k d) (\<lambda>(r, d'). in_caller (DynamicMount_drop n k d') (\<lambda>_. returns r))"

section \<open>The status byte\<close>

lemma encode_errno_value: "uint (encode_errno e) = min 253 (max 0 e) + 2"
proof -
  let ?m = "min 253 (max 0 e)"
  have "uint (word_of_int ?m :: u8) = ?m" by (simp add: uint_word_of_int)
  then have small: "unat (word_of_int ?m :: u8) = nat ?m" by (metis nat_uint_eq)
  then have "encode_errno e = word_of_int ?m + 2" by (auto simp: encode_errno_def Let_def)
  moreover have "uint (word_of_int ?m + 2 :: u8) = (?m + 2) mod 256"
    by (simp add: uint_word_ariths uint_word_of_int mod_simps)
  ultimately show ?thesis by simp
qed

lemma encode_errno_tags: "encode_errno e \<noteq> STATUS_OK" "encode_errno e \<noteq> STATUS_ERROR" "encode_errno e \<ge> 2"
proof -
  have v: "uint (encode_errno e) \<ge> 2" by (simp add: encode_errno_value)
  then show "encode_errno e \<ge> 2" by (simp add: word_le_def)
  from v show "encode_errno e \<noteq> STATUS_OK" "encode_errno e \<noteq> STATUS_ERROR"
    by (auto simp: STATUS_OK_def STATUS_ERROR_def)
qed

text \<open>C0: the byte with which the helper reports a failed operation never reads as success or as the
  generic failure, and the caller reads back from it the errno the helper saw, limited to 0 to 253.\<close>

theorem status_byte_roundtrip:
  "decode_status k (Inr [encode_errno errno])
     = Inl (mount_op_error (''helper failed: '' @ format_errno k (min 253 (max 0 errno))))"
proof -
  have "uint (encode_errno errno - 2) = uint (encode_errno errno) - uint (2 :: u8)"
    using encode_errno_tags(3) [of errno] by (simp add: uint_minus_simple_alt word_le_def)
  then have "uint (encode_errno errno - 2) = min 253 (max 0 errno)" by (simp add: encode_errno_value)
  then show ?thesis
    using encode_errno_tags [of errno] by (simp add: decode_status_def)
qed

lemma decode_status_ok: "decode_status k ans = Inr u \<longleftrightarrow> ans = Inr [STATUS_OK]"
  by (auto simp: decode_status_def STATUS_OK_def STATUS_ERROR_def split: sum.splits list.splits if_splits)

section \<open>The directories above a mount point\<close>

text \<open>Reference definition: the prefixes of the path that end with a component.\<close>

definition component_end :: "string \<Rightarrow> nat \<Rightarrow> bool" where
  "component_end path i \<longleftrightarrow> path ! (i - 1) \<noteq> CHR ''/'' \<and> (i = length path \<or> path ! i = CHR ''/'')"

definition ends_after :: "nat \<Rightarrow> string \<Rightarrow> nat list" where
  "ends_after i path = filter (component_end path) [Suc i..<Suc (length path)]"

definition ancestors :: "string \<Rightarrow> string list" where
  "ancestors path = map (\<lambda>i. take i path) (ends_after 0 path)"

lemma nth_takeWhile_range:
  "i \<le> j \<Longrightarrow> j < i + length (takeWhile P (drop i xs)) \<Longrightarrow> P (xs ! j)"
proof -
  assume a: "i \<le> j" "j < i + length (takeWhile P (drop i xs))"
  then have "takeWhile P (drop i xs) ! (j - i) \<in> set (takeWhile P (drop i xs))" by (intro nth_mem) arith
  then have "P (takeWhile P (drop i xs) ! (j - i))" by (metis set_takeWhileD)
  moreover have "takeWhile P (drop i xs) ! (j - i) = drop i xs ! (j - i)" using a by (intro takeWhile_nth) arith
  moreover have "i \<le> length xs"
    using a by (cases "i \<le> length xs") auto
  ultimately show "P (xs ! j)" using a by simp
qed

lemma slashes_between: "i \<le> j \<Longrightarrow> j < skip_slashes path i \<Longrightarrow> path ! j = CHR ''/''"
  by (rule nth_takeWhile_range [where P = "\<lambda>c. c = CHR ''/''"]) (auto simp: skip_slashes_def)

lemma component_between: "i \<le> j \<Longrightarrow> j < skip_component path i \<Longrightarrow> path ! j \<noteq> CHR ''/''"
  by (rule nth_takeWhile_range [where P = "\<lambda>c. c \<noteq> CHR ''/''"]) (auto simp: skip_component_def)

lemma skip_component_stops:
  assumes "skip_component path i < length path" shows "path ! skip_component path i = CHR ''/''"
proof -
  let ?t = "takeWhile (\<lambda>c. c \<noteq> CHR ''/'') (drop i path)"
  have "length ?t < length (drop i path)" using assms by (simp add: skip_component_def)
  from nth_length_takeWhile [OF this] show ?thesis using assms by (simp add: skip_component_def)
qed

lemma ends_after_step:
  assumes "i \<le> length path"
  shows "ends_after i path =
    (if skip_slashes path i \<ge> length path then []
     else let e = skip_component path (skip_slashes path i) in e # ends_after e path)"
proof -
  let ?s = "skip_slashes path i"
  have s: "i \<le> ?s" "?s \<le> length path" using skip_bounds(1) [OF assms] by auto
  have none: "\<not> component_end path j" if "i < j" "j \<le> ?s" for j
    using slashes_between [of i "j - 1" path] that by (auto simp: component_end_def)
  show ?thesis
  proof (cases "?s \<ge> length path")
    case True
    then show ?thesis using none s by (auto simp: ends_after_def filter_empty_conv)
  next
    case False
    let ?e = "skip_component path ?s"
    have e: "?s < ?e" "?e \<le> length path"
      using skip_component_moves [OF _ skip_slashes_stops, of path i] skip_bounds(2) [of ?s path] False by auto
    have inner: "\<not> component_end path j" if "i < j" "j < ?e" for j
    proof (cases "j \<le> ?s")
      case True then show ?thesis by (rule none [OF that(1)])
    next
      case False
      then show ?thesis using component_between [of ?s j path] that e by (auto simp: component_end_def)
    qed
    have "path ! (?e - 1) \<noteq> CHR ''/''" by (rule component_between [of ?s]) (use e in auto)
    moreover have "?e = length path \<or> path ! ?e = CHR ''/''"
      using e(2) skip_component_stops [of path ?s] le_neq_implies_less by blast
    ultimately have last: "component_end path ?e" by (simp add: component_end_def)
    have "[Suc i..<Suc (length path)] = [Suc i..<?e] @ ?e # [Suc ?e..<Suc (length path)]"
      using s e by (metis (no_types, lifting) Suc_leI less_Suc_eq_le order_le_less_trans upt_conv_Cons upt_add_eq_append le_add_diff_inverse le_SucI)
    moreover have "filter (component_end path) [Suc i..<?e] = []" using inner by (auto simp: filter_empty_conv)
    ultimately show ?thesis using last False by (simp add: ends_after_def Let_def)
  qed
qed

text \<open>The directories a trace creates, or finds.\<close>

fun made_dir :: "event \<Rightarrow> string option" where
  "made_dir (Raw (Mkdirat fd p mode) r) = (if r \<ge> 0 \<or> - r = EEXIST then Some p else None)"
| "made_dir e = None"

definition made_dirs :: "event list \<Rightarrow> string list" where
  "made_dirs es = List.map_filter made_dir es"

lemma made_dirs_simps [simp]:
  "made_dirs [] = []"
  "made_dirs (e # es) = (case made_dir e of None \<Rightarrow> made_dirs es | Some p \<Rightarrow> p # made_dirs es)"
  by (auto simp: made_dirs_def map_filter_simps split: option.splits)

fun is_mkdir :: "event \<Rightarrow> bool" where
  "is_mkdir (Raw (Mkdirat fd p mode) r) = True"
| "is_mkdir e = False"

definition mkdir_targets :: "nat \<Rightarrow> string \<Rightarrow> string list" where
  "mkdir_targets i path = map (\<lambda>e. c_view (take e path)) (ends_after i path)"

lemma mkdir_from_makes:
  "i \<le> length path \<Longrightarrow> run_state (mkdir_from k dirfd path i) w = (r, w') \<Longrightarrow>
     \<exists>es. trace w' = trace w @ es \<and> list_all is_mkdir es \<and> prefix (made_dirs es) (mkdir_targets i path)
        \<and> (r = 0 \<longrightarrow> made_dirs es = mkdir_targets i path \<and> list_all (\<lambda>e. e < 4096) (ends_after i path))"
proof (induction k dirfd path i arbitrary: w rule: mkdir_from.induct)
  case (1 k dirfd path i)
  let ?s = "skip_slashes path i" and ?e = "skip_component path (skip_slashes path i)"
  let ?p = "c_view (take ?e path)"
  define x where "x = k_raw k (trace w) (Mkdirat dirfd ?p 493)"
  note run = 1(3) [unfolded mkdir_from.simps [of k dirfd path i] Let_def]
  consider (finished) "?s \<ge> length path" | (long) "\<not> ?s \<ge> length path" "?e \<ge> 4096"
    | (failed) "\<not> ?s \<ge> length path" "\<not> ?e \<ge> 4096" "x < 0" "- x \<noteq> EEXIST"
    | (made) "\<not> ?s \<ge> length path" "\<not> ?e \<ge> 4096" "x \<ge> 0 \<or> - x = EEXIST" by linarith
  then show ?case
  proof cases
    case finished
    then show ?thesis using run ends_after_step [OF 1(2)] by (auto simp: run_simps mkdir_targets_def intro!: exI [of _ "[]"])
  next
    case long
    then show ?thesis using run by (auto simp: run_simps ENAMETOOLONG_def intro!: exI [of _ "[]"])
  next
    case failed
    then show ?thesis using run
      by (auto simp: run_simps raw_call_def x_def [symmetric] intro!: exI [of _ "[Raw (Mkdirat dirfd ?p 493) x]"])
  next
    case made
    let ?ev = "Raw (Mkdirat dirfd ?p 493) x"
    have e: "?e \<le> length path" using skip_bounds(2) [of ?s path] made(1) by simp
    have rest: "run_state (mkdir_from k dirfd path ?e) (log_event ?ev w) = (r, w')"
      using run made by (auto simp: run_simps raw_call_def x_def [symmetric])
    obtain es where es: "trace w' = trace (log_event ?ev w) @ es" "list_all is_mkdir es"
        "prefix (made_dirs es) (mkdir_targets ?e path)"
        "r = 0 \<longrightarrow> made_dirs es = mkdir_targets ?e path \<and> list_all (\<lambda>e. e < 4096) (ends_after ?e path)"
      using 1(1) [OF refl made(1) refl made(2) _ e rest] made(3) by force
    have "ends_after i path = ?e # ends_after ?e path"
      using ends_after_step [OF 1(2)] made(1) by (simp add: Let_def)
    then show ?thesis
      using es made by (intro exI [of _ "?ev # es"]) (auto simp: mkdir_targets_def)
  qed
qed

text \<open>C0: making a mount point creates, from the outermost, exactly the directories on the way to it:
  every prefix of the path that ends with a component (up to a NUL byte, where the kernel stops reading).
  When it fails, the directories made are the first of these.\<close>

theorem raw_mkdir_p_makes_ancestors:
  assumes "run_state (raw_mkdir_p k dirfd path) w = (r, w')"
  shows "prefix (made_dirs (new_events w w')) (map c_view (ancestors path))
    \<and> (r = 0 \<longrightarrow> made_dirs (new_events w w') = map c_view (ancestors path))"
  using mkdir_from_makes [OF _ assms [unfolded raw_mkdir_p_def]]
  by (auto simp: new_events_append mkdir_targets_def ancestors_def comp_def)

theorem raw_mkdir_p_makes_ancestors_witness:
  "\<exists>w'. run_state (raw_mkdir_p granting_kernel AT_FDCWD ''/data//in/x'') initial_world = (0, w')
     \<and> made_dirs (new_events initial_world w') = [''/data'', ''/data//in'', ''/data//in/x'']"
proof -
  obtain r w' where run: "run_state (raw_mkdir_p granting_kernel AT_FDCWD ''/data//in/x'') initial_world = (r, w')"
    by force
  have "fst (run_state (raw_mkdir_p granting_kernel AT_FDCWD ''/data//in/x'') initial_world) = 0"
    by (simp add: raw_mkdir_p_def mkdir_from.simps skip_slashes_def skip_component_def run_state_bind raw_call_def
        syscall_def Let_def granting_kernel_def)
  then have "r = 0" by (simp add: run)
  moreover have "map c_view (ancestors ''/data//in/x'') = [''/data'', ''/data//in'', ''/data//in/x'']" by code_simp
  ultimately show ?thesis using raw_mkdir_p_makes_ancestors [OF run] run by auto
qed

section \<open>What the helper reports\<close>

text \<open>Events that write no byte.\<close>

fun is_write :: "event \<Rightarrow> bool" where
  "is_write (Raw (WriteFd fd data) r) = True"
| "is_write e = False"

abbreviation silent :: "'a prog \<Rightarrow> bool" where
  "silent \<equiv> emits (\<lambda>e. \<not> is_write e)"

text \<open>Events that write no byte and change no mount.\<close>

fun plumbing :: "event \<Rightarrow> bool" where
  "plumbing (Raw (WriteFd fd data) r) = False"
| "plumbing (Raw (MoveMount fd p f) r) = False"
| "plumbing (Raw (MountCall s t ty f d) r) = False"
| "plumbing (Raw (Umount2 p f) r) = False"
| "plumbing e = True"

lemma plumbing_no_write: "plumbing e \<Longrightarrow> \<not> is_write e"
  by (cases e rule: is_write.cases) simp_all

lemma plumbing_no_writes: "list_all plumbing es \<Longrightarrow> list_all (\<lambda>e. \<not> is_write e) es"
  by (auto simp: list_all_iff plumbing_no_write)

lemma plumbing_enter_ns: "emits plumbing (enter_ns k p f)"
  by (auto simp: enter_ns_def close_raw_def raw_call_def intro!: emits_intros)

lemma report_run:
  "run_state (report k fd b n) w = (r, w') \<Longrightarrow> \<exists>x. trace w' = trace w @ [Raw (WriteFd fd [b]) x]"
  by (auto simp: report_def raw_write_def write_raw_def raw_call_def run_simps)

text \<open>The helper writes once, at its end, and it writes success only when its operation returned 0.\<close>

definition reports :: "world \<Rightarrow> world \<Rightarrow> u8 \<Rightarrow> event list \<Rightarrow> bool" where
  "reports w w' b es \<longleftrightarrow> (\<exists>fd x. trace w' = trace w @ es @ [Raw (WriteFd fd [b]) x]) \<and> list_all (\<lambda>e. \<not> is_write e) es"

lemma reportsI:
  assumes "run_state (report k fd b n) v = (r, w')" "trace v = trace w @ es" "list_all (\<lambda>e. \<not> is_write e) es"
  shows "reports w w' b es"
  using report_run [OF assms(1)] assms(2,3) by (auto simp: reports_def)

lemma helper_body_reports:
  assumes run: "run_state (helper_body k u m status_r status_w pre op) w = (ec, w')"
    and pre: "emits plumbing (run_pre_op pre)" and op: "\<And>cell. silent (op cell)"
  obtains (failed) b es where "reports w w' b es" "b \<noteq> STATUS_OK" "list_all plumbing es"
    | (worked) b es cell v v' r as bs where "reports w w' b es" "run_state (op cell) v = (r, v')" "r \<noteq> 0 \<longrightarrow> b \<noteq> STATUS_OK"
        "trace v = trace w @ as" "trace v' = trace v @ bs" "es = as @ bs" "list_all plumbing as"
proof -
  obtain c w1 where 1: "run_state (close_raw k status_r) w = (c, w1)" by force
  obtain a w2 where 2: "run_state (enter_ns k (''/proc/self/fd/'' @ show_int u) CLONE_NEWUSER) w1 = (a, w2)" by force
  obtain pr cell w3 where 3: "run_state (run_pre_op pre) w2 = ((pr, cell), w3)" by (metis prod.exhaust_sel)
  obtain b w4 where 4: "run_state (enter_ns k (''/proc/self/fd/'' @ show_int m) CLONE_NEWNS) w3 = (b, w4)" by force
  obtain r w5 where 5: "run_state (op cell) w4 = (r, w5)" by force
  have "emits plumbing (close_raw k status_r)" by (auto simp: close_raw_def raw_call_def intro!: emits_intros)
  from emits_run [OF this 1] obtain e1 where e1: "trace w1 = trace w @ e1" "list_all plumbing e1" by blast
  from emits_run [OF plumbing_enter_ns 2] e1 obtain e2 where e2: "trace w2 = trace w @ e2" "list_all plumbing e2"
    by (metis append_assoc list_all_append)
  from emits_run [OF pre 3] e2 obtain e3 where e3: "trace w3 = trace w @ e3" "list_all plumbing e3"
    by (metis append_assoc list_all_append)
  from emits_run [OF plumbing_enter_ns 4] e3 obtain e4 where e4: "trace w4 = trace w @ e4" "list_all plumbing e4"
    by (metis append_assoc list_all_append)
  from emits_run [OF op 5] obtain bs where e5: "trace w5 = trace w4 @ bs" "list_all (\<lambda>e. \<not> is_write e) bs" by blast
  have error: "STATUS_ERROR \<noteq> STATUS_OK" by (simp add: STATUS_OK_def STATUS_ERROR_def)
  consider (user) "\<not> a" | (pre) "a" "pr \<noteq> 0" | (mnt) "a" "pr = 0" "\<not> b" | (op) "a" "pr = 0" "b" by blast
  then show thesis
  proof cases
    case user
    then have "run_state (report k status_w STATUS_ERROR 1) w2 = (ec, w')"
      using run 1 2 by (auto simp: helper_body_def run_state_bind)
    from reportsI [OF this e2(1) plumbing_no_writes [OF e2(2)]] e2(2) show thesis using error by (intro failed)
  next
    case pre
    then have "run_state (report k status_w (encode_errno pr) 1) w3 = (ec, w')"
      using run 1 2 3 by (auto simp: helper_body_def run_state_bind)
    from reportsI [OF this e3(1) plumbing_no_writes [OF e3(2)]] e3(2) show thesis using encode_errno_tags by (intro failed)
  next
    case mnt
    then have "run_state (report k status_w STATUS_ERROR 1) w4 = (ec, w')"
      using run 1 2 3 4 by (auto simp: helper_body_def run_state_bind)
    from reportsI [OF this e4(1) plumbing_no_writes [OF e4(2)]] e4(2) show thesis using error by (intro failed)
  next
    case op
    then have "run_state (report k status_w (if r = 0 then STATUS_OK else encode_errno r) 0) w5 = (ec, w')"
      using run 1 2 3 4 5 by (auto simp: helper_body_def run_state_bind)
    moreover have "trace w5 = trace w @ e4 @ bs" using e4 e5 by simp
    ultimately have "reports w w' (if r = 0 then STATUS_OK else encode_errno r) (e4 @ bs)"
      by (rule reportsI) (use plumbing_no_writes [OF e4(2)] e5 in auto)
    then show thesis by (rule worked [OF _ 5 _ e4(1) e5(1) refl e4(2)]) (use encode_errno_tags in auto)
  qed
qed

lemma await_helper_ok:
  assumes "run_state (await_helper n k pid status_r status_w) w = (Some (Inr u), w')"
  shows "\<exists>as d. trace w' = trace w @ as @ [ReadFd status_r 1 (Inr [STATUS_OK]), d]"
proof -
  obtain c w1 where 1: "run_state (close_raw k status_w) w = (c, w1)" by force
  obtain x w2 where 2: "run_state (waitpid_retry n k (word_of_int pid) False) w1 = (x, w2)" by force
  have "appends (close_raw k status_w)" by (auto simp: close_raw_def raw_call_def intro!: emits_intros)
  with 1 obtain as where as: "trace w1 = trace w @ as" using appends_run by metis
  obtain bs where bs: "trace w2 = trace w1 @ bs" using waitpid_retry_fuel [OF 2] by blast
  obtain st ans w3 where x: "x = Some (Inr st)" and read: "run_state (read_raw k status_r 1) w2 = (ans, w3)"
      and tail: "run_state (close_raw k status_r \<bind> (\<lambda>_. State_Monad.return (Some (decode_status k ans)))) w3 = (Some (Inr u), w')"
    using assms 1 2 by (auto simp: await_helper_def run_simps split: option.splits sum.splits)
  have "ans = Inr [STATUS_OK]" using tail by (auto simp: run_simps decode_status_ok)
  moreover have "trace w3 = trace w2 @ [ReadFd status_r 1 ans]"
    using read by (auto simp: read_raw_def read_fd_def run_simps)
  moreover have "\<exists>d. trace w' = trace w3 @ [d]"
    using tail by (auto simp: close_raw_def raw_call_def run_simps)
  ultimately show ?thesis using as bs by auto
qed

lemma fork_cases:
  assumes "run_state (fork_in_namespaces n k u m pre op) w = (r, w')"
  obtains (helper) ec v status_r status_w as where "r = Some (Inl ec)"
      "run_state (helper_body k u m status_r status_w pre op) v = (ec, w')" "trace v = trace w @ as" "list_all plumbing as"
    | (ok) fd where "r = Some (Inr (Inr ()))" "ReadFd fd 1 (Inr [STATUS_OK]) \<in> set (new_events w w')"
    | (failed) e where "r = Some (Inr (Inl e))"
    | (stuck) "r = None"
proof -
  define p where "p = k_pipe k (trace w) False"
  show thesis
  proof (cases p)
    case (Inl e)
    then show thesis using assms p_def failed
      by (auto simp: fork_in_namespaces_def make_pipe_def run_simps)
  next
    case (Inr q)
    obtain status_r status_w where q: "q = (status_r, status_w)" by force
    let ?w1 = "log_event (MakePipe False (Inr (status_r, status_w))) w"
    have p: "k_pipe k (trace w) False = Inr (status_r, status_w)" using Inr q p_def by simp
    define pid where "pid = k_raw k (trace w @ [MakePipe False (Inr (status_r, status_w))]) ForkHelper"
    let ?w2 = "log_event (Raw ForkHelper pid) ?w1"
    have run: "run_state (if pid < 0 then close_raw k status_r \<bind> (\<lambda>_. close_raw k status_w \<bind> (\<lambda>_.
           State_Monad.return (Some (Inr (Inl (mount_op_error (''fork() failed: '' @ format_errno k (- pid))))))))
         else if pid = 0 then helper_body k u m status_r status_w pre op \<bind> (\<lambda>ec. State_Monad.return (Some (Inl ec)))
         else obind (await_helper n k pid status_r status_w) (\<lambda>r. State_Monad.return (Some (Inr r)))) ?w2 = (r, w')"
      using assms
      by (simp add: fork_in_namespaces_def make_pipe_def raw_call_def run_state_bind syscall_def Let_def
          p pid_def [symmetric])
    consider "pid < 0" | "pid = 0" | "pid > 0" by linarith
    then show thesis
    proof cases
      case 1
      then show thesis using run failed by (auto simp: run_simps)
    next
      case 2
      then obtain ec where "r = Some (Inl ec)" "run_state (helper_body k u m status_r status_w pre op) ?w2 = (ec, w')"
        using run by (auto simp: run_simps)
      then show thesis by (rule helper [where as = "[MakePipe False (Inr (status_r, status_w)), Raw ForkHelper pid]"]) auto
    next
      case 3
      then obtain x where x: "run_state (await_helper n k pid status_r status_w) ?w2 = (x, w')"
          "r = map_option Inr x"
        using run by (auto simp: run_simps)
      show thesis
      proof (cases x)
        case None
        then show thesis using x stuck by simp
      next
        case (Some y)
        show thesis
        proof (cases y)
          case (Inl e)
          then show thesis using x Some failed by simp
        next
          case (Inr z)
          with x(1) Some have "run_state (await_helper n k pid status_r status_w) ?w2 = (Some (Inr z), w')" by simp
          from await_helper_ok [OF this] have "ReadFd status_r 1 (Inr [STATUS_OK]) \<in> set (new_events w w')"
            by (auto simp: new_events_def)
          then show thesis using x Some Inr ok by simp
        qed
      qed
    qed
  qed
qed

section \<open>A mount is restricted or it is gone\<close>

definition attached :: "string \<Rightarrow> event list \<Rightarrow> bool" where
  "attached t es \<longleftrightarrow> (\<exists>fd f x. Raw (MoveMount fd t f) x \<in> set es \<and> x \<ge> 0)"

definition restricted :: "string \<Rightarrow> u64 option \<Rightarrow> event list \<Rightarrow> bool" where
  "restricted t flags es \<longleftrightarrow> (case flags of None \<Rightarrow> True | Some f \<Rightarrow> \<exists>x. Raw (MountCall None t None f None) x \<in> set es \<and> x \<ge> 0)"

text \<open>After the mount was attached, its detaching was requested.\<close>

definition detached :: "string \<Rightarrow> event list \<Rightarrow> bool" where
  "detached t es \<longleftrightarrow> (\<exists>as bs fd f x y. es = as @ bs \<and> Raw (MoveMount fd t f) x \<in> set as \<and> Raw (Umount2 t MNT_DETACH) y \<in> set bs)"

lemma detached_mono: "detached t es \<Longrightarrow> detached t (as @ es @ bs)"
  unfolding detached_def by (metis (no_types, opaque_lifting) Un_iff append_assoc set_append)

lemma plumbing_not_attached: "list_all plumbing es \<Longrightarrow> \<not> attached t es"
  by (auto simp: attached_def list_all_iff)

lemma attached_append [simp]: "attached t (as @ bs) \<longleftrightarrow> attached t as \<or> attached t bs"
  by (auto simp: attached_def)

lemma attached_simps [simp]:
  "\<not> attached t []"
  "attached t (Raw (MoveMount fd p f) x # es) \<longleftrightarrow> p = t \<and> x \<ge> 0 \<or> attached t es"
  "attached t (Raw (CloseFd fd) x # es) \<longleftrightarrow> attached t es"
  "attached t (Raw (WriteFd fd data) x # es) \<longleftrightarrow> attached t es"
  "attached t (Raw (MountCall a b c d e) x # es) \<longleftrightarrow> attached t es"
  "attached t (Raw (Umount2 p g) x # es) \<longleftrightarrow> attached t es"
  by (auto simp: attached_def)

lemma mkdirs_plumbing: "list_all is_mkdir es \<Longrightarrow> list_all plumbing es"
  by (auto simp: list_all_iff elim!: is_mkdir.elims(2))

lemma attach_op_outcome:
  assumes "run_state (attach_op k target flags fd) w = (r, w')"
  shows "\<exists>es. trace w' = trace w @ es \<and> list_all (\<lambda>e. \<not> is_write e) es
    \<and> (r = 0 \<longrightarrow> attached (c_view target) es \<and> restricted (c_view target) flags es)
    \<and> (\<forall>t. attached t es \<longrightarrow> t = c_view target \<and> (r = 0 \<or> detached t es))"
proof -
  obtain mr w1 where 1: "run_state (raw_mkdir_p k AT_FDCWD target) w = (mr, w1)" by force
  then obtain ds where ds: "trace w1 = trace w @ ds" "list_all plumbing ds"
    using mkdir_from_makes [OF _ 1 [unfolded raw_mkdir_p_def]] mkdirs_plumbing by fastforce
  have quiet: "list_all (\<lambda>e. \<not> is_write e) ds" by (rule plumbing_no_writes [OF ds(2)])
  show ?thesis
  proof (cases "mr = 0 \<and> length target < 4096")
    case False
    then have "\<exists>x. r \<noteq> 0 \<and> trace w' = trace w1 @ [Raw (CloseFd fd) x]"
      using assms 1 by (auto simp: attach_op_def close_raw_def raw_call_def run_state_bind syscall_def Let_def ENAMETOOLONG_def
          split: if_splits)
    then obtain x where "r \<noteq> 0" "trace w' = trace w @ ds @ [Raw (CloseFd fd) x]" using ds by auto
    then show ?thesis using quiet plumbing_not_attached [OF ds(2)]
      by (intro exI [of _ "ds @ [Raw (CloseFd fd) x]"]) (auto simp: attached_simps)
  next
    case True
    let ?t = "c_view target"
    define x where "x = k_raw k (trace w1) (MoveMount fd ?t MOVE_MOUNT_F_EMPTY_PATH)"
    let ?mv = "Raw (MoveMount fd ?t MOVE_MOUNT_F_EMPTY_PATH) x"
    let ?w2 = "log_event ?mv w1"
    have noleft: "\<not> attached u ds" for u by (rule plumbing_not_attached [OF ds(2)])
    define c where "c = k_raw k (trace w1 @ [?mv]) (CloseFd fd)"
    let ?w3 = "log_event (Raw (CloseFd fd) c) ?w2"
    have run: "run_state (if x < 0 then State_Monad.return (- x) else restrict_mount k ?t flags) ?w3 = (r, w')"
      using assms True 1 by (simp add: attach_op_def close_raw_def raw_call_def run_state_bind syscall_def Let_def
          x_def [symmetric] c_def [symmetric])
    let ?start = "ds @ [?mv, Raw (CloseFd fd) c]"
    have start: "trace ?w3 = trace w @ ?start" using ds by simp
    show ?thesis
    proof (cases "x < 0")
      case True
      then show ?thesis using run start quiet noleft
        by (intro exI [of _ ?start]) (auto simp: run_simps attached_simps)
    next
      case pos: False
      show ?thesis
      proof (cases flags)
        case None
        then show ?thesis using run start quiet pos noleft
          by (intro exI [of _ ?start]) (auto simp: run_simps attached_simps restricted_def restrict_mount_def)
      next
        case (Some f)
        define y where "y = k_raw k (trace w1 @ [?mv, Raw (CloseFd fd) c]) (MountCall None ?t None f None)"
        let ?re = "Raw (MountCall None ?t None f None) y"
        show ?thesis
        proof (cases "y < 0")
          case True
          then obtain z where "r = - y" "trace w' = trace w @ ?start @ [?re, Raw (Umount2 ?t MNT_DETACH) z]"
            using run pos Some start
            by (auto simp: restrict_mount_def raw_call_def run_simps y_def [symmetric])
          moreover have "detached ?t (?start @ [?re, Raw (Umount2 ?t MNT_DETACH) z])"
            unfolding detached_def by (rule exI [of _ ?start], rule exI [of _ "[?re, Raw (Umount2 ?t MNT_DETACH) z]"]) auto
          ultimately show ?thesis using True quiet noleft
            by (intro exI [of _ "?start @ [?re, Raw (Umount2 ?t MNT_DETACH) z]"]) (auto simp: attached_simps)
        next
          case False
          then have "r = 0" "trace w' = trace w @ ?start @ [?re]"
            using run pos Some start by (auto simp: restrict_mount_def raw_call_def run_simps y_def [symmetric])
          then show ?thesis using False Some pos quiet noleft
            by (intro exI [of _ "?start @ [?re]"]) (auto simp: attached_simps restricted_def)
        qed
      qed
    qed
  qed
qed

lemma bind_mount_cases:
  assumes "run_state (dynamic_bind_mount n k src target perm u m) w = (r, w')"
  obtains (refused) e where "r = Some (Inr (Inl e))"
    | (forked) recursive v x where "trace v = trace w @ [x, PathIsDir src recursive]" "plumbing x"
        "run_state (fork_in_namespaces n k u m (Some (open_tree_op k src (tree_flags recursive)))
           (attach_op k target (remount_flags perm recursive))) v = (r, w')"
  using assms
  apply (auto simp: dynamic_bind_mount_def checked_def returns_def probe_mount_api_def raw_call_def path_is_dir_def run_simps
      split: sum.splits if_splits intro: refused)
   apply (rule forked [rotated 2], assumption, simp, simp)+
  done

lemma plumbing_open_tree: "emits plumbing (run_pre_op (Some (open_tree_op k src f)))"
  by (auto simp: run_pre_op_def open_tree_op_def raw_call_def intro!: emits_intros)

lemma attach_op_silent: "silent (attach_op k target flags fd)"
  unfolding emits_def
proof
  fix w
  obtain r w' where run: "run_state (attach_op k target flags fd) w = (r, w')" by force
  show "\<exists>es. trace (snd (run_state (attach_op k target flags fd) w)) = trace w @ es \<and> list_all (\<lambda>e. \<not> is_write e) es"
    using attach_op_outcome [OF run] run by auto
qed

text \<open>The helper of a bind mount: which directory answer it used, what it wrote last, and what it did
  to the target.\<close>

lemma bind_helper_outcome:
  assumes "run_state (dynamic_bind_mount n k src target perm u m) w = (Some (Inl ec), w')"
  shows "\<exists>recursive es fd b x. new_events w w' = es @ [Raw (WriteFd fd [b]) x] \<and> list_all (\<lambda>e. \<not> is_write e) es
    \<and> PathIsDir src recursive \<in> set es
    \<and> (b = STATUS_OK \<longrightarrow> attached (c_view target) es \<and> restricted (c_view target) (remount_flags perm recursive) es)
    \<and> (\<forall>t. attached t es \<longrightarrow> t = c_view target
           \<and> (restricted t (remount_flags perm recursive) es \<or> b \<noteq> STATUS_OK \<and> detached t es))"
  using assms
proof (cases rule: bind_mount_cases)
  case (forked recursive v x)
  let ?flags = "remount_flags perm recursive"
  let ?pre = "[x, PathIsDir src recursive]"
  from forked(3) show ?thesis
  proof (cases rule: fork_cases)
    case (helper ec' v1 status_r status_w as)
    let ?as = "?pre @ as"
    have start: "trace v1 = trace w @ ?as" "list_all plumbing ?as"
      using helper forked(1,2) by auto
    from helper(2) plumbing_open_tree attach_op_silent show ?thesis
    proof (cases rule: helper_body_reports)
      case (failed b es)
      then obtain fd y where "trace w' = trace v1 @ es @ [Raw (WriteFd fd [b]) y]" by (auto simp: reports_def)
      moreover have "list_all plumbing (?as @ es)" using start failed by simp
      ultimately have "new_events w w' = (?as @ es) @ [Raw (WriteFd fd [b]) y]" "list_all (\<lambda>e. \<not> is_write e) (?as @ es)"
          "\<And>t. \<not> attached t (?as @ es)" "PathIsDir src recursive \<in> set (?as @ es)"
        using start plumbing_no_writes plumbing_not_attached by (simp_all only: new_events_def) auto
      then show ?thesis using failed(2) by blast
    next
      case (worked b es cell v2 v3 r cs bs)
      obtain bs' where op: "trace v3 = trace v2 @ bs'"
        "r = 0 \<longrightarrow> attached (c_view target) bs' \<and> restricted (c_view target) ?flags bs'"
        "\<forall>t. attached t bs' \<longrightarrow> t = c_view target \<and> (r = 0 \<or> detached t bs')"
        using attach_op_outcome [OF worked(2)] by blast
      then have bs: "bs' = bs" using worked by simp
      obtain fd y where tr: "trace w' = trace v1 @ es @ [Raw (WriteFd fd [b]) y]" and silent: "list_all (\<lambda>e. \<not> is_write e) es"
        using worked(1) by (auto simp: reports_def)
      let ?es = "(?as @ cs) @ bs"
      have plain: "list_all plumbing (?as @ cs)" using start worked by simp
      have att: "attached t ?es \<longleftrightarrow> attached t bs" for t
        unfolding attached_append [of t "?as @ cs" bs] using plumbing_not_attached [OF plain] by blast
      have det: "detached t bs \<Longrightarrow> detached t ?es" for t
        using detached_mono [of t bs "?as @ cs" "[]"] by simp
      have restr: "restricted t f bs \<Longrightarrow> restricted t f ?es" for t f
        by (auto simp: restricted_def split: option.splits)
      have silent': "list_all (\<lambda>e. \<not> is_write e) ?es"
        using plumbing_no_writes [OF plain] silent worked(6) by simp
      have "new_events w w' = ?es @ [Raw (WriteFd fd [b]) y]"
        using tr start worked(6) by (simp add: new_events_def)
      moreover have "b = STATUS_OK \<longrightarrow> attached (c_view target) ?es \<and> restricted (c_view target) ?flags ?es"
        using worked(3) op(2) att restr unfolding bs by blast
      moreover have "attached t ?es \<longrightarrow> t = c_view target \<and> (restricted t ?flags ?es \<or> b \<noteq> STATUS_OK \<and> detached t ?es)" for t
        using worked(3) op(2,3) att restr det unfolding bs by metis
      moreover have "PathIsDir src recursive \<in> set ?es" by simp
      ultimately show ?thesis using silent' by blast
    qed
  qed simp_all
qed simp

text \<open>C0: a dynamic bind mount is never left less restricted than asked for. Whatever the helper attached
  is at the target, and it was remounted with the flags of the permission, or its detaching was
  requested and a failure was reported.\<close>

theorem attached_mount_is_restricted_or_detached:
  assumes "run_state (dynamic_bind_mount n k src target perm u m) w = (Some (Inl ec), w')"
    and "attached t (new_events w w')"
  shows "t = c_view target \<and> (\<exists>recursive. PathIsDir src recursive \<in> set (new_events w w')
    \<and> (restricted t (remount_flags perm recursive) (new_events w w')
       \<or> detached t (new_events w w') \<and> (\<exists>b fd x. b \<noteq> STATUS_OK \<and> last (new_events w w') = Raw (WriteFd fd [b]) x)))"
proof -
  obtain recursive es fd b x where h: "new_events w w' = es @ [Raw (WriteFd fd [b]) x]"
      "PathIsDir src recursive \<in> set es"
      "\<forall>t. attached t es \<longrightarrow> t = c_view target
           \<and> (restricted t (remount_flags perm recursive) es \<or> b \<noteq> STATUS_OK \<and> detached t es)"
    using bind_helper_outcome [OF assms(1)] by blast
  have "attached t es" using assms(2) h(1) by simp
  moreover have "detached t es \<Longrightarrow> detached t (new_events w w')"
    using detached_mono [of t es "[]"] h(1) by simp
  moreover have "restricted t f es \<Longrightarrow> restricted t f (new_events w w')" for f
    using h(1) by (auto simp: restricted_def split: option.splits)
  moreover have "PathIsDir src recursive \<in> set (new_events w w')" using h(1,2) by simp
  moreover have "last (new_events w w') = Raw (WriteFd fd [b]) x" using h(1) by simp
  ultimately show ?thesis using h(3) by meson
qed

text \<open>C0: when the caller is told that a bind mount succeeded, and the byte it read is one its helper wrote,
  then the helper attached the mount at the target and applied the restrictions of the permission.\<close>

theorem reported_mount_is_in_place:
  assumes caller: "run_state (dynamic_bind_mount n k src target perm u m) w = (Some (Inr (Inr ())), w')"
    and helper: "run_state (dynamic_bind_mount n' k' src target perm u m) v = (Some (Inl ec), v')"
    and pipe: "\<And>fd b. ReadFd fd 1 (Inr [b]) \<in> set (new_events w w') \<Longrightarrow> \<exists>out x. Raw (WriteFd out [b]) x \<in> set (new_events v v')"
  shows "attached (c_view target) (new_events v v') \<and> (\<exists>recursive. PathIsDir src recursive \<in> set (new_events v v')
    \<and> restricted (c_view target) (remount_flags perm recursive) (new_events v v'))"
proof -
  obtain fd where "ReadFd fd 1 (Inr [STATUS_OK]) \<in> set (new_events w w')"
    using caller
  proof (cases rule: bind_mount_cases)
    case (forked recursive w1 x)
    have sub: "set (new_events w1 w') \<subseteq> set (new_events w w')"
      using forked(1) set_drop_subset_set_drop [of "length (trace w)" "length (trace w1)" "trace w'"]
      by (simp add: new_events_def)
    from forked(3) show thesis
      by (cases rule: fork_cases) (use sub that in auto)
  qed simp
  then obtain out x where written: "Raw (WriteFd out [STATUS_OK]) x \<in> set (new_events v v')" using pipe by blast
  obtain recursive es fd b y where h: "new_events v v' = es @ [Raw (WriteFd fd [b]) y]" "list_all (\<lambda>e. \<not> is_write e) es"
      "PathIsDir src recursive \<in> set es"
      "b = STATUS_OK \<longrightarrow> attached (c_view target) es \<and> restricted (c_view target) (remount_flags perm recursive) es"
    using bind_helper_outcome [OF helper] by blast
  have "b = STATUS_OK" using written h(1,2) by (auto simp: list_all_iff)
  moreover have "restricted t f es \<Longrightarrow> restricted t f (new_events v v')" for t f
    using h(1) by (auto simp: restricted_def split: option.splits)
  ultimately have "attached (c_view target) (new_events v v')" "PathIsDir src recursive \<in> set (new_events v v')"
      "restricted (c_view target) (remount_flags perm recursive) (new_events v v')" using h by simp_all
  then show ?thesis by blast
qed

section \<open>Descriptors\<close>

lemma keeps_raw:
  "(\<And>r. idle fd_step (Raw c r)) \<Longrightarrow> (\<And>r. keeps fd_step H (f r) Q) \<Longrightarrow> keeps fd_step H (raw_call k c \<bind> f) Q"
  by (rule keeps_quiet_bind) (auto simp: raw_call_def intro: emits_intros)

lemma keeps_close_bind:
  "(\<And>r. keeps fd_step H (f r) Q) \<Longrightarrow> keeps fd_step (add_mset fd H) (close_raw k fd \<bind> f) Q"
  by (rule keeps_bind [OF keeps_close]) simp

lemma keeps_open_file:
  "(\<And>r. r < 0 \<Longrightarrow> keeps fd_step H (f r) Q) \<Longrightarrow> (\<And>r. r \<ge> 0 \<Longrightarrow> keeps fd_step (add_mset r H) (f r) Q) \<Longrightarrow>
     keeps fd_step H (raw_call k (OpenFile p) \<bind> f) Q"
  by (rule keeps_bind [where P = "\<lambda>r H'. H' = own_guard r + H"])
    (auto simp: raw_call_def fd_step_def own_guard_def intro: keeps_syscall)

lemma keeps_enter_ns: "(\<And>b. Q b H) \<Longrightarrow> keeps fd_step H (enter_ns k p f) Q"
  unfolding enter_ns_def
  by (intro keeps_open_file keeps_if keeps_return keeps_raw keeps_close_bind) auto

lemma keeps_report: "(\<And>b. Q b H) \<Longrightarrow> keeps fd_step H (report k fd b n) Q"
  unfolding report_def raw_write_def write_raw_def by (intro keeps_raw keeps_return) auto

lemma is_mkdir_idle: "is_mkdir e \<Longrightarrow> idle fd_step e"
  by (cases e rule: is_mkdir.cases) simp_all

lemma keeps_mkdir: "(\<And>r. Q r H) \<Longrightarrow> keeps fd_step H (raw_mkdir_p k dirfd p) Q"
  unfolding keeps_def raw_mkdir_p_def
proof (intro allI impI)
  fix w r w' assume q: "\<And>r. Q r H" and "run_state (mkdir_from k dirfd p 0) w = (r, w')"
  from mkdir_from_makes [OF _ this(2)] obtain es where es: "trace w' = trace w @ es" "list_all is_mkdir es" by auto
  from es(2) have "list_all (idle fd_step) es" by (simp add: list_all_iff is_mkdir_idle)
  then show "\<exists>es s'. trace w' = trace w @ es \<and> steps fd_step H es = Some s' \<and> Q r s'"
    using es(1) q by (intro exI [of _ es] exI [of _ H]) (simp add: steps_idle)
qed

lemma keeps_open_tree:
  "keeps fd_step H (run_pre_op (Some (open_tree_op k src f))) (\<lambda>(r, cell) H'. H' = own_guard cell + H \<and> (r = 0 \<longrightarrow> cell \<ge> 0))"
  unfolding run_pre_op_def open_tree_op_def option.case
  by (rule keeps_bind [where P = "\<lambda>r H'. H' = own_guard r + H"])
    (auto simp: raw_call_def fd_step_def own_guard_def intro: keeps_syscall keeps_return)

lemma keeps_attach_op: "keeps fd_step (add_mset fd H) (attach_op k target flags fd) (\<lambda>_ H'. H' = H)"
  unfolding attach_op_def restrict_mount_def
  by (rule keeps_bind, rule keeps_mkdir [where Q = "\<lambda>_ H'. H' = add_mset fd H"], simp)
    (clarify, intro keeps_if keeps_close_bind keeps_return keeps_raw keeps_case_option, auto)

lemma keeps_target_call: "(\<And>t r. idle fd_step (Raw (c t) r)) \<Longrightarrow> keeps fd_step H (target_call k target c) (\<lambda>_ H'. H' = H)"
  unfolding target_call_def by (intro keeps_if keeps_return keeps_raw) auto

lemma keeps_tmpfs_op: "keeps fd_step H (tmpfs_op k target options) (\<lambda>_ H'. H' = H)"
  unfolding tmpfs_op_def
  by (rule keeps_bind, rule keeps_mkdir [where Q = "\<lambda>_ H'. H' = H"], simp)
    (clarify, intro keeps_if keeps_return keeps_raw, auto)

lemma keeps_await:
  "keeps fd_step (add_mset status_w (add_mset status_r H)) (await_helper n k pid status_r status_w) (ends_with_post (\<lambda>_ H'. H' = H))"
  unfolding await_helper_def
proof (rule keeps_close_bind, rule keeps_quiet_obind)
  show "emits (idle fd_step) (waitpid_retry n k (word_of_int pid) False)"
    by (induction n) (auto simp: waitpid_def intro!: emits_intros)
  have read: "emits (idle fd_step) (read_raw k status_r 1)"
    by (auto simp: read_raw_def read_fd_def intro!: emits_intros)
  show "keeps fd_step (add_mset status_r H) (case x of
       Inl e \<Rightarrow> close_raw k status_r \<bind> (\<lambda>_. State_Monad.return (Some (Inl (mount_op_error (''waitpid failed: '' @ format_errno k e)))))
     | Inr _ \<Rightarrow> read_raw k status_r 1 \<bind> (\<lambda>ans. close_raw k status_r \<bind> (\<lambda>_. State_Monad.return (Some (decode_status k ans)))))
     (ends_with_post (\<lambda>_ H'. H' = H))" for x
    by (intro keeps_case_sum keeps_close_bind keeps_return keeps_quiet_bind [OF read]) simp_all
qed

text \<open>What is left open when a process comes back from the fork: nothing in the caller; the helper
  is about to exit.\<close>

definition caller_kept :: "int multiset \<Rightarrow> (nat + 'a) \<Rightarrow> int multiset \<Rightarrow> bool" where
  "caller_kept H r H' \<longleftrightarrow> (case r of Inl _ \<Rightarrow> True | Inr _ \<Rightarrow> H' = H)"

lemma caller_kept_simps [simp]: "caller_kept H (Inl ec) H'" "caller_kept H (Inr x) H' \<longleftrightarrow> H' = H"
  by (simp_all add: caller_kept_def)

lemma keeps_fork:
  assumes pre: "\<And>H. keeps fd_step H (run_pre_op pre) (\<lambda>(r, cell) H'. H' = own_guard cell + H \<and> (r = 0 \<longrightarrow> C cell))"
    and op: "\<And>cell H. C cell \<Longrightarrow> keeps fd_step (own_guard cell + H) (op cell) (\<lambda>_ H'. H' = H)"
  shows "keeps fd_step H (fork_in_namespaces n k u m pre op) (ends_with_post (caller_kept H))"
proof -
  have helper: "keeps fd_step (add_mset status_r (add_mset status_w H)) (helper_body k u m status_r status_w pre op) (\<lambda>_ _. True)"
    for status_r status_w
    unfolding helper_body_def
    apply (rule keeps_close_bind)
    apply (rule keeps_bind [OF keeps_enter_ns [where Q = "\<lambda>_ H'. H' = add_mset status_w H"]], rule refl)
    apply (clarify, rule keeps_if, rule keeps_report, simp)
    apply (rule keeps_bind [OF pre], rule keeps_case_prod, rule keeps_if, rule keeps_report, simp)
    subgoal premises prems for _ _ _ _ H1 r0 cell
    proof -
      from prems have H1: "H1 = own_guard cell + add_mset status_w H" "C cell" by auto
      show ?thesis unfolding H1
        apply (rule keeps_bind [OF keeps_enter_ns [where Q = "\<lambda>_ H'. H' = own_guard cell + add_mset status_w H"]], rule refl)
        apply (clarify, rule keeps_if, rule keeps_report, simp)
        apply (rule keeps_bind [OF op [OF H1(2)]])
        apply (rule keeps_report, simp)
        done
    qed
    done
  show ?thesis
    unfolding fork_in_namespaces_def
  proof (rule keeps_bind)
    show "keeps fd_step H (make_pipe k False) (\<lambda>p H'. H' = (case p of Inl _ \<Rightarrow> H | Inr (r, w) \<Rightarrow> add_mset r (add_mset w H)))"
      unfolding make_pipe_def by (rule keeps_syscall) (auto simp: fd_step_def split: sum.splits)
  next
    fix p :: "int + int \<times> int" and H1 assume H1: "H1 = (case p of Inl _ \<Rightarrow> H | Inr (r, w) \<Rightarrow> add_mset r (add_mset w H))"
    show "keeps fd_step H1 (case p of
       Inl e \<Rightarrow> State_Monad.return (Some (Inr (Inl (mount_op_error (''pipe() failed: '' @ format_errno k e)))))
     | Inr (status_r, status_w) \<Rightarrow> do {
         pid \<leftarrow> raw_call k ForkHelper;
         if pid < 0 then do {
           _ \<leftarrow> close_raw k status_r;
           _ \<leftarrow> close_raw k status_w;
           State_Monad.return (Some (Inr (Inl (mount_op_error (''fork() failed: '' @ format_errno k (- pid))))))
         }
         else if pid = 0 then
           helper_body k u m status_r status_w pre op \<bind> (\<lambda>ec. State_Monad.return (Some (Inl ec)))
         else obind (await_helper n k pid status_r status_w) (\<lambda>r. State_Monad.return (Some (Inr r)))
       }) (ends_with_post (caller_kept H))"
      unfolding H1
      apply (rule keeps_case_sum)
       apply (simp add: keeps_return)
      apply (clarsimp, rule keeps_raw, simp, intro keeps_if)
        apply (intro keeps_close_bind keeps_return, simp)
       apply (rule keeps_bind [OF helper], simp add: keeps_return)
      apply (subst add_mset_commute, rule keeps_obind [OF keeps_await], simp add: keeps_return)
      done
  qed
qed

lemma keeps_no_pre: "keeps fd_step H (run_pre_op None) (\<lambda>(r, cell) H'. H' = own_guard cell + H \<and> (r = 0 \<longrightarrow> cell = -1))"
  by (auto simp: run_pre_op_def own_guard_def intro: keeps_return)

lemma keeps_checked:
  "emits (idle fd_step) m \<Longrightarrow> (\<And>x. keeps fd_step H (f x) (ends_with_post (caller_kept H))) \<Longrightarrow>
     keeps fd_step H (checked m f) (ends_with_post (caller_kept H))"
  unfolding checked_def returns_def
  by (rule keeps_quiet_bind, assumption) (auto intro!: keeps_case_sum keeps_return)

lemma keeps_in_caller:
  "keeps fd_step H m (ends_with_post (caller_kept H)) \<Longrightarrow> (\<And>x. keeps fd_step H (f x) (ends_with_post (caller_kept H))) \<Longrightarrow>
     keeps fd_step H (in_caller m f) (ends_with_post (caller_kept H))"
  unfolding in_caller_def
  by (rule keeps_obind, assumption) (auto simp: caller_kept_def split: sum.splits intro!: keeps_return)

lemma keeps_unmount: "keeps fd_step H (dynamic_unmount n k t u m) (ends_with_post (caller_kept H))"
  unfolding dynamic_unmount_def
  by (rule keeps_fork [OF keeps_no_pre]) (auto intro: keeps_target_call)

lemma keeps_add_tmpfs: "keeps fd_step H (add_tmpfs n k h t sz) (ends_with_post (caller_kept H))"
  unfolding add_tmpfs_def dynamic_tmpfs_def Let_def check_alive_def check_child_alive_def returns_def
  apply (rule keeps_checked)
   apply (auto simp: raw_call_def intro!: emits_intros)[1]
  apply (rule keeps_checked, rule emits_return)
  apply (rule keeps_in_caller, rule keeps_fork [OF keeps_no_pre])
   apply (auto intro: keeps_tmpfs_op keeps_return)
  done

lemma keeps_remount: "keeps fd_step H (remount n k h t perm) (ends_with_post (caller_kept H))"
  unfolding remount_def dynamic_remount_def Let_def check_alive_def check_child_alive_def
  apply (rule keeps_checked)
   apply (auto simp: raw_call_def intro!: emits_intros)[1]
  apply (rule keeps_checked, rule emits_return)
  apply (rule keeps_fork [OF keeps_no_pre])
  apply (auto intro: keeps_target_call)
  done

text \<open>The probe asks for a tree of the invalid descriptor, so no kernel has a reason to open one.\<close>

definition probe_fails :: "kernel \<Rightarrow> bool" where
  "probe_fails k \<longleftrightarrow> (\<forall>h. k_raw k h (OpenTree (-1) '''' OPEN_TREE_CLONE) < 0)"

lemma keeps_probe: "probe_fails k \<Longrightarrow> keeps fd_step H (raw_call k (OpenTree (-1) '''' OPEN_TREE_CLONE)) (\<lambda>_ H'. H' = H)"
  unfolding raw_call_def probe_fails_def by (rule keeps_syscall_ans) (simp add: fd_step_def not_le)

lemma keeps_bind_mount:
  assumes "probe_fails k"
  shows "keeps fd_step H (dynamic_bind_mount n k src t perm u m) (ends_with_post (caller_kept H))"
proof -
  have fork: "keeps fd_step H (fork_in_namespaces n k u m (Some (open_tree_op k src fl)) (attach_op k t fg)) (ends_with_post (caller_kept H))"
    for fl fg
    by (rule keeps_fork [OF keeps_open_tree]) (auto simp: own_guard_def intro: keeps_attach_op)
  have dir: "emits (idle fd_step) (path_is_dir k src)"
    by (auto simp: path_is_dir_def intro!: emits_intros)
  have refused: "keeps fd_step H (State_Monad.return (Some (Inr (Inl e)))) (ends_with_post (caller_kept H))" for e
    by (simp add: keeps_return)
  show ?thesis
    unfolding dynamic_bind_mount_def checked_def returns_def probe_mount_api_def bind_assoc bind_left_identity
    apply (rule keeps_bind [OF keeps_probe [OF assms]], clarify, rule keeps_case_sum, rule refused)
    apply (rule keeps_if, rule refused, rule keeps_quiet_bind [OF dir], rule fork)
    done
qed

lemma keeps_add_mount:
  assumes "probe_fails k"
  shows "keeps fd_step H (add_mount n k h src t perm) (ends_with_post (caller_kept H))"
  unfolding add_mount_def check_alive_def check_child_alive_def validate_mount_source_def returns_def
  apply (rule keeps_checked)
   apply (auto simp: raw_call_def intro!: emits_intros)[1]
  apply (rule keeps_checked)
   apply (auto simp: path_exists_def intro!: emits_intros)[1]
  apply (rule keeps_checked, rule emits_return)
  apply (rule keeps_in_caller, rule keeps_bind_mount [OF assms], simp add: keeps_return)
  done

section \<open>Handles and their mounts\<close>

lemma remove_cases:
  assumes "run_state (DynamicMount_remove n k d) w = (Some (Inr (r, d')), w1)"
  obtains (already) "removed d" "r = Inr ()" "d' = d" "w1 = w" | (failed) e where "\<not> removed d" "r = Inl e" "d' = d"
    | (now) "\<not> removed d" "r = Inr ()" "d' = d\<lparr>removed := True\<rparr>"
proof (cases "removed d")
  case True
  with assms have "(Some (Inr (r, d')), w1) = (Some (Inr (Inr (), d)), w)"
    by (simp add: DynamicMount_remove_def returns_def)
  then show thesis using True by (intro already) simp_all
next
  case False
  then obtain x :: "unit result" where "(case x of Inl e \<Rightarrow> (Inl e, d) | Inr u \<Rightarrow> (Inr (), d\<lparr>removed := True\<rparr>)) = (r, d')"
    using assms by (auto simp: DynamicMount_remove_def in_caller_def returns_def run_simps)
  then consider e where "r = Inl e" "d' = d" | "r = Inr ()" "d' = d\<lparr>removed := True\<rparr>"
    by (cases x) auto
  then show thesis by cases (rule failed [OF False] now [OF False], assumption+)+
qed

text \<open>C0: a mount is detached at most once and only while its handle is responsible for it. Detaching the
  handle makes no call; after a successful removal neither a second removal nor the drop makes one;
  a failed removal leaves the handle responsible.\<close>

theorem mount_removed_once:
  "run_state (DynamicMount_detach n k d) w = (Some (Inr ()), w)
   \<and> (run_state (DynamicMount_remove n k d) w = (Some (Inr (Inr (), d')), w1) \<longrightarrow>
        run_state (DynamicMount_remove n k d') w1 = (Some (Inr (Inr (), d')), w1)
        \<and> run_state (DynamicMount_drop n k d') w1 = (Some (Inr ()), w1))
   \<and> (run_state (DynamicMount_remove n k d) w = (Some (Inr (Inl e, d')), w1) \<longrightarrow> d' = d \<and> \<not> removed d)"
proof (intro conjI impI)
  show "run_state (DynamicMount_detach n k d) w = (Some (Inr ()), w)"
    by (simp add: DynamicMount_detach_def DynamicMount_drop_def returns_def)
  assume "run_state (DynamicMount_remove n k d) w = (Some (Inr (Inr (), d')), w1)"
  then have "removed d'" by (cases rule: remove_cases) auto
  then show "run_state (DynamicMount_remove n k d') w1 = (Some (Inr (Inr (), d')), w1)"
      "run_state (DynamicMount_drop n k d') w1 = (Some (Inr ()), w1)"
    by (simp_all add: DynamicMount_drop_def DynamicMount_remove_def returns_def)
next
  assume "run_state (DynamicMount_remove n k d) w = (Some (Inr (Inl e, d')), w1)"
  then show "d' = d" "\<not> removed d" by (cases rule: remove_cases, auto)+
qed

text \<open>C0: operations on a running sandbox give back every descriptor they open in the caller, on success
  and on every error, and close none they do not own.\<close>

theorem dynamic_mounts_keep_descriptors:
  assumes "probe_fails k"
    and "m = add_mount n k h src t perm \<or> m = add_tmpfs n k h t sz"
    and "run_state m w = (Some (Inr r), w')"
  shows "steps fd_step H (new_events w w') = Some H"
proof -
  have "keeps fd_step H m (ends_with_post (caller_kept H))"
    using assms(2) by (elim disjE) (simp_all only: keeps_add_mount [OF assms(1)] keeps_add_tmpfs)
  from keeps_new_events [OF this assms(3)] show ?thesis by auto
qed

section \<open>Witnesses\<close>

text \<open>The two sides of a fork: the kernel grants everything, knows the probed descriptor is invalid, and
  answers the fork with the given pid.\<close>

definition forking_kernel :: "int \<Rightarrow> int \<Rightarrow> kernel" where
  "forking_kernel pid remounted = granting_kernel\<lparr>k_raw := \<lambda>h c. case c of
       ForkHelper \<Rightarrow> pid
     | OpenTree d p f \<Rightarrow> (if d < 0 \<and> p = '''' then -9 else 7)
     | MountCall s t ty f da \<Rightarrow> remounted
     | _ \<Rightarrow> 0\<rparr>"

lemma forking_kernel_probe: "probe_fails (forking_kernel pid remounted)"
  by (simp add: probe_fails_def forking_kernel_def)

definition demo_handle :: MountHandle where
  "demo_handle = MountHandle_new 5 6 None"

lemmas run_mount_simps =
  dynamic_bind_mount_def checked_def returns_def probe_mount_api_def fork_in_namespaces_def helper_body_def enter_ns_def
  report_def raw_write_def write_raw_def run_pre_op_def open_tree_op_def attach_op_def restrict_mount_def raw_mkdir_p_def
  mkdir_from.simps skip_slashes_def skip_component_def await_helper_def read_raw_def close_raw_def


definition ran :: "'a prog \<Rightarrow> 'a \<times> event list" where
  "ran m = (case run_state m initial_world of (r, w') \<Rightarrow> (r, new_events initial_world w'))"

lemmas evaluate_mount =
  ran_def forking_kernel_def granting_kernel_def numeral_2_eq_2 run_mount_simps run_state_bind syscall_def call_defs Let_def
  new_events_def initial_world_def obind_def lift_prog_def c_view_def decode_status_def STATUS_OK_def ENOSYS_def remount_flags_def

text \<open>A mount on \<open>/t\<close>: as the helper runs it when the remount fails, when it succeeds, and as the caller
  runs it.\<close>

abbreviation demo_mount :: "kernel \<Rightarrow> (nat + unit result) option prog" where
  "demo_mount k \<equiv> dynamic_bind_mount 2 k ''/d'' ''/t'' ReadOnly 5 6"

lemma demo_mount_runs:
  "fst (ran (demo_mount (forking_kernel 0 (-22)))) = Some (Inl 0)"
  "fst (ran (demo_mount (forking_kernel 0 0))) = Some (Inl 0)"
  "fst (ran (demo_mount (forking_kernel 9 0))) = Some (Inr (Inr ()))"
  by (simp_all add: evaluate_mount)

lemma demo_mount_events:
  "attached ''/t'' (snd (ran (demo_mount (forking_kernel 0 (-22)))))"
  "\<exists>x. Raw (WriteFd 4 [0]) x \<in> set (snd (ran (demo_mount (forking_kernel 0 0))))"
  by (simp_all add: evaluate_mount attached_def)

lemma demo_mount_reads:
  "ReadFd fd 1 (Inr [b]) \<in> set (snd (ran (demo_mount (forking_kernel 9 0)))) \<Longrightarrow> b = 0"
  by (simp add: evaluate_mount)

lemma ran_obtain: obtains w' where "run_state m initial_world = (fst (ran m), w')" "new_events initial_world w' = snd (ran m)"
  by (cases "run_state m initial_world") (auto simp: ran_def)

theorem attached_mount_is_restricted_or_detached_witness:
  "\<exists>w'. run_state (demo_mount (forking_kernel 0 (-22))) initial_world = (Some (Inl 0), w')
     \<and> (\<exists>recursive. PathIsDir ''/d'' recursive \<in> set (new_events initial_world w')
         \<and> (restricted ''/t'' (remount_flags ReadOnly recursive) (new_events initial_world w')
            \<or> detached ''/t'' (new_events initial_world w')))"
proof -
  obtain w' where run: "run_state (demo_mount (forking_kernel 0 (-22))) initial_world = (Some (Inl 0), w')"
      and ev: "new_events initial_world w' = snd (ran (demo_mount (forking_kernel 0 (-22))))"
    using ran_obtain [of "demo_mount (forking_kernel 0 (-22))"] by (simp add: demo_mount_runs) blast
  have "attached ''/t'' (new_events initial_world w')" using demo_mount_events ev by simp
  from attached_mount_is_restricted_or_detached [OF run this] run show ?thesis by blast
qed

theorem reported_mount_is_in_place_witness:
  "\<exists>v'. run_state (demo_mount (forking_kernel 0 0)) initial_world = (Some (Inl 0), v')
     \<and> attached (c_view ''/t'') (new_events initial_world v')"
proof -
  obtain w' where run: "run_state (demo_mount (forking_kernel 9 0)) initial_world = (Some (Inr (Inr ())), w')"
      and ev: "new_events initial_world w' = snd (ran (demo_mount (forking_kernel 9 0)))"
    using ran_obtain [of "demo_mount (forking_kernel 9 0)"] by (simp add: demo_mount_runs) blast
  obtain v' where helper: "run_state (demo_mount (forking_kernel 0 0)) initial_world = (Some (Inl 0), v')"
      and ev': "new_events initial_world v' = snd (ran (demo_mount (forking_kernel 0 0)))"
    using ran_obtain [of "demo_mount (forking_kernel 0 0)"] by (simp add: demo_mount_runs) blast
  have "\<exists>out x. Raw (WriteFd out [b]) x \<in> set (new_events initial_world v')"
    if "ReadFd fd 1 (Inr [b]) \<in> set (new_events initial_world w')" for fd b
    using demo_mount_reads [of fd b] demo_mount_events(2) that ev ev' by auto
  then have "attached (c_view ''/t'') (new_events initial_world v')"
    by (intro reported_mount_is_in_place [OF run helper, THEN conjunct1])
  with helper show ?thesis by blast
qed

theorem dynamic_mounts_keep_descriptors_witness:
  "\<exists>r w'. run_state (add_mount 2 (forking_kernel 9 0) demo_handle ''/d'' ''/t'' ReadOnly) initial_world = (Some (Inr r), w')
     \<and> steps fd_step {#8#} (new_events initial_world w') = Some {#8#}"
proof -
  let ?m = "add_mount 2 (forking_kernel 9 0) demo_handle ''/d'' ''/t'' ReadOnly"
  have valid: "validate_mount_target ''/t'' = Inr ()" by code_simp
  have "fst (ran ?m) = Some (Inr (Inr (mounted_at demo_handle ''/t'' (Some ''/d''))))"
    by (simp add: evaluate_mount add_mount_def check_alive_def check_child_alive_def validate_mount_source_def in_caller_def
        valid demo_handle_def MountHandle_new_def)
  then obtain r w' where run: "run_state ?m initial_world = (Some (Inr r), w')"
    using ran_obtain [of ?m] by metis
  from dynamic_mounts_keep_descriptors [OF forking_kernel_probe _ run] run show ?thesis by blast
qed

definition demo_mounted :: DynamicMount where
  "demo_mounted = mounted_at demo_handle ''/t'' None"

theorem mount_removed_once_witness:
  "\<exists>w1. run_state (DynamicMount_remove 2 (forking_kernel 9 0) demo_mounted) initial_world
       = (Some (Inr (Inr (), demo_mounted\<lparr>removed := True\<rparr>)), w1)
     \<and> run_state (DynamicMount_drop 2 (forking_kernel 9 0) (demo_mounted\<lparr>removed := True\<rparr>)) w1 = (Some (Inr ()), w1)"
proof -
  let ?m = "DynamicMount_remove 2 (forking_kernel 9 0) demo_mounted"
  have "fst (ran ?m) = Some (Inr (Inr (), demo_mounted\<lparr>removed := True\<rparr>))"
    by (simp add: evaluate_mount DynamicMount_remove_def dynamic_unmount_def in_caller_def demo_mounted_def
        mounted_at_def)
  then obtain w1 where run: "run_state ?m initial_world = (Some (Inr (Inr (), demo_mounted\<lparr>removed := True\<rparr>)), w1)"
    using ran_obtain [of ?m] by metis
  with mount_removed_once [of 2 "forking_kernel 9 0" demo_mounted initial_world "demo_mounted\<lparr>removed := True\<rparr>" w1]
  show ?thesis by blast
qed

section \<open>What validation does not see\<close>

text \<open>Validation reads the whole target, the kernel only what precedes a NUL byte: a target that is
  accepted can name a critical path.\<close>

lemma validated_target_may_be_critical:
  "validate_mount_target (''/proc'' @ [CHR 0x00]) = Inr ()" "c_view (''/proc'' @ [CHR 0x00]) = ''/proc''"
  "validate_mount_target ''/proc'' \<noteq> Inr ()"
  by (simp_all add: c_view_def) code_simp+

end
