(* ===== verification/Mount_Child.thy ===== *)
theory Mount_Child
  imports Mount_Ops Namespaces Fd
begin

text \<open>
  Mount primitives for a caller's own \<open>pre_exec\<close> (\<open>src/mount/child.rs\<close>): each is prepared in the parent,
  where paths are checked and turned into C strings, and installed in the child by raw calls. A
  \<open>CString\<close> is a string without NUL bytes; that this holds of every prepared value is proved below.
\<close>

unbundle bit_operations_syntax

section \<open>Shared helpers\<close>

definition mount_err :: "kernel \<Rightarrow> string \<Rightarrow> int \<Rightarrow> SandboxError" where
  "mount_err k ctx errno = SandboxError_new ErrorKind.Mount (ctx @ '': '' @ k_strerror k errno)"

definition cstring_or_nul :: "string \<Rightarrow> string \<Rightarrow> string result" where
  "cstring_or_nul s field =
     (if CHR 0x00 \<in> set s then Inl (SandboxError_new ErrorKind.Mount (''mount '' @ field @ '' has an embedded NUL'')) else Inr s)"

text \<open>A path as a C string, with the message of each caller.\<close>

definition path_cstring :: "string \<Rightarrow> string \<Rightarrow> string result" where
  "path_cstring what target =
     (if CHR 0x00 \<in> set target
      then Inl (SandboxError_new ErrorKind.Mount (what @ '' path has an embedded NUL: '' @ target)) else Inr target)"

text \<open>The write loop of \<open>write_proc_file\<close>. A write of no byte is repeated, so the loop takes fuel.\<close>

primrec write_proc_loop :: "nat \<Rightarrow> kernel \<Rightarrow> int \<Rightarrow> u8 list \<Rightarrow> (int + unit) option prog" where
  "write_proc_loop 0 k fd data = State_Monad.return (if data = [] then Some (Inr ()) else None)"
| "write_proc_loop (Suc n) k fd data =
     (if data = [] then State_Monad.return (Some (Inr ()))
      else do {
        r \<leftarrow> raw_call k (WriteFd fd data);
        if r < 0 then State_Monad.return (Some (Inl (- r))) else write_proc_loop n k fd (drop (nat r) data)
      })"

definition write_proc_file :: "nat \<Rightarrow> kernel \<Rightarrow> string \<Rightarrow> u8 list \<Rightarrow> unit result option prog" where
  "write_proc_file n k path data = do {
     fd \<leftarrow> raw_call k (OpenWriteOnly path);
     if fd < 0 then State_Monad.return (Some (Inl (mount_err k ''open proc file'' (- fd))))
     else obind (write_proc_loop n k fd data) (\<lambda>r. close_raw k fd \<bind> (\<lambda>_. State_Monad.return (Some (
       case r of Inl e \<Rightarrow> Inl (mount_err k ''write proc file'' e) | Inr _ \<Rightarrow> Inr ()))))
   }"

section \<open>User and mount namespace\<close>

record PreparedUserMountNs =
  uid_map :: string
  gid_map :: string

definition prepare_user_mount_ns :: "u32 \<Rightarrow> u32 \<Rightarrow> PreparedUserMountNs" where
  "prepare_user_mount_ns uid gid =
     \<lparr>uid_map = ''0 '' @ show_nat (unat uid) @ '' 1'', gid_map = ''0 '' @ show_nat (unat gid) @ '' 1''\<rparr>"

text \<open>The \<open>?\<close> operator for steps that may not return.\<close>

definition oseq :: "unit result option prog \<Rightarrow> unit result option prog \<Rightarrow> unit result option prog" where
  "oseq m f = obind m (\<lambda>r. case r of Inl e \<Rightarrow> State_Monad.return (Some (Inl e)) | Inr _ \<Rightarrow> f)"

definition install_user_mount_ns :: "nat \<Rightarrow> kernel \<Rightarrow> PreparedUserMountNs \<Rightarrow> unit result option prog" where
  "install_user_mount_ns n k prepared = do {
     r \<leftarrow> raw_call k (Unshare (CLONE_NEWUSER OR CLONE_NEWNS));
     if r \<noteq> 0 then State_Monad.return (Some (Inl (mount_err k ''unshare(CLONE_NEWUSER|CLONE_NEWNS)'' (- r))))
     else oseq (write_proc_file n k ''/proc/self/setgroups'' (as_bytes ''deny''))
         (oseq (write_proc_file n k ''/proc/self/uid_map'' (as_bytes (uid_map prepared)))
               (write_proc_file n k ''/proc/self/gid_map'' (as_bytes (gid_map prepared))))
   }"

section \<open>Self-binds\<close>

datatype RemountRecursion = NonRecursive | Recursive

record PreparedBind =
  pb_target :: string
  pb_permission :: Permission
  pb_recursion :: RemountRecursion

definition prepare_bind :: "kernel \<Rightarrow> string \<Rightarrow> Permission \<Rightarrow> RemountRecursion \<Rightarrow> PreparedBind result prog" where
  "prepare_bind k target perm recursion = path_is_dir k target \<bind> (\<lambda>d. State_Monad.return (
     if \<not> d then Inl (SandboxError_new ErrorKind.Mount (''bind target is not a directory: '' @ target))
     else case path_cstring ''bind target'' target of
            Inl e \<Rightarrow> Inl e
          | Inr c \<Rightarrow> Inr \<lparr>pb_target = c, pb_permission = perm, pb_recursion = recursion\<rparr>))"

text \<open>A \<open>mount\<close> call of the child: anything but 0 is a failure.\<close>

definition mount_step :: "kernel \<Rightarrow> string \<Rightarrow> rawcall \<Rightarrow> unit result prog" where
  "mount_step k ctx c = raw_call k c \<bind> (\<lambda>r. State_Monad.return (if r \<noteq> 0 then Inl (mount_err k ctx (- r)) else Inr ()))"

definition install_bind :: "kernel \<Rightarrow> PreparedBind \<Rightarrow> unit result prog" where
  "install_bind k prepared =
     (let target = pb_target prepared;
          recursive = (pb_recursion prepared = Recursive)
      in and_then (mount_step k ''bind directory onto itself'' (MountCall (Some target) target None (MS_BIND OR MS_REC) None))
           (case remount_flags (pb_permission prepared) recursive of
              None \<Rightarrow> proceed
            | Some flags \<Rightarrow> mount_step k ''remount directory'' (MountCall (Some target) target None flags None)))"

section \<open>tmpfs overlays\<close>

record PreparedTmpfs =
  pt_target :: string
  pt_data :: string
  pt_flags :: MountFlags

definition prepare_tmpfs :: "kernel \<Rightarrow> string \<Rightarrow> u64 \<Rightarrow> MountFlags \<Rightarrow> PreparedTmpfs result prog" where
  "prepare_tmpfs k target sz flags = make_dirs k target \<bind> (\<lambda>r. State_Monad.return (
     case r of Inl e \<Rightarrow> Inl e
     | Inr _ \<Rightarrow> (case path_cstring ''tmpfs target'' target of
                  Inl e \<Rightarrow> Inl e
                | Inr c \<Rightarrow> Inr \<lparr>pt_target = c, pt_data = ''size='' @ show_nat (unat sz), pt_flags = flags\<rparr>)))"

definition install_tmpfs :: "kernel \<Rightarrow> PreparedTmpfs \<Rightarrow> unit result prog" where
  "install_tmpfs k prepared =
     mount_step k ''mount tmpfs overlay''
       (MountCall None (pt_target prepared) (Some ''tmpfs'') (mount_flags_to_ms (pt_flags prepared)) (Some (pt_data prepared)))"

section \<open>The escape hatch\<close>

record PreparedMount =
  pm_source :: "string option"
  pm_target :: string
  pm_fstype :: string
  pm_data :: "string option"
  pm_flags :: u64

definition opt_cstring :: "string option \<Rightarrow> string \<Rightarrow> string option result" where
  "opt_cstring x field = (case x of None \<Rightarrow> Inr None | Some s \<Rightarrow> map_sum id Some (cstring_or_nul s field))"

definition prepare_mount ::
  "string option \<Rightarrow> string \<Rightarrow> string \<Rightarrow> u64 \<Rightarrow> string option \<Rightarrow> PreparedMount result" where
  "prepare_mount src target fstype flags data =
     (case opt_cstring src ''source'' of Inl e \<Rightarrow> Inl e | Inr src_c \<Rightarrow>
     (case path_cstring ''mount target'' target of Inl e \<Rightarrow> Inl e | Inr target_c \<Rightarrow>
     (case cstring_or_nul fstype ''fstype'' of Inl e \<Rightarrow> Inl e | Inr fstype_c \<Rightarrow>
     (case opt_cstring data ''data'' of Inl e \<Rightarrow> Inl e | Inr data_c \<Rightarrow>
        Inr \<lparr>pm_source = src_c, pm_target = target_c, pm_fstype = fstype_c, pm_data = data_c, pm_flags = flags\<rparr>))))"

definition install_mount :: "kernel \<Rightarrow> PreparedMount \<Rightarrow> unit result prog" where
  "install_mount k prepared =
     mount_step k ''mount (escape hatch)''
       (MountCall (pm_source prepared) (pm_target prepared) (Some (pm_fstype prepared)) (pm_flags prepared) (pm_data prepared))"

section \<open>Prepared values are C strings\<close>

definition c_string :: "string \<Rightarrow> bool" where
  "c_string s \<longleftrightarrow> CHR 0x00 \<notin> set s"

fun call_strings :: "rawcall \<Rightarrow> string list" where
  "call_strings (MountCall src target ty flags data) =
     (case src of None \<Rightarrow> [] | Some s \<Rightarrow> [s]) @ target # (case ty of None \<Rightarrow> [] | Some s \<Rightarrow> [s])
     @ (case data of None \<Rightarrow> [] | Some s \<Rightarrow> [s])"
| "call_strings c = []"

definition PreparedBind_ok :: "PreparedBind \<Rightarrow> bool" where
  "PreparedBind_ok b \<longleftrightarrow> c_string (pb_target b)"

definition PreparedTmpfs_ok :: "PreparedTmpfs \<Rightarrow> bool" where
  "PreparedTmpfs_ok t \<longleftrightarrow> c_string (pt_target t) \<and> c_string (pt_data t)"

definition PreparedMount_ok :: "PreparedMount \<Rightarrow> bool" where
  "PreparedMount_ok m \<longleftrightarrow> list_all c_string (call_strings (MountCall (pm_source m) (pm_target m) (Some (pm_fstype m)) (pm_flags m) (pm_data m)))"

lemma show_nat_c_string: "c_string (show_nat n)"
  using show_nat_digits [of n] by (auto simp: c_string_def list_all_iff is_digit_def)

lemma c_string_append [simp]: "c_string (a @ b) \<longleftrightarrow> c_string a \<and> c_string b"
  by (auto simp: c_string_def)

lemma c_string_Cons [simp]: "c_string (c # s) \<longleftrightarrow> c \<noteq> CHR 0x00 \<and> c_string s"
  by (auto simp: c_string_def)

lemma cstring_checks:
  "path_cstring what t = Inr c \<Longrightarrow> c = t \<and> c_string t"
  "cstring_or_nul s field = Inr c \<Longrightarrow> c = s \<and> c_string s"
  by (auto simp: path_cstring_def cstring_or_nul_def c_string_def split: if_splits)

lemma opt_cstring_check:
  "opt_cstring x field = Inr y \<Longrightarrow> y = x \<and> list_all c_string (case x of None \<Rightarrow> [] | Some s \<Rightarrow> [s])"
  by (auto simp: opt_cstring_def map_sum.simps cstring_or_nul_def c_string_def split: option.splits if_splits)

lemma prepare_bind_typed:
  assumes "run_state (prepare_bind k target perm recursion) w = (Inr b, w')"
  shows "PreparedBind_ok b \<and> b = \<lparr>pb_target = target, pb_permission = perm, pb_recursion = recursion\<rparr>"
  using assms by (auto simp: prepare_bind_def path_is_dir_def run_simps PreparedBind_ok_def
      split: if_splits sum.splits dest!: cstring_checks)

lemma prepare_tmpfs_typed:
  assumes "run_state (prepare_tmpfs k target sz flags) w = (Inr t, w')"
  shows "PreparedTmpfs_ok t \<and> t = \<lparr>pt_target = target, pt_data = ''size='' @ show_nat (unat sz), pt_flags = flags\<rparr>"
  using assms by (auto simp: prepare_tmpfs_def run_simps PreparedTmpfs_ok_def show_nat_c_string
      split: if_splits sum.splits dest!: cstring_checks)

lemma prepare_mount_typed:
  assumes "prepare_mount src target fstype flags data = Inr m"
  shows "PreparedMount_ok m
    \<and> m = \<lparr>pm_source = src, pm_target = target, pm_fstype = fstype, pm_data = data, pm_flags = flags\<rparr>"
  using assms by (auto simp: prepare_mount_def PreparedMount_ok_def split: sum.splits dest!: cstring_checks opt_cstring_check)

text \<open>C0: whatever was prepared holds exactly the paths, options and flags asked for, as strings without
  NUL bytes: the kernel reads each of them whole.\<close>

theorem prepared_mounts_typed:
  "(\<forall>w w' b. run_state (prepare_bind k target perm recursion) w = (Inr b, w') \<longrightarrow>
      PreparedBind_ok b \<and> b = \<lparr>pb_target = target, pb_permission = perm, pb_recursion = recursion\<rparr>)
   \<and> (\<forall>w w' t. run_state (prepare_tmpfs k target sz tflags) w = (Inr t, w') \<longrightarrow>
      PreparedTmpfs_ok t \<and> t = \<lparr>pt_target = target, pt_data = ''size='' @ show_nat (unat sz), pt_flags = tflags\<rparr>)
   \<and> (\<forall>m. prepare_mount src target fstype flags data = Inr m \<longrightarrow> PreparedMount_ok m
      \<and> m = \<lparr>pm_source = src, pm_target = target, pm_fstype = fstype, pm_data = data, pm_flags = flags\<rparr>)"
  using prepare_bind_typed prepare_tmpfs_typed prepare_mount_typed by blast

theorem prepared_mounts_typed_witness:
  "\<exists>b w' m. run_state (prepare_bind granting_kernel ''/d'' ReadOnly Recursive) initial_world = (Inr b, w') \<and> PreparedBind_ok b
     \<and> prepare_mount None ''/d'' ''overlay'' 0 (Some ''x'') = Inr m \<and> PreparedMount_ok m
     \<and> prepare_mount None (''/d'' @ [CHR 0x00]) ''overlay'' 0 None \<noteq> Inr m"
proof -
  have "fst (run_state (prepare_bind granting_kernel ''/d'' ReadOnly Recursive) initial_world)
      = Inr \<lparr>pb_target = ''/d'', pb_permission = ReadOnly, pb_recursion = Recursive\<rparr>"
    by (simp add: prepare_bind_def path_is_dir_def syscall_def run_state_bind granting_kernel_def path_cstring_def Let_def)
  then obtain b w' where b: "run_state (prepare_bind granting_kernel ''/d'' ReadOnly Recursive) initial_world = (Inr b, w')"
    by (metis prod.exhaust_sel)
  obtain m where m: "prepare_mount None ''/d'' ''overlay'' 0 (Some ''x'') = Inr m"
    by (simp add: prepare_mount_def opt_cstring_def path_cstring_def cstring_or_nul_def)
  have "prepare_mount None (''/d'' @ [CHR 0x00]) ''overlay'' 0 None \<noteq> Inr m"
    by (simp add: prepare_mount_def opt_cstring_def path_cstring_def)
  then show ?thesis
    using b m prepared_mounts_typed [of granting_kernel "''/d''" ReadOnly Recursive 0 READ_ONLY None "''overlay''" 0 "Some ''x''"]
    by blast
qed

section \<open>Installing follows a plan\<close>

definition self_bind_plan :: "PreparedBind \<Rightarrow> rawcall list" where
  "self_bind_plan b =
     MountCall (Some (pb_target b)) (pb_target b) None (MS_BIND OR MS_REC) None
     # (case remount_flags (pb_permission b) (pb_recursion b = Recursive) of
          None \<Rightarrow> [] | Some flags \<Rightarrow> [MountCall (Some (pb_target b)) (pb_target b) None flags None])"

definition overlay_plan :: "PreparedTmpfs \<Rightarrow> rawcall list" where
  "overlay_plan t = [MountCall None (pt_target t) (Some ''tmpfs'') (mount_flags_to_ms (pt_flags t)) (Some (pt_data t))]"

lemma follows_mount_step: "\<not> bookkeeping c \<Longrightarrow> follows I {[c]} (mount_step k ctx c)"
  unfolding mount_step_def by (rule follows_call) (simp_all split: if_splits)

lemma follows_install_bind: "follows I {self_bind_plan b} (install_bind k b)"
proof -
  have "follows I {case remount_flags p d of None \<Rightarrow> [] | Some flags \<Rightarrow> [MountCall (Some t) t None flags None]}
      (case remount_flags p d of None \<Rightarrow> proceed | Some flags \<Rightarrow> mount_step k ctx (MountCall (Some t) t None flags None))"
    for p d t ctx
    by (simp add: follows_ok follows_mount_step split: option.split)
  from follows_and_then [OF follows_mount_step this] show ?thesis
    by (simp add: install_bind_def self_bind_plan_def Let_def)
qed

lemma follows_install_tmpfs: "follows I {overlay_plan t} (install_tmpfs k t)"
  unfolding install_tmpfs_def overlay_plan_def by (rule follows_mount_step) simp

text \<open>C0: self-binds followed by overlays, in the documented order, make exactly the planned mounts: each
  directory is bound onto itself and remounted with the flags of its permission and recursion, then
  each overlay is mounted. On success every call went through; on an error nothing runs after the call
  that failed.\<close>

theorem overlays_follow_plan:
  assumes "run_state (and_then (try_each (install_bind k) bs) (try_each (install_tmpfs k) ts)) w = (r, w')"
  shows "outcome {} {concat (map self_bind_plan bs) @ concat (map overlay_plan ts)} r (new_events w w')"
proof -
  have "follows {} (seq (each (\<lambda>b. {self_bind_plan b}) bs) (each (\<lambda>t. {overlay_plan t}) ts))
      (and_then (try_each (install_bind k) bs) (try_each (install_tmpfs k) ts))"
    by (intro follows_and_then follows_each follows_install_bind follows_install_tmpfs)
  from follows_run [OF this assms] show ?thesis by (auto simp: each_singleton new_events_append)
qed

theorem overlays_follow_plan_witness:
  "\<exists>r w'. run_state (and_then (try_each (install_bind granting_kernel) [\<lparr>pb_target = ''/d'', pb_permission = ReadOnly, pb_recursion = NonRecursive\<rparr>])
        (try_each (install_tmpfs granting_kernel) [\<lparr>pt_target = ''/s'', pt_data = ''size=0'', pt_flags = READ_ONLY\<rparr>])) initial_world = (r, w')
     \<and> outcome {} {[MountCall (Some ''/d'') ''/d'' None (MS_BIND OR MS_REC) None,
          MountCall (Some ''/d'') ''/d'' None (MS_BIND OR MS_REMOUNT OR MS_RDONLY) None,
          MountCall None ''/s'' (Some ''tmpfs'') MS_RDONLY (Some ''size=0'')]} r (new_events initial_world w')"
proof -
  let ?b = "\<lparr>pb_target = ''/d'', pb_permission = ReadOnly, pb_recursion = NonRecursive\<rparr>"
  let ?t = "\<lparr>pt_target = ''/s'', pt_data = ''size=0'', pt_flags = READ_ONLY\<rparr>"
  obtain r w' where run: "run_state (and_then (try_each (install_bind granting_kernel) [?b])
      (try_each (install_tmpfs granting_kernel) [?t])) initial_world = (r, w')" by force
  have plan: "concat (map self_bind_plan [?b]) @ concat (map overlay_plan [?t])
      = [MountCall (Some ''/d'') ''/d'' None (MS_BIND OR MS_REC) None,
          MountCall (Some ''/d'') ''/d'' None (MS_BIND OR MS_REMOUNT OR MS_RDONLY) None,
          MountCall None ''/s'' (Some ''tmpfs'') MS_RDONLY (Some ''size=0'')]" by code_simp
  show ?thesis using overlays_follow_plan [OF run] run unfolding plan by blast
qed

section \<open>Entering the namespaces\<close>

lemma write_proc_loop_ok:
  "run_state (write_proc_loop n k fd data) w = (Some (Inr u), w') \<Longrightarrow>
     \<exists>es. trace w' = trace w @ es \<and> delivered fd es = data \<and> list_all (\<lambda>e. \<exists>d x. e = Raw (WriteFd fd d) x) es"
proof (induction n arbitrary: data w)
  case (Suc n)
  show ?case
  proof (cases "data = []")
    case False
    define x where "x = k_raw k (trace w) (WriteFd fd data)"
    let ?w = "log_event (Raw (WriteFd fd data) x) w"
    have "run_state (write_proc_loop n k fd (drop (nat x) data)) ?w = (Some (Inr u), w')"
      using Suc.prems False by (auto simp: raw_call_def run_simps x_def split: if_splits)
    from Suc.IH [OF this] obtain es where "trace w' = trace ?w @ es" "delivered fd es = drop (nat x) data"
        "list_all (\<lambda>e. \<exists>d x. e = Raw (WriteFd fd d) x) es" by blast
    then show ?thesis by (intro exI [of _ "Raw (WriteFd fd data) x # es"]) simp
  qed (use Suc.prems in \<open>auto simp: run_simps\<close>)
qed (auto simp: run_simps split: if_splits)

text \<open>The events of one file written in full.\<close>

definition wrote_file :: "string \<Rightarrow> string \<Rightarrow> event list \<Rightarrow> bool" where
  "wrote_file path v es \<longleftrightarrow> (\<exists>fd ws c. es = Raw (OpenWriteOnly path) fd # ws @ [Raw (CloseFd fd) c] \<and> fd \<ge> 0
     \<and> delivered fd ws = as_bytes v \<and> list_all (\<lambda>e. \<exists>d x. e = Raw (WriteFd fd d) x) ws)"

lemma write_proc_file_ok:
  assumes "run_state (write_proc_file n k path (as_bytes v)) w = (Some (Inr u), w')"
  shows "\<exists>es. trace w' = trace w @ es \<and> wrote_file path v es"
proof -
  define fd where "fd = k_raw k (trace w) (OpenWriteOnly path)"
  let ?w = "log_event (Raw (OpenWriteOnly path) fd) w"
  obtain w1 c where fd: "fd \<ge> 0" and loop: "run_state (write_proc_loop n k fd (as_bytes v)) ?w = (Some (Inr ()), w1)"
    and close: "w' = log_event (Raw (CloseFd fd) c) w1"
    using assms by (auto simp: write_proc_file_def raw_call_def close_raw_def run_simps fd_def [symmetric] split: if_splits sum.splits)
  from write_proc_loop_ok [OF loop] show ?thesis
    using fd close by (fastforce simp: wrote_file_def)
qed

text \<open>C0: when the child has entered its user and mount namespace, it unshared both in one call, then gave
  up \<open>setgroups\<close>, and only then wrote the maps: uid 0 and gid 0 inside to the ids asked for outside, each
  file completely.\<close>

theorem user_mount_ns_entered:
  assumes "run_state (install_user_mount_ns n k (prepare_user_mount_ns uid gid)) w = (Some (Inr ()), w')"
  shows "\<exists>a b c. new_events w w' = Raw (Unshare (CLONE_NEWUSER OR CLONE_NEWNS)) 0 # a @ b @ c
    \<and> wrote_file ''/proc/self/setgroups'' ''deny'' a \<and> wrote_file ''/proc/self/uid_map'' (id_map 0 uid) b
    \<and> wrote_file ''/proc/self/gid_map'' (id_map 0 gid) c"
proof -
  let ?p = "prepare_user_mount_ns uid gid"
  let ?w = "log_event (Raw (Unshare (CLONE_NEWUSER OR CLONE_NEWNS)) 0) w"
  obtain u1 w1 u2 w2 where
    "run_state (write_proc_file n k ''/proc/self/setgroups'' (as_bytes ''deny'')) ?w = (Some (Inr u1), w1)"
    "run_state (write_proc_file n k ''/proc/self/uid_map'' (as_bytes (uid_map ?p))) w1 = (Some (Inr u2), w2)"
    "run_state (write_proc_file n k ''/proc/self/gid_map'' (as_bytes (gid_map ?p))) w2 = (Some (Inr ()), w')"
    using assms by (auto simp: install_user_mount_ns_def oseq_def raw_call_def run_simps split: if_splits sum.splits)
  from this [THEN write_proc_file_ok] obtain a b c where ev:
    "trace w1 = trace ?w @ a" "wrote_file ''/proc/self/setgroups'' ''deny'' a"
    "trace w2 = trace w1 @ b" "wrote_file ''/proc/self/uid_map'' (uid_map ?p) b"
    "trace w' = trace w2 @ c" "wrote_file ''/proc/self/gid_map'' (gid_map ?p) c" by blast
  have zero: "show_nat 0 = ''0''" by code_simp
  then have "uid_map ?p = id_map 0 uid" "gid_map ?p = id_map 0 gid"
    using zero by (simp_all add: prepare_user_mount_ns_def id_map_def)
  then show ?thesis using ev
    by (intro exI [of _ a] exI [of _ b] exI [of _ c]) (simp add: new_events_def)
qed

text \<open>With a kernel that takes something from every write, the write ends; with one that takes nothing
  and reports no error, it never does.\<close>

lemma write_proc_loop_returns:
  assumes "\<And>h d. k_raw k h (WriteFd fd d) \<noteq> 0"
  shows "length data \<le> n \<Longrightarrow> \<exists>r w'. run_state (write_proc_loop n k fd data) w = (Some r, w')"
proof (induction n arbitrary: data w)
  case (Suc n)
  let ?x = "k_raw k (trace w) (WriteFd fd data)"
  have "?x < 0 \<or> ?x > 0" using assms [of "trace w" data] by linarith
  moreover have "?x > 0 \<Longrightarrow> length (drop (nat ?x) data) \<le> n" using Suc.prems by (cases "nat ?x") auto
  ultimately show ?case
    using Suc.IH [of "drop (nat ?x) data" "log_event (Raw (WriteFd fd data) ?x) w"]
    by (auto simp: raw_call_def run_state_bind syscall_def Let_def)
qed simp

lemma write_proc_loop_stuck:
  assumes "\<And>h. k_raw k h (WriteFd fd data) = 0" "data \<noteq> []"
  shows "fst (run_state (write_proc_loop n k fd data) w) = None"
  using assms by (induction n arbitrary: w) (auto simp: raw_call_def run_state_bind syscall_def Let_def)

text \<open>C0: entering the namespaces always comes to a result when no write to a file of \<open>/proc\<close> is answered
  with zero bytes; the rounds needed are bounded by the longest map.\<close>

theorem install_user_mount_ns_returns:
  assumes "\<And>h fd d. k_raw k h (WriteFd fd d) \<noteq> 0"
    and "4 \<le> n" "length (id_map 0 uid) \<le> n" "length (id_map 0 gid) \<le> n"
  shows "\<exists>r w'. run_state (install_user_mount_ns n k (prepare_user_mount_ns uid gid)) w = (Some r, w')"
proof -
  let ?p = "prepare_user_mount_ns uid gid"
  have written: "\<exists>r w'. run_state (write_proc_file n k path (as_bytes v)) w = (Some r, w')" if len: "length v \<le> n" for path v w
  proof -
    let ?fd = "k_raw k (trace w) (OpenWriteOnly path)"
    obtain r w' where "run_state (write_proc_loop n k ?fd (as_bytes v)) (log_event (Raw (OpenWriteOnly path) ?fd) w) = (Some r, w')"
      using write_proc_loop_returns [OF assms(1), of "as_bytes v" n ?fd] len by (simp add: as_bytes_def) blast
    then show ?thesis
      by (simp add: write_proc_file_def raw_call_def run_state_bind run_state_obind syscall_def Let_def close_raw_def)
  qed
  have seq: "\<exists>r w'. run_state (oseq a b) w = (Some r, w')"
    if ab: "\<And>w. \<exists>r w'. run_state a w = (Some r, w')" "\<And>w. \<exists>r w'. run_state b w = (Some r, w')" for a b w
  proof -
    obtain r v where a: "run_state a w = (Some r, v)" using ab(1) by blast
    show ?thesis using a ab(2) [of v] by (cases r) (auto simp: oseq_def run_state_obind)
  qed
  have zero: "show_nat 0 = ''0''" by code_simp
  then have maps: "uid_map ?p = id_map 0 uid" "gid_map ?p = id_map 0 gid"
    by (simp_all add: prepare_user_mount_ns_def id_map_def)
  have "\<exists>r w'. run_state (oseq (write_proc_file n k ''/proc/self/setgroups'' (as_bytes ''deny''))
         (oseq (write_proc_file n k ''/proc/self/uid_map'' (as_bytes (uid_map ?p)))
               (write_proc_file n k ''/proc/self/gid_map'' (as_bytes (gid_map ?p))))) v = (Some r, w')" for v
    by (intro seq written) (use assms maps in simp_all)
  then show ?thesis by (simp add: install_user_mount_ns_def raw_call_def run_state_bind syscall_def Let_def)
qed

text \<open>A kernel whose writes take everything.\<close>

definition writing_kernel :: kernel where
  "writing_kernel = granting_kernel\<lparr>k_raw := \<lambda>h c. case c of
       WriteFd fd d \<Rightarrow> int (length d) + (if d = [] then 1 else 0) | OpenWriteOnly p \<Rightarrow> 7 | _ \<Rightarrow> 0\<rparr>"

theorem install_user_mount_ns_returns_witness:
  "\<exists>r w'. run_state (install_user_mount_ns 32 writing_kernel (prepare_user_mount_ns 1000 100)) initial_world = (Some r, w')"
proof -
  have "length (id_map 0 1000) \<le> 32" "length (id_map 0 100) \<le> 32" by code_simp+
  then show ?thesis
    by (intro install_user_mount_ns_returns) (auto simp: writing_kernel_def)
qed

theorem user_mount_ns_entered_witness:
  "\<exists>w' a b c. run_state (install_user_mount_ns 32 writing_kernel (prepare_user_mount_ns 1000 100)) initial_world = (Some (Inr ()), w')
     \<and> new_events initial_world w' = Raw (Unshare (CLONE_NEWUSER OR CLONE_NEWNS)) 0 # a @ b @ c
     \<and> wrote_file ''/proc/self/uid_map'' ''0 1000 1'' b \<and> wrote_file ''/proc/self/gid_map'' ''0 100 1'' c"
proof -
  let ?m = "install_user_mount_ns 32 writing_kernel (prepare_user_mount_ns 1000 100)"
  have "fst (run_state ?m initial_world) = Some (Inr ())" by code_simp
  then obtain w' where run: "run_state ?m initial_world = (Some (Inr ()), w')" by (metis prod.exhaust_sel)
  have "id_map 0 1000 = ''0 1000 1''" "id_map 0 100 = ''0 100 1''" by code_simp+
  with user_mount_ns_entered [OF run] run show ?thesis by auto
qed

end
