(* ===== verification/Landlock_Rules.thy ===== *)
theory Landlock_Rules
  imports Child_Setup
begin

text \<open>
  Landlock (\<open>src/landlock/mod.rs\<close>, \<open>src/landlock/decision.rs\<close>): an access decision becomes a ruleset in
  the parent, and the child restricts itself to it. The crate that talks to the kernel is a parameter:
  its masks of access rights per ABI, and its answers to the requests the code makes.
\<close>

unbundle bit_operations_syntax

section \<open>The crate and the decision\<close>

datatype ABI = V1 | V2 | V3 | V4 | V5 | V6 | V7

fun ABI_debug :: "ABI \<Rightarrow> string" where
  "ABI_debug V1 = ''V1''" | "ABI_debug V2 = ''V2''" | "ABI_debug V3 = ''V3''" | "ABI_debug V4 = ''V4''"
| "ABI_debug V5 = ''V5''" | "ABI_debug V6 = ''V6''" | "ABI_debug V7 = ''V7''"

record landlock_crate =
  from_all :: "ABI \<Rightarrow> u64"
  from_read :: "ABI \<Rightarrow> u64"
  from_file :: "ABI \<Rightarrow> u64"
  crate_answer :: "event list \<Rightarrow> landlock_request \<Rightarrow> string + int"
  into_fd :: "int \<Rightarrow> int option" \<comment> \<open>\<open>RulesetCreated\<close> into \<open>Option<OwnedFd>\<close>\<close>

definition ask :: "landlock_crate \<Rightarrow> landlock_request \<Rightarrow> (string + int) prog" where
  "ask lc q = syscall (\<lambda>h. crate_answer lc h q) (LandlockCrate q)"

datatype ReadPolicy = Broad | Narrow "string list"

record AccessDecision =
  read_policy :: ReadPolicy
  writable :: "string list"

section \<open>Presets\<close>

text \<open>\<open>retain(|p| p.exists())\<close>\<close>

primrec retain_existing :: "kernel \<Rightarrow> string list \<Rightarrow> string list prog" where
  "retain_existing k [] = State_Monad.return []"
| "retain_existing k (p # ps) = do {
     ex \<leftarrow> path_exists k p;
     rest \<leftarrow> retain_existing k ps;
     State_Monad.return (if ex then p # rest else rest)
   }"

text \<open>The directory of temporary files of the host is an argument.\<close>

definition baseline_writable :: "kernel \<Rightarrow> string \<Rightarrow> string list prog" where
  "baseline_writable k temp_dir =
     retain_existing k ([temp_dir, ''/var/tmp''] @ [''/dev/null'', ''/dev/zero'', ''/dev/urandom'', ''/dev/tty''])"

definition baseline_readable :: "kernel \<Rightarrow> string \<Rightarrow> string list prog" where
  "baseline_readable k temp_dir =
     retain_existing k ([''/usr'', ''/bin'', ''/sbin'', ''/lib'', ''/lib64'', ''/lib32'', ''/libx32'', ''/proc'', ''/sys'', ''/dev'', ''/opt'']
       @ [temp_dir, ''/var/tmp''])"

section \<open>Building a ruleset\<close>

definition ll_error :: "string \<Rightarrow> SandboxError" where
  "ll_error display = SandboxError_new ErrorKind.Landlock display"

definition REQUIRED_ABI :: ABI where "REQUIRED_ABI = V3"
definition REQUIRED_ABI_KERNEL :: string where "REQUIRED_ABI_KERNEL = ''6.2''"

definition abi_ctx_err :: "ABI \<Rightarrow> string \<Rightarrow> SandboxError" where
  "abi_ctx_err abi e =
     (let floor = (if abi = REQUIRED_ABI
                   then '' (the prepare_landlock preset requires kernel >= '' @ REQUIRED_ABI_KERNEL @ '')'' else '''')
      in SandboxError_new ErrorKind.Landlock
           (''failed to create landlock ruleset at ABI '' @ ABI_debug abi
            @ '': the running kernel'' @ [CHR 0x27] @ ''s landlock ABI does not support it'' @ floor @ '': '' @ e))"

definition legal_mask :: "landlock_crate \<Rightarrow> kernel \<Rightarrow> u64 \<Rightarrow> string \<Rightarrow> ABI \<Rightarrow> u64 prog" where
  "legal_mask lc k desired path abi = path_is_dir k path \<bind> (\<lambda>d.
     State_Monad.return (if d then desired else desired AND from_file lc abi))"

text \<open>The \<open>?\<close> operator with a value.\<close>

definition then_with :: "('e + 'a) prog \<Rightarrow> ('a \<Rightarrow> ('e + 'b) prog) \<Rightarrow> ('e + 'b) prog" where
  "then_with m f = m \<bind> (\<lambda>r. case r of Inl e \<Rightarrow> State_Monad.return (Inl e) | Inr x \<Rightarrow> f x)"

definition ask_or :: "(string \<Rightarrow> SandboxError) \<Rightarrow> landlock_crate \<Rightarrow> landlock_request \<Rightarrow> int result prog" where
  "ask_or err lc q = ask lc q \<bind> (\<lambda>r. State_Monad.return (map_sum err id r))"

definition probe_support :: "landlock_crate \<Rightarrow> unit result prog" where
  "probe_support lc =
     then_with (ask_or ll_error lc (HandleAccess (from_all lc V1))) (\<lambda>_.
     then_with (ask_or ll_error lc (CreateRuleset (from_all lc V1))) (\<lambda>_. proceed))"

text \<open>The cache is filled once; a cached failure is permanent.\<close>

definition ensure_supported :: "landlock_crate \<Rightarrow> unit result prog" where
  "ensure_supported lc = do {
     w \<leftarrow> State_Monad.get;
     cached \<leftarrow> (case LANDLOCK_SUPPORT w of
        Some c \<Rightarrow> State_Monad.return c
      | None \<Rightarrow> do {
          r \<leftarrow> probe_support lc;
          let c = map_sum SandboxError_fmt id r;
          _ \<leftarrow> State (\<lambda>w. ((), w\<lparr>LANDLOCK_SUPPORT := Some c\<rparr>));
          State_Monad.return c
        });
     State_Monad.return (map_sum (\<lambda>msg. SandboxError_new ErrorKind.Landlock (''unavailable: '' @ msg)) id cached)
   }"

text \<open>The loop over the rules; \<open>seen\<close> compares paths by their components, as \<open>Path\<close> does.\<close>

primrec add_rules ::
  "landlock_crate \<Rightarrow> kernel \<Rightarrow> ABI \<Rightarrow> int \<Rightarrow> Component list list \<Rightarrow> (string \<times> u64) list \<Rightarrow> unit result prog" where
  "add_rules lc k abi created seen [] = proceed"
| "add_rules lc k abi created seen (rule # rules) = (case rule of (path, desired) \<Rightarrow> do {
     ex \<leftarrow> path_exists k path;
     if \<not> ex \<or> components path \<in> set seen then add_rules lc k abi created seen rules
     else do {
       mask \<leftarrow> legal_mask lc k desired path abi;
       then_with (ask_or ll_error lc (OpenPathFd path)) (\<lambda>_.
       then_with (ask_or ll_error lc (AddRule created path mask)) (\<lambda>_.
         add_rules lc k abi created (components path # seen) rules))
     }
   })"

definition set_cloexec :: "kernel \<Rightarrow> int \<Rightarrow> unit result prog" where
  "set_cloexec k fd = raw_call k (SetFdCloexec fd) \<bind> (\<lambda>r. State_Monad.return (
     if r \<noteq> 0 then Inl (SandboxError_new ErrorKind.Landlock (k_strerror k (- r))) else Inr ()))"

record PreparedLandlock =
  pl_fd :: int

definition build_ruleset :: "landlock_crate \<Rightarrow> kernel \<Rightarrow> ABI \<Rightarrow> (string \<times> u64) list \<Rightarrow> PreparedLandlock result prog" where
  "build_ruleset lc k abi rules =
     then_with (ensure_supported lc) (\<lambda>_.
     let full = from_all lc abi in
     then_with (ask_or (abi_ctx_err abi) lc (HandleAccess full)) (\<lambda>_.
     then_with (ask_or (abi_ctx_err abi) lc (CreateRuleset full)) (\<lambda>created.
     then_with (add_rules lc k abi created [] rules) (\<lambda>_.
     then_with (ask_or ll_error lc (CloneRuleset created)) (\<lambda>cloned.
     case into_fd lc cloned of
       None \<Rightarrow> State_Monad.return (Inl (SandboxError_new ErrorKind.Landlock ''ruleset has no fd''))
     | Some fd \<Rightarrow> set_cloexec k fd \<bind> (\<lambda>r. case r of
           Inl e \<Rightarrow> close_raw k fd \<bind> (\<lambda>_. State_Monad.return (Inl e))
         | Inr _ \<Rightarrow> State_Monad.return (Inr \<lparr>pl_fd = fd\<rparr>)))))))"

definition decision_rules :: "landlock_crate \<Rightarrow> AccessDecision \<Rightarrow> (string \<times> u64) list" where
  "decision_rules lc decision =
     (let abi = REQUIRED_ABI; read = from_read lc abi; full = from_all lc abi
      in map (\<lambda>p. (p, full)) (writable decision)
         @ (case read_policy decision of Broad \<Rightarrow> [(''/'', read)] | Narrow paths \<Rightarrow> map (\<lambda>p. (p, read)) paths))"

definition prepare_landlock :: "landlock_crate \<Rightarrow> kernel \<Rightarrow> AccessDecision \<Rightarrow> PreparedLandlock result prog" where
  "prepare_landlock lc k decision = build_ruleset lc k REQUIRED_ABI (decision_rules lc decision)"

section \<open>In the child\<close>

text \<open>The error is the display of the failed call.\<close>

definition restrict_self_raw :: "kernel \<Rightarrow> int \<Rightarrow> (string + unit) prog" where
  "restrict_self_raw k ruleset_fd = do {
     r \<leftarrow> raw_call k PrSetNoNewPrivs;
     if r \<noteq> 0 then State_Monad.return (Inl (k_strerror k (- r)))
     else do {
       r \<leftarrow> raw_call k (LandlockRestrictSelf ruleset_fd);
       State_Monad.return (if r \<noteq> 0 then Inl (k_strerror k (- r)) else Inr ())
     }
   }"

definition install_landlock :: "kernel \<Rightarrow> PreparedLandlock \<Rightarrow> unit result prog" where
  "install_landlock k prepared = restrict_self_raw k (pl_fd prepared) \<bind> (\<lambda>r.
     State_Monad.return (map_sum (SandboxError_new ErrorKind.Landlock) id r))"

text \<open>The hook runs in the child: it is handed the child's kernel.\<close>

definition landlock_hook :: "landlock_crate \<Rightarrow> kernel \<Rightarrow> AccessDecision \<Rightarrow> (kernel \<Rightarrow> ChildSetup) result prog" where
  "landlock_hook lc k decision = then_with (prepare_landlock lc k decision) (\<lambda>prepared.
     State_Monad.return (Inr (\<lambda>child _. install_landlock child prepared)))"

section \<open>What a ruleset grants\<close>

fun granted :: "int \<Rightarrow> event \<Rightarrow> (string \<times> u64) option" where
  "granted h (LandlockCrate (AddRule h' p m) (Inr x)) = (if h' = h then Some (p, m) else None)"
| "granted h e = None"

definition grants :: "int \<Rightarrow> event list \<Rightarrow> (string \<times> u64) list" where
  "grants h es = List.map_filter (granted h) es"

lemma grants_simps [simp]:
  "grants h [] = []"
  "grants h (e # es) = (case granted h e of None \<Rightarrow> grants h es | Some g \<Rightarrow> g # grants h es)"
  "grants h (es @ fs) = grants h es @ grants h fs"
  by (auto simp: grants_def map_filter_def split: option.splits)

fun adds_rule :: "event \<Rightarrow> bool" where
  "adds_rule (LandlockCrate (AddRule h p m) r) = True"
| "adds_rule e = False"

lemma no_rule_no_grant: "list_all (\<lambda>e. \<not> adds_rule e) es \<Longrightarrow> grants h es = []"
proof (induction es)
  case (Cons e es)
  then show ?case by (cases e rule: adds_rule.cases) auto
qed simp

text \<open>A rule's mask as it is added: narrowed for anything but a directory.\<close>

definition narrowed :: "landlock_crate \<Rightarrow> ABI \<Rightarrow> u64 \<Rightarrow> bool \<Rightarrow> u64" where
  "narrowed lc abi d is_directory = (if is_directory then d else d AND from_file lc abi)"

text \<open>A grant comes from a rule that no existing rule for the same path precedes.\<close>

definition first_rule :: "landlock_crate \<Rightarrow> ABI \<Rightarrow> (string \<times> u64) list \<Rightarrow> event list \<Rightarrow> string \<times> u64 \<Rightarrow> bool" where
  "first_rule lc abi rules es g \<longleftrightarrow> (\<exists>earlier d later b. rules = earlier @ (fst g, d) # later
     \<and> PathIsDir (fst g) b \<in> set es \<and> snd g = narrowed lc abi d b
     \<and> (\<forall>q\<in>fst ` set earlier. components q = components (fst g) \<longrightarrow> PathExists q False \<in> set es))"

definition path_key :: "string \<times> u64 \<Rightarrow> Component list" where
  "path_key g = components (fst g)"

lemma first_rule_Cons:
  assumes "first_rule lc abi rules es g" "set es \<subseteq> set fs"
    and "components (fst r) = path_key g \<Longrightarrow> PathExists (fst r) False \<in> set fs"
  shows "first_rule lc abi (r # rules) fs g"
proof -
  obtain earlier d later b where e: "rules = earlier @ (fst g, d) # later" "PathIsDir (fst g) b \<in> set es"
      "snd g = narrowed lc abi d b"
      "\<forall>q\<in>fst ` set earlier. components q = components (fst g) \<longrightarrow> PathExists q False \<in> set es"
    using assms(1) by (auto simp: first_rule_def)
  then show ?thesis
    unfolding first_rule_def using assms(2,3)
    by (intro exI [of _ "r # earlier"] exI [of _ d] exI [of _ later] exI [of _ b]) (auto simp: path_key_def)
qed

definition rules_outcome ::
  "landlock_crate \<Rightarrow> ABI \<Rightarrow> int \<Rightarrow> Component list set \<Rightarrow> (string \<times> u64) list \<Rightarrow> event list \<Rightarrow> bool \<Rightarrow> bool" where
  "rules_outcome lc abi h seen rules es completed \<longleftrightarrow>
     distinct (map path_key (grants h es)) \<and> path_key ` set (grants h es) \<inter> seen = {}
     \<and> (\<forall>g\<in>set (grants h es). first_rule lc abi rules es g)
     \<and> (completed \<longrightarrow> (\<forall>r\<in>set rules. PathExists (fst r) False \<in> set es \<or> path_key r \<in> seen \<union> path_key ` set (grants h es)))"

lemma run_then_ask:
  "run_state (then_with (ask_or err lc q) f) w =
     (case crate_answer lc (trace w) q of
        Inl e \<Rightarrow> (Inl (err e), log_event (LandlockCrate q (Inl e)) w)
      | Inr x \<Rightarrow> run_state (f x) (log_event (LandlockCrate q (Inr x)) w))"
  by (simp add: then_with_def ask_or_def ask_def run_state_bind syscall_def Let_def split: sum.split)

lemma add_rules_outcome:
  "run_state (add_rules lc k abi h seen rules) w = (r, w') \<Longrightarrow>
     \<exists>es. trace w' = trace w @ es \<and> rules_outcome lc abi h (set seen) rules es (is_ok r)"
proof (induction rules arbitrary: seen w)
  case Nil
  then show ?case by (auto simp: proceed_def run_simps rules_outcome_def)
next
  case (Cons rule rules)
  obtain p d where rule: "rule = (p, d)" by force
  define ex where "ex = k_exists k (trace w) p"
  let ?w1 = "log_event (PathExists p ex) w"
  show ?case
  proof (cases "\<not> ex \<or> components p \<in> set seen")
    case True
    then have "run_state (add_rules lc k abi h seen rules) ?w1 = (r, w')"
      using Cons.prems by (simp add: rule path_exists_def run_state_bind syscall_def Let_def ex_def [symmetric])
    from Cons.IH [OF this] obtain es where es: "trace w' = trace ?w1 @ es"
        "rules_outcome lc abi h (set seen) rules es (is_ok r)" by blast
    let ?es = "PathExists p ex # es"
    have "first_rule lc abi (rule # rules) ?es g" if "g \<in> set (grants h es)" for g
      using that es(2) True by (intro first_rule_Cons [of lc abi rules es]) (auto simp: rules_outcome_def rule)
    then have "rules_outcome lc abi h (set seen) (rule # rules) ?es (is_ok r)"
      using es(2) True by (auto simp: rules_outcome_def rule path_key_def)
    then show ?thesis using es(1) by (intro exI [of _ ?es]) simp
  next
    case False
    then have ex: "k_exists k (trace w) p" and fresh: "components p \<notin> set seen" by (auto simp: ex_def)
    define b where "b = k_is_dir k (trace w @ [PathExists p True]) p"
    let ?w1 = "log_event (PathExists p True) w"
    let ?w2 = "log_event (PathIsDir p b) ?w1"
    define o1 where "o1 = crate_answer lc (trace w @ [PathExists p True, PathIsDir p b]) (OpenPathFd p)"
    let ?w3 = "log_event (LandlockCrate (OpenPathFd p) o1) ?w2"
    let ?m = "narrowed lc abi d b"
    define o2 where "o2 = crate_answer lc (trace w @ [PathExists p True, PathIsDir p b, LandlockCrate (OpenPathFd p) o1]) (AddRule h p ?m)"
    let ?w4 = "log_event (LandlockCrate (AddRule h p ?m) o2) ?w3"
    let ?start = "[PathExists p True, PathIsDir p b, LandlockCrate (OpenPathFd p) o1]"
    have run: "(case o1 of Inl e \<Rightarrow> (Inl (ll_error e), log_event (LandlockCrate (OpenPathFd p) (Inl e)) ?w2)
       | Inr x \<Rightarrow> run_state (then_with (ask_or ll_error lc (AddRule h p ?m)) (\<lambda>_.
            add_rules lc k abi h (components p # seen) rules)) (log_event (LandlockCrate (OpenPathFd p) (Inr x)) ?w2)) = (r, w')"
      using Cons.prems ex fresh
      by (simp add: rule path_exists_def path_is_dir_def legal_mask_def run_state_bind syscall_def Let_def run_then_ask
          narrowed_def [symmetric] b_def [symmetric] o1_def [symmetric])
    show ?thesis
    proof (cases o1)
      case (Inl e)
      then show ?thesis using run by (intro exI [of _ ?start]) (auto simp: rules_outcome_def)
    next
      case o1: (Inr x)
      show ?thesis
      proof (cases o2)
        case (Inl e)
        then have "r = Inl (ll_error e)" "w' = ?w4" using run o1 by (simp_all add: run_then_ask o2_def)
        then show ?thesis using o1 Inl
          by (intro exI [of _ "?start @ [LandlockCrate (AddRule h p ?m) o2]"]) (auto simp: rules_outcome_def)
      next
        case (Inr y)
        then have "run_state (add_rules lc k abi h (components p # seen) rules) ?w4 = (r, w')"
          using run o1 by (simp add: run_then_ask o2_def)
        from Cons.IH [OF this] obtain es where es: "trace w' = trace ?w4 @ es"
            "rules_outcome lc abi h (set (components p # seen)) rules es (is_ok r)" by blast
        let ?es = "?start @ LandlockCrate (AddRule h p ?m) o2 # es"
        have gr: "grants h ?es = (p, ?m) # grants h es" by (simp add: Inr)
        have "first_rule lc abi (rule # rules) ?es g" if "g \<in> set (grants h es)" for g
          using that es(2) by (intro first_rule_Cons [of lc abi rules es]) (auto simp: rules_outcome_def rule)
        moreover have "first_rule lc abi (rule # rules) ?es (p, ?m)"
          unfolding first_rule_def rule
          by (intro exI [of _ "[]"] exI [of _ d] exI [of _ rules] exI [of _ b]) simp
        ultimately have "rules_outcome lc abi h (set seen) (rule # rules) ?es (is_ok r)"
          using es(2) fresh unfolding rules_outcome_def gr by (auto simp: rule path_key_def)
        then show ?thesis using es(1) by (intro exI [of _ ?es]) simp
      qed
    qed
  qed
qed

lemma run_then_with:
  "run_state (then_with m f) w = (case run_state m w of (r, v) \<Rightarrow> (case r of Inl e \<Rightarrow> (Inl e, v) | Inr x \<Rightarrow> run_state (f x) v))"
  by (auto simp: then_with_def run_state_bind split: prod.split sum.split)

lemma then_with_ok:
  assumes "run_state (then_with m f) w = (Inr y, w')"
  obtains x v where "run_state m w = (Inr x, v)" "run_state (f x) v = (Inr y, w')"
  using assms by (auto simp: run_then_with split: prod.splits sum.splits)

abbreviation ruleless :: "'a prog \<Rightarrow> bool" where
  "ruleless \<equiv> emits (\<lambda>e. \<not> adds_rule e)"

lemma ruleless_ask: "(\<And>h p m. q \<noteq> AddRule h p m) \<Longrightarrow> ruleless (ask_or err lc q)"
  by (cases q) (auto simp: ask_or_def ask_def intro!: emits_intros)

lemma ruleless_then_with: "ruleless m \<Longrightarrow> (\<And>x. ruleless (f x)) \<Longrightarrow> ruleless (then_with m f)"
  unfolding then_with_def by (intro emits_intros)

lemma ruleless_supported: "ruleless (ensure_supported lc)"
proof -
  have cache: "ruleless (State (\<lambda>w. ((), w\<lparr>LANDLOCK_SUPPORT := c\<rparr>)))" for c by (simp add: emits_def)
  have get: "ruleless (State_Monad.get :: world prog)" by (simp add: emits_def State_Monad.get_def)
  have probe: "ruleless (probe_support lc)"
    unfolding probe_support_def proceed_def by (intro ruleless_then_with ruleless_ask emits_intros) simp_all
  show ?thesis
    unfolding ensure_supported_def Let_def by (intro emits_intros cache get probe)
qed

text \<open>A prepared ruleset: the rules were added to the ruleset that was created for all rights of the ABI, and
  the descriptor is that of a clone of it.\<close>

definition prepared_as :: "landlock_crate \<Rightarrow> ABI \<Rightarrow> (string \<times> u64) list \<Rightarrow> int \<Rightarrow> event list \<Rightarrow> bool" where
  "prepared_as lc abi rules fd es \<longleftrightarrow> (\<exists>h c. LandlockCrate (CreateRuleset (from_all lc abi)) (Inr h) \<in> set es
     \<and> LandlockCrate (CloneRuleset h) (Inr c) \<in> set es \<and> into_fd lc c = Some fd \<and> rules_outcome lc abi h {} rules es True)"

lemma rules_outcome_extend:
  assumes "rules_outcome lc abi h {} rules es c" "list_all (\<lambda>e. \<not> adds_rule e) as" "list_all (\<lambda>e. \<not> adds_rule e) bs"
  shows "rules_outcome lc abi h {} rules (as @ es @ bs) c"
proof -
  have gr: "grants h (as @ es @ bs) = grants h es" using assms by (simp add: no_rule_no_grant)
  have "first_rule lc abi rules (as @ es @ bs) g" if "first_rule lc abi rules es g" for g
    using that unfolding first_rule_def by (fastforce simp: image_iff)
  then show ?thesis using assms(1) unfolding rules_outcome_def gr by auto
qed

lemma run_ask_ok:
  "run_state (ask_or err lc q) w = (Inr x, v) \<Longrightarrow> trace v = trace w @ [LandlockCrate q (Inr x)]"
  by (cases "crate_answer lc (trace w) q") (auto simp: ask_or_def ask_def run_state_bind syscall_def Let_def)

lemma build_ruleset_prepared:
  assumes "run_state (build_ruleset lc k abi rules) w = (Inr p, w')"
  shows "prepared_as lc abi rules (pl_fd p) (new_events w w')"
proof -
  let ?full = "from_all lc abi"
  obtain u v0 h0 v1 h v2 u3 v3 c v4 where
    0: "run_state (ensure_supported lc) w = (Inr u, v0)" and
    1: "run_state (ask_or (abi_ctx_err abi) lc (HandleAccess ?full)) v0 = (Inr h0, v1)" and
    2: "run_state (ask_or (abi_ctx_err abi) lc (CreateRuleset ?full)) v1 = (Inr h, v2)" and
    3: "run_state (add_rules lc k abi h [] rules) v2 = (Inr u3, v3)" and
    4: "run_state (ask_or ll_error lc (CloneRuleset h)) v3 = (Inr c, v4)" and
    5: "run_state (case into_fd lc c of
       None \<Rightarrow> State_Monad.return (Inl (SandboxError_new ErrorKind.Landlock ''ruleset has no fd''))
     | Some fd \<Rightarrow> set_cloexec k fd \<bind> (\<lambda>r. case r of
           Inl e \<Rightarrow> close_raw k fd \<bind> (\<lambda>_. State_Monad.return (Inl e))
         | Inr _ \<Rightarrow> State_Monad.return (Inr \<lparr>pl_fd = fd\<rparr>))) v4 = (Inr p, w')"
    using assms unfolding build_ruleset_def Let_def by (elim then_with_ok) blast
  obtain as where as: "trace v0 = trace w @ as" "list_all (\<lambda>e. \<not> adds_rule e) as"
    using emits_run [OF ruleless_supported 0] by blast
  obtain es where es: "trace v3 = trace v2 @ es" "rules_outcome lc abi h {} rules es True"
    using add_rules_outcome [OF 3] by auto
  obtain fd x where fd: "into_fd lc c = Some fd" "p = \<lparr>pl_fd = fd\<rparr>" "trace w' = trace v4 @ [Raw (SetFdCloexec fd) x]"
    using 5 by (auto simp: set_cloexec_def raw_call_def run_simps split: option.splits sum.splits if_splits)
  let ?as = "as @ [LandlockCrate (HandleAccess ?full) (Inr h0), LandlockCrate (CreateRuleset ?full) (Inr h)]"
  let ?bs = "[LandlockCrate (CloneRuleset h) (Inr c), Raw (SetFdCloexec fd) x]"
  have "new_events w w' = ?as @ es @ ?bs"
    using as es run_ask_ok [OF 1] run_ask_ok [OF 2] run_ask_ok [OF 4] fd by (simp add: new_events_def)
  moreover have "rules_outcome lc abi h {} rules (?as @ es @ ?bs) True"
    by (rule rules_outcome_extend [OF es(2)]) (use as in simp_all)
  ultimately show ?thesis using fd unfolding prepared_as_def by (intro exI [of _ h] exI [of _ c]) simp
qed

section \<open>The decision is what is granted\<close>

definition readable :: "AccessDecision \<Rightarrow> string list" where
  "readable decision = (case read_policy decision of Broad \<Rightarrow> [''/''] | Narrow paths \<Rightarrow> paths)"

text \<open>What the kernel is asked to grant beneath a path.\<close>

definition decision_grants :: "landlock_crate \<Rightarrow> AccessDecision \<Rightarrow> event list \<Rightarrow> string \<times> u64 \<Rightarrow> bool" where
  "decision_grants lc decision es g \<longleftrightarrow> (\<exists>b. PathIsDir (fst g) b \<in> set es \<and>
     (fst g \<in> set (writable decision) \<and> snd g = narrowed lc REQUIRED_ABI (from_all lc REQUIRED_ABI) b
      \<or> fst g \<in> set (readable decision) \<and> snd g = narrowed lc REQUIRED_ABI (from_read lc REQUIRED_ABI) b
         \<and> (\<forall>q\<in>set (writable decision). components q = components (fst g) \<longrightarrow> PathExists q False \<in> set es)))"

lemma decision_rules_split:
  "decision_rules lc decision = map (\<lambda>p. (p, from_all lc REQUIRED_ABI)) (writable decision)
     @ map (\<lambda>p. (p, from_read lc REQUIRED_ABI)) (readable decision)"
  by (simp add: decision_rules_def readable_def Let_def split: ReadPolicy.split)

lemma first_rule_decision:
  assumes "first_rule lc REQUIRED_ABI (decision_rules lc decision) es g"
  shows "decision_grants lc decision es g"
proof -
  let ?W = "map (\<lambda>p. (p, from_all lc REQUIRED_ABI)) (writable decision)"
  let ?R = "map (\<lambda>p. (p, from_read lc REQUIRED_ABI)) (readable decision)"
  obtain earlier d later b where e: "?W @ ?R = earlier @ (fst g, d) # later" "PathIsDir (fst g) b \<in> set es"
      "snd g = narrowed lc REQUIRED_ABI d b"
      "\<forall>q\<in>fst ` set earlier. components q = components (fst g) \<longrightarrow> PathExists q False \<in> set es"
    using assms unfolding first_rule_def decision_rules_split by blast
  from e(1) obtain us where "?W = earlier @ us \<and> us @ ?R = (fst g, d) # later \<or> earlier = ?W @ us \<and> ?R = us @ (fst g, d) # later"
    by (auto simp only: append_eq_append_conv2)
  then consider (writable) us where "?W = earlier @ (fst g, d) # us" | (readable) us where "earlier = ?W @ us" "?R = us @ (fst g, d) # later"
    by (cases us) auto
  then show ?thesis
  proof cases
    case writable
    then have "(fst g, d) \<in> set ?W" by simp
    then show ?thesis using e by (auto simp: decision_grants_def)
  next
    case readable
    then have "(fst g, d) \<in> set ?R" by simp
    moreover have "set (writable decision) \<subseteq> fst ` set earlier" using readable by force
    ultimately show ?thesis using e by (auto simp: decision_grants_def)
  qed
qed

text \<open>C0: a prepared Landlock ruleset grants what the decision lists and nothing else. All rights of the
  ABI are granted only beneath writable paths; read rights only beneath the readable paths (\<open>/\<close> under
  the broad policy), unless the same path is writable; rights are narrowed for anything that is not a
  directory; each path is granted once, and every listed path that exists is granted.\<close>

theorem landlock_grants_the_decision:
  assumes "run_state (prepare_landlock lc k decision) w = (Inr p, w')"
  shows "\<exists>h c. LandlockCrate (CreateRuleset (from_all lc REQUIRED_ABI)) (Inr h) \<in> set (new_events w w')
    \<and> LandlockCrate (CloneRuleset h) (Inr c) \<in> set (new_events w w') \<and> into_fd lc c = Some (pl_fd p)
    \<and> distinct (map path_key (grants h (new_events w w')))
    \<and> (\<forall>g\<in>set (grants h (new_events w w')). decision_grants lc decision (new_events w w') g)
    \<and> (\<forall>q\<in>set (writable decision) \<union> set (readable decision).
         PathExists q False \<in> set (new_events w w') \<or> components q \<in> path_key ` set (grants h (new_events w w')))"
proof -
  let ?es = "new_events w w'"
  obtain h c where p: "LandlockCrate (CreateRuleset (from_all lc REQUIRED_ABI)) (Inr h) \<in> set ?es"
      "LandlockCrate (CloneRuleset h) (Inr c) \<in> set ?es" "into_fd lc c = Some (pl_fd p)"
      "rules_outcome lc REQUIRED_ABI h {} (decision_rules lc decision) ?es True"
    using build_ruleset_prepared [OF assms [unfolded prepare_landlock_def]] by (auto simp: prepared_as_def)
  have "decision_grants lc decision ?es g" if "g \<in> set (grants h ?es)" for g
    using p(4) that first_rule_decision by (simp add: rules_outcome_def)
  moreover have "PathExists q False \<in> set ?es \<or> components q \<in> path_key ` set (grants h ?es)"
    if "q \<in> set (writable decision) \<union> set (readable decision)" for q
  proof -
    from that obtain d where "(q, d) \<in> set (decision_rules lc decision)" by (auto simp: decision_rules_split)
    then have "PathExists (fst (q, d)) False \<in> set ?es \<or> path_key (q, d) \<in> {} \<union> path_key ` set (grants h ?es)"
      using p(4) unfolding rules_outcome_def by blast
    then show ?thesis by (simp add: path_key_def [of "(q, d)"])
  qed
  ultimately show ?thesis using p by (intro exI [of _ h] exI [of _ c]) (simp add: rules_outcome_def)
qed

section \<open>The child restricts itself\<close>

lemma install_landlock_ok:
  assumes "run_state (install_landlock k p) w = (Inr u, w')"
  shows "trace w' = trace w @ [Raw PrSetNoNewPrivs 0, Raw (LandlockRestrictSelf (pl_fd p)) 0]"
  using assms by (auto simp: install_landlock_def restrict_self_raw_def raw_call_def run_simps split: if_splits)

lemma install_landlock_no_exec: "emits (\<lambda>e. \<not> is_exec e) (install_landlock k p)"
  by (auto simp: install_landlock_def restrict_self_raw_def raw_call_def is_exec_def intro!: emits_intros)

lemma hook_prepared:
  assumes "run_state (landlock_hook lc k decision) w = (Inr hook, w')"
  obtains p where "run_state (prepare_landlock lc k decision) w = (Inr p, w')" "hook = (\<lambda>child _. install_landlock child p)"
proof -
  obtain p v where p: "run_state (prepare_landlock lc k decision) w = (Inr p, v)"
      and rest: "run_state (State_Monad.return (Inr (\<lambda>child _. install_landlock child p))) v = (Inr hook :: SandboxError + _, w')"
    using assms unfolding landlock_hook_def by (elim then_with_ok)
  from rest have "v = w'" "hook = (\<lambda>child _. install_landlock child p)" by (auto simp: run_simps)
  then show thesis using p that by simp
qed

text \<open>C0: a program started with a Landlock hook runs confined. When a child whose hook was made from a
  decision executes its program, the parent's ruleset grants exactly that decision, and the child gave
  up new privileges and restricted itself to the ruleset as its last calls before it closed the error
  pipe and executed the program.\<close>

theorem landlock_child_confined:
  assumes parent: "run_state (landlock_hook lc k decision) w = (Inr hook, w1)"
    and payload: "p_child_hook pl = Some (hook k')"
    and child: "run_state (exec_sandboxed n k' pl) v = (r, v')"
    and exec: "e \<in> set (new_events v v')" "is_exec e"
  shows "\<exists>fd h c before d x. LandlockCrate (CloneRuleset h) (Inr c) \<in> set (new_events w w1) \<and> into_fd lc c = Some fd
    \<and> (\<forall>g\<in>set (grants h (new_events w w1)). decision_grants lc decision (new_events w w1) g)
    \<and> new_events v v' = before @ [Raw PrSetNoNewPrivs 0, Raw (LandlockRestrictSelf fd) 0,
        Raw (CloseFd (error_write_fd pl)) d, Raw (Execvpe (p_argv pl) (p_envp pl)) x]
    \<and> list_all (\<lambda>e. \<not> is_exec e) before"
proof -
  obtain p where p: "run_state (prepare_landlock lc k decision) w = (Inr p, w1)"
      and hook: "hook = (\<lambda>child _. install_landlock child p)"
    using parent by (rule hook_prepared)
  have benign: "hook_benign pl"
    using payload install_landlock_no_exec by (simp add: hook_benign_def hook)
  from landlock_grants_the_decision [OF p] obtain h c where g: "LandlockCrate (CloneRuleset h) (Inr c) \<in> set (new_events w w1)"
      "into_fd lc c = Some (pl_fd p)" "\<forall>g\<in>set (grants h (new_events w w1)). decision_grants lc decision (new_events w w1) g"
    by blast
  from child benign show ?thesis
  proof (cases rule: exec_cases)
    case (not_ready pre a c)
    then have "list_all (\<lambda>e. \<not> is_exec e) (new_events v v')"
      using before_ready_no_exec by (simp add: new_events_def)
    then show ?thesis using exec by (auto simp: list_all_iff)
  next
    case (failed pre c u steps u' stage msg)
    obtain ws where "trace v' = trace u' @ ws" "list_all (\<lambda>e. \<not> is_exec e) ws"
      using emits_run [OF abort_no_exec failed(6)] by blast
    then have "list_all (\<lambda>e. \<not> is_exec e) (new_events v v')"
      using failed before_ready_no_exec by (simp add: new_events_def)
    then show ?thesis using exec by (auto simp: list_all_iff)
  next
    case (executed pre cc u u' steps hooked d x u2)
    have "run_state (install_landlock k' p) u' = (Inr (), u2)"
    proof -
      obtain x where "run_state (install_landlock k' p) u' = (x, u2)"
          "map_sum (\<lambda>e. (ChildStage.Hook, SandboxError_fmt e)) id x = Inr ()"
        using executed(8) payload by (auto simp: hook_step_def at_stage_def hook run_simps)
      then show ?thesis by (cases x) auto
    qed
    then have hooked: "hooked = [Raw PrSetNoNewPrivs 0, Raw (LandlockRestrictSelf (pl_fd p)) 0]"
      using install_landlock_ok executed(9) by fastforce
    let ?before = "pre @ [ReadFd (ready_read_fd pl) 1 (Inr [0]), Raw (CloseFd (ready_read_fd pl)) cc] @ steps"
    have "list_all (\<lambda>e. \<not> is_exec e) steps"
      using emits_run [OF builtin_no_exec executed(3)] executed(4) by auto
    then have "list_all (\<lambda>e. \<not> is_exec e) ?before" using before_ready_no_exec [OF executed(1)] by simp
    moreover have "new_events v v' = ?before @ [Raw PrSetNoNewPrivs 0, Raw (LandlockRestrictSelf (pl_fd p)) 0,
        Raw (CloseFd (error_write_fd pl)) d, Raw (Execvpe (p_argv pl) (p_envp pl)) x]"
      using executed(2,4,6) hooked by (simp add: new_events_def)
    ultimately show ?thesis using g by blast
  qed
qed

section \<open>Witnesses\<close>

text \<open>The masks of the kernel's first ABIs; every request is granted with handle 3.\<close>

definition demo_crate :: landlock_crate where
  "demo_crate = \<lparr>from_all = (\<lambda>abi. if abi = V1 then 0x1FFF else 0x7FFF), from_read = (\<lambda>abi. 0xD),
     from_file = (\<lambda>abi. 0x4007), crate_answer = (\<lambda>h q. Inr 3), into_fd = Some\<rparr>"

definition demo_decision :: AccessDecision where
  "demo_decision = \<lparr>read_policy = Narrow [''/usr'', ''/work''], writable = [''/work'']\<rparr>"

lemmas landlock_run_defs = prepare_landlock_def build_ruleset_def ensure_supported_def probe_support_def add_rules.simps
  legal_mask_def set_cloexec_def decision_rules_def proceed_def State_Monad.get_def

lemma demo_components:
  "components ''/work'' = [RootDir, Normal ''work'']" "components ''/usr'' = [RootDir, Normal ''usr'']"
  by code_simp+

lemma demo_prepared:
  "fst (run_state (prepare_landlock demo_crate granting_kernel demo_decision) initial_world) = Inr \<lparr>pl_fd = 3\<rparr>"
  by (simp add: landlock_run_defs then_with_def ask_or_def ask_def REQUIRED_ABI_def demo_components run_state_bind demo_decision_def demo_crate_def granting_kernel_def
      initial_world_def Let_def call_defs syscall_def)

lemma demo_prepared_obtain:
  obtains w' where "run_state (prepare_landlock demo_crate granting_kernel demo_decision) initial_world = (Inr \<lparr>pl_fd = 3\<rparr>, w')"
  using demo_prepared by (metis prod.exhaust_sel)

theorem landlock_grants_the_decision_witness:
  "\<exists>p w' h. run_state (prepare_landlock demo_crate granting_kernel demo_decision) initial_world = (Inr p, w')
     \<and> (\<forall>g\<in>set (grants h (new_events initial_world w')). decision_grants demo_crate demo_decision (new_events initial_world w') g)"
proof -
  obtain w' where run: "run_state (prepare_landlock demo_crate granting_kernel demo_decision) initial_world = (Inr \<lparr>pl_fd = 3\<rparr>, w')"
    by (rule demo_prepared_obtain)
  from landlock_grants_the_decision [OF run] run show ?thesis by blast
qed

theorem landlock_child_confined_witness:
  "\<exists>w1 v' fd before d x. run_state (exec_sandboxed 1 granting_kernel
        (demo_payload\<lparr>p_child_hook := Some (\<lambda>_. install_landlock granting_kernel \<lparr>pl_fd = 3\<rparr>)\<rparr>)) initial_world = (Some ChildExec, v')
     \<and> new_events initial_world v' = before @ [Raw PrSetNoNewPrivs 0, Raw (LandlockRestrictSelf fd) 0,
        Raw (CloseFd 6) d, Raw (Execvpe [''true''] []) x]"
proof -
  let ?hook = "\<lambda>(child :: kernel) (_ :: ChildCtx). install_landlock child \<lparr>pl_fd = 3\<rparr>"
  let ?pl = "demo_payload\<lparr>p_child_hook := Some (?hook granting_kernel)\<rparr>"
  let ?m = "exec_sandboxed 1 granting_kernel ?pl"
  obtain w1 where "run_state (prepare_landlock demo_crate granting_kernel demo_decision) initial_world = (Inr \<lparr>pl_fd = 3\<rparr>, w1)"
    by (rule demo_prepared_obtain)
  then have parent: "run_state (landlock_hook demo_crate granting_kernel demo_decision) initial_world = (Inr ?hook, w1)"
    by (simp add: landlock_hook_def run_then_with)
  have "wp ?m (\<lambda>r w'. r = Some ChildExec \<and> Raw (Execvpe [''true''] []) 0 \<in> set (new_events initial_world w')) initial_world"
    by (simp add: child_run_defs install_landlock_def restrict_self_raw_def Let_def granting_kernel_def initial_world_def new_events_def)
  then obtain v' where child: "run_state ?m initial_world = (Some ChildExec, v')"
    and exec: "Raw (Execvpe [''true''] []) 0 \<in> set (new_events initial_world v')"
    by (auto simp: wp_def split: prod.splits)
  have "p_child_hook ?pl = Some (?hook granting_kernel)" by simp
  from landlock_child_confined [OF parent this child exec] child show ?thesis
    by (simp add: demo_payload_def) blast
qed

end
