(* ===== verification/Spec2Isabelle.thy ===== *)
theory Spec2Isabelle
  imports Sandbox Spawn_Order Dynamic_Mounts Mount_Child Landlock_Rules
begin

text \<open>
  A model of \<open>libsandbox-rs\<close>, a library that runs a program in a Linux sandbox.
\<close>

end
